(* ===== verification/Prelude.thy ===== *)
theory Prelude
  imports Main "HOL-Library.Word"
begin

text \<open>
  Shared vocabulary of the development: results of C code that can stop (a bugcheck, a panic
  or undefined behaviour), sequencing of such results, checked array and pointer reads,
  ring buffers as lists, and the interface of a bounded FIFO queue that the queues of the
  kernels implement.
\<close>

unbundle bit_operations_syntax

named_theorems wf_intros \<open>introduction rules for well-formedness predicates\<close>
named_theorems res_simps \<open>inversion of results\<close>

section \<open>Results\<close>

text \<open>
  \<open>Bugcheck r\<close> is the program stopping itself (\<open>KernelBugcheck\<close>, \<open>PANIC\<close>, \<open>KASSERT\<close>).
  \<open>Undefined r\<close> is a step the C standard gives no meaning to: a null or dangling pointer
  read, an index outside its array.
\<close>

datatype fault = Bugcheck string | Undefined string

type_synonym 'a res = "fault + 'a"

definition bnd :: "'a res \<Rightarrow> ('a \<Rightarrow> 'b res) \<Rightarrow> 'b res" where
  "bnd m f = (case m of Inl e \<Rightarrow> Inl e | Inr x \<Rightarrow> f x)"

lemma bnd_Inl [simp]: "bnd (Inl e) f = Inl e"
  by (simp add: bnd_def)

lemma bnd_Inr [simp]: "bnd (Inr x) f = f x"
  by (simp add: bnd_def)

lemma bnd_eq_Inr [res_simps]: "bnd m f = Inr y \<longleftrightarrow> (\<exists>x. m = Inr x \<and> f x = Inr y)"
  by (cases m) simp_all

lemma bnd_eq_Inl: "bnd m f = Inl e \<longleftrightarrow> m = Inl e \<or> (\<exists>x. m = Inr x \<and> f x = Inl e)"
  by (cases m) simp_all

lemma bnd_assoc: "bnd (bnd m f) g = bnd m (\<lambda>x. bnd (f x) g)"
  by (cases m) simp_all

lemma bnd_cong [fundef_cong]:
  "m = m' \<Longrightarrow> (\<And>x. m' = Inr x \<Longrightarrow> f x = f' x) \<Longrightarrow> bnd m f = bnd m' f'"
  by (cases m') simp_all

lemma bnd_InrE:
  assumes "bnd m f = Inr y"
  obtains x where "m = Inr x" "f x = Inr y"
  using assms by (auto simp: res_simps)

text \<open>The value of a result, or a default.\<close>

definition the_res :: "'a \<Rightarrow> 'a res \<Rightarrow> 'a" where
  "the_res d r = (case r of Inl e \<Rightarrow> d | Inr x \<Rightarrow> x)"

text \<open>Dereferencing a pointer that may be null, and reading an array at an index.\<close>

definition deref :: "'a option \<Rightarrow> 'a res" where
  "deref p = (case p of None \<Rightarrow> Inl (Undefined ''null pointer'') | Some x \<Rightarrow> Inr x)"

definition aread :: "'a list \<Rightarrow> nat \<Rightarrow> 'a res" where
  "aread xs i = (if i < length xs then Inr (xs ! i) else Inl (Undefined ''array index''))"

lemma deref_simps [simp]:
  "deref None = Inl (Undefined ''null pointer'')"
  "deref (Some x) = Inr x"
  by (simp_all add: deref_def)

lemma deref_eq_Inr [res_simps]: "deref p = Inr x \<longleftrightarrow> p = Some x"
  by (cases p) simp_all

lemma aread_eq_Inr [res_simps]: "aread xs i = Inr x \<longleftrightarrow> i < length xs \<and> xs ! i = x"
  by (auto simp: aread_def)

lemma aread_in [simp]: "i < length xs \<Longrightarrow> aread xs i = Inr (xs ! i)"
  by (simp add: aread_def)

text \<open>
  Code that may also fail to return: the outer \<open>None\<close> is a loop that runs for ever.
\<close>

definition obnd :: "'a res option \<Rightarrow> ('a \<Rightarrow> 'b res option) \<Rightarrow> 'b res option" where
  "obnd m f = (case m of None \<Rightarrow> None | Some (Inl e) \<Rightarrow> Some (Inl e) | Some (Inr x) \<Rightarrow> f x)"

lemma obnd_simps [simp]:
  "obnd None f = None"
  "obnd (Some (Inl e)) f = Some (Inl e)"
  "obnd (Some (Inr x)) f = f x"
  by (simp_all add: obnd_def)

lemma obnd_eq_Some_Inr [res_simps]:
  "obnd m f = Some (Inr y) \<longleftrightarrow> (\<exists>x. m = Some (Inr x) \<and> f x = Some (Inr y))"
  by (auto simp: obnd_def split: option.splits sum.splits)


lemma strict_sorted_le_last:
  "sorted_wrt (<) (xs :: 'a :: linorder list) \<Longrightarrow> x \<in> set xs \<Longrightarrow> x \<le> last xs"
  by (induction xs) (auto intro: less_imp_le)

lemma map_update_same: "f y = f (xs ! i) \<Longrightarrow> map f (xs[i := y]) = map f xs"
  by (cases "i < length xs") (simp_all add: map_update list_update_same_conv list_update_beyond)

text \<open>Filling a table slot by slot, each slot once.\<close>

lemma foldl_update_nth:
  assumes "inj_on f (set ns)" "\<forall>n \<in> set ns. f n < length xs" "n \<in> set ns"
  shows "foldl (\<lambda>xs n. xs[f n := g n]) xs ns ! f n = g n"
  using assms
proof (induction ns rule: rev_induct)
  case (snoc m ns)
  have len: "length (foldl (\<lambda>xs n. xs[f n := g n]) xs ns) = length xs" for ns
    by (induction ns rule: rev_induct) simp_all
  show ?case
    using snoc len by (cases "n = m") (auto simp: nth_list_update inj_on_def)
qed simp

section \<open>Ring buffers\<close>

text \<open>
  Every queue of the program is an array with a head index and a number of live entries (kept
  as a count or derived from a tail index). \<open>ring_list buf h n\<close> is the content of such a ring,
  oldest entry first.
\<close>

definition ring_list :: "'a list \<Rightarrow> nat \<Rightarrow> nat \<Rightarrow> 'a list" where
  "ring_list buf h n = map (\<lambda>i. buf ! ((h + i) mod length buf)) [0..<n]"

lemma length_ring_list [simp]: "length (ring_list buf h n) = n"
  by (simp add: ring_list_def)

lemma ring_list_0 [simp]: "ring_list buf h 0 = []"
  by (simp add: ring_list_def)

lemma nth_ring_list [simp]:
  "i < n \<Longrightarrow> ring_list buf h n ! i = buf ! ((h + i) mod length buf)"
  by (simp add: ring_list_def)

lemma ring_list_eqI:
  "length xs = n \<Longrightarrow> (\<And>i. i < n \<Longrightarrow> buf ! ((h + i) mod length buf) = xs ! i)
    \<Longrightarrow> ring_list buf h n = xs"
  by (rule nth_equalityI) simp_all

lemma set_ring_list: "set (ring_list buf h n) = (\<lambda>i. buf ! ((h + i) mod length buf)) ` {..<n}"
  by (auto simp: ring_list_def)

text \<open>Two different offsets inside the window never meet.\<close>

lemma ring_index_inj:
  fixes h i j n :: nat
  assumes "i < n" "j < n"
  shows "(h + i) mod n = (h + j) mod n \<longleftrightarrow> i = j"
proof
  assume eq: "(h + i) mod n = (h + j) mod n"
  show "i = j"
  proof (cases "i \<le> j")
    case True
    with eq have "n dvd (h + j) - (h + i)"
      by (subst mod_eq_dvd_iff_nat [symmetric]) auto
    with assms True show ?thesis
      by (cases "i = j") (auto dest!: dvd_imp_le)
  next
    case False
    with eq have "n dvd (h + i) - (h + j)"
      by (subst mod_eq_dvd_iff_nat [symmetric]) auto
    with assms False show ?thesis
      by (auto dest!: dvd_imp_le)
  qed
qed simp

lemma ring_list_Suc:
  "ring_list buf h (Suc n) = ring_list buf h n @ [buf ! ((h + n) mod length buf)]"
  by (simp add: ring_list_def)

lemma ring_list_Cons:
  assumes "h < length buf"
  shows "ring_list buf h (Suc n) = buf ! h # ring_list buf (Suc h mod length buf) n"
  using assms by (intro nth_equalityI) (auto simp: nth_Cons mod_simps split: nat.split)

lemma ring_list_push:
  assumes "n < length buf"
  shows "ring_list (buf[(h + n) mod length buf := x]) h (Suc n) = ring_list buf h n @ [x]"
proof (rule ring_list_eqI)
  have pos: "(h + n) mod length buf < length buf"
    using assms by (intro mod_less_divisor) linarith
  fix i assume "i < Suc n"
  then show "buf[(h + n) mod length buf := x] !
      ((h + i) mod length (buf[(h + n) mod length buf := x])) = (ring_list buf h n @ [x]) ! i"
    using assms ring_index_inj [of i "length buf" n h]
      pos by (cases "i = n") (auto simp: nth_append nth_list_update)
qed simp

lemma ring_list_update_other:
  assumes "n \<le> k" "k < length buf"
  shows "ring_list (buf[(h + k) mod length buf := x]) h n = ring_list buf h n"
  using assms by (intro ring_list_eqI) (auto simp: nth_list_update ring_index_inj)

lemma ring_list_pop_clear:
  assumes "h < length buf" "n < length buf"
  shows "ring_list (buf[h := x]) (Suc h mod length buf) n
    = ring_list buf (Suc h mod length buf) n"
proof -
  obtain l where l: "length buf = Suc l"
    using assms by (cases "length buf") auto
  have "(Suc h mod length buf + (length buf - 1)) mod length buf = h"
  proof (cases "h = l")
    case False
    have "Suc (h + l) mod Suc l = h"
      using assms l by (metis add_Suc_right mod_add_self2 mod_less)
    with False assms l show ?thesis by simp
  qed (use l in simp)
  then show ?thesis
    using ring_list_update_other [of n "length buf - 1" buf "Suc h mod length buf" x] assms
    by simp
qed

lemma ring_list_cong:
  "length buf = length buf' \<Longrightarrow>
   (\<And>i. i < n \<Longrightarrow> buf ! ((h + i) mod length buf) = buf' ! ((h + i) mod length buf))
   \<Longrightarrow> ring_list buf h n = ring_list buf' h n"
  by (simp add: ring_list_def)


text \<open>
  Closing the gap at offset \<open>i\<close> by moving the later entries one place towards the head, as the
  loops that remove an entry from the middle of a queue do.
\<close>

definition ring_shift :: "'a list \<Rightarrow> nat \<Rightarrow> nat \<Rightarrow> nat \<Rightarrow> 'a list" where
  "ring_shift buf h i n = foldl (\<lambda>xs j. xs[(h + j) mod length buf :=
     xs ! ((h + j + 1) mod length buf)]) buf [i..<n - 1]"

lemma ring_shift_nth:
  fixes h i k m :: nat
  assumes "k < length buf" "m < length buf"
  defines "b \<equiv> foldl (\<lambda>xs j. xs[(h + j) mod length buf :=
     xs ! ((h + j + 1) mod length buf)]) buf [i..<k]"
  shows "length b = length buf \<and> b ! ((h + m) mod length buf) =
     buf ! ((h + (if i \<le> m \<and> m < k then m + 1 else m)) mod length buf)"
  using assms(1,2) unfolding b_def
proof (induction k arbitrary: m)
  case 0
  then show ?case by simp
next
  case (Suc k)
  let ?f = "\<lambda>xs j. xs[(h + j) mod length buf := xs ! ((h + j + 1) mod length buf)]"
  have pos: "(h + k) mod length buf < length buf"
    using Suc.prems by (intro mod_less_divisor) linarith
  show ?case
  proof (cases "i \<le> k")
    case True
    have step: "length (foldl ?f buf [i..<k]) = length buf"
      "foldl ?f buf [i..<k] ! ((h + m) mod length buf) =
        buf ! ((h + (if i \<le> m \<and> m < k then m + 1 else m)) mod length buf)"
      "foldl ?f buf [i..<k] ! ((h + (k + 1)) mod length buf) = buf ! ((h + (k + 1)) mod length buf)"
      using Suc.IH [of m] Suc.IH [of "k + 1"] Suc.prems by simp_all
    show ?thesis
    proof (cases "m = k")
      case True
      then show ?thesis using step pos \<open>i \<le> k\<close> by (simp add: add.assoc)
    next
      case False
      with ring_index_inj [of k "length buf" m h] Suc.prems step pos \<open>i \<le> k\<close>
      show ?thesis by (auto simp: nth_list_update)
    qed
  next
    case False
    with Suc.prems show ?thesis by auto
  qed
qed

lemma ring_list_shift:
  assumes "n \<le> length buf" "i < n"
  shows "length (ring_shift buf h i n) = length buf"
    and "ring_list (ring_shift buf h i n) h (n - 1) =
      take i (ring_list buf h n) @ drop (Suc i) (ring_list buf h n)"
proof -
  have k: "n - 1 < length buf" using assms by linarith
  note nth = ring_shift_nth [OF k, of _ h i, folded ring_shift_def]
  show len: "length (ring_shift buf h i n) = length buf"
    using nth [of 0] assms by linarith
  show "ring_list (ring_shift buf h i n) h (n - 1) =
      take i (ring_list buf h n) @ drop (Suc i) (ring_list buf h n)"
  proof (rule ring_list_eqI)
    fix m assume "m < n - 1"
    then show "ring_shift buf h i n ! ((h + m) mod length (ring_shift buf h i n)) =
        (take i (ring_list buf h n) @ drop (Suc i) (ring_list buf h n)) ! m"
      using nth [of m] assms len by (auto simp: nth_append min_def)
  qed (use assms in auto)
qed

text \<open>Stepping an index back by one place.\<close>

lemma ring_prev:
  fixes a m :: nat
  assumes "0 < a" "0 < m"
  shows "(a mod m + m - 1) mod m = (a - 1) mod m"
proof -
  have "(a mod m + m - 1) mod m = (a mod m + (m - 1)) mod m"
    using assms by simp
  also have "\<dots> = (a + (m - 1)) mod m"
    by (rule mod_add_left_eq)
  also have "a + (m - 1) = (a - 1) + m"
    using assms by simp
  finally show ?thesis by simp
qed

text \<open>Removing the first occurrence of an entry, in terms of its index.\<close>

lemma remove1_conv_index:
  assumes "i < length xs" "xs ! i = x" "\<And>j. j < i \<Longrightarrow> xs ! j \<noteq> x"
  shows "remove1 x xs = take i xs @ drop (Suc i) xs"
  using assms
proof (induction xs arbitrary: i)
  case (Cons a xs)
  show ?case
  proof (cases i)
    case (Suc j)
    have "a \<noteq> x" using Cons.prems(3) [of 0] Suc by simp
    moreover have "remove1 x xs = take j xs @ drop (Suc j) xs"
      using Cons.prems(1,2) Cons.prems(3) [of "Suc _"] Suc by (intro Cons.IH) auto
    ultimately show ?thesis using Suc by simp
  qed (use Cons.prems in auto)
qed simp

section \<open>The interface of a bounded FIFO queue\<close>

text \<open>
  A script of queue operations, run on an implementation (\<open>run_qops\<close>) and on a plain list of
  bounded length (\<open>spec_qops\<close>, \<open>None\<close> when a push would exceed the capacity). The outputs are
  what the pops return.
\<close>

datatype 'a qop = QPush 'a | QPop

fun run_qops :: "('a \<Rightarrow> 'q \<Rightarrow> 'q res) \<Rightarrow> ('q \<Rightarrow> 'a option \<times> 'q) \<Rightarrow> 'a qop list \<Rightarrow> 'q
    \<Rightarrow> ('a option list \<times> 'q) res" where
  "run_qops push pop [] q = Inr ([], q)"
| "run_qops push pop (QPush x # ops) q = bnd (push x q) (run_qops push pop ops)"
| "run_qops push pop (QPop # ops) q =
     (let (r, q') = pop q
      in bnd (run_qops push pop ops q') (\<lambda>(outs, q''). Inr (r # outs, q'')))"

fun spec_qops :: "nat \<Rightarrow> 'a qop list \<Rightarrow> 'a list \<Rightarrow> ('a option list \<times> 'a list) option" where
  "spec_qops cap [] xs = Some ([], xs)"
| "spec_qops cap (QPush x # ops) xs =
     (if length xs < cap then spec_qops cap ops (xs @ [x]) else None)"
| "spec_qops cap (QPop # ops) [] =
     map_option (\<lambda>(outs, ys). (None # outs, ys)) (spec_qops cap ops [])"
| "spec_qops cap (QPop # ops) (x # xs) =
     map_option (\<lambda>(outs, ys). (Some x # outs, ys)) (spec_qops cap ops xs)"

locale bounded_fifo =
  fixes wf :: "'q \<Rightarrow> bool"
    and contents :: "'q \<Rightarrow> 'a list"
    and cap :: nat
    and push :: "'a \<Rightarrow> 'q \<Rightarrow> 'q res"
    and pop :: "'q \<Rightarrow> 'a option \<times> 'q"
  assumes contents_le: "wf q \<Longrightarrow> length (contents q) \<le> cap"
    and push_room: "wf q \<Longrightarrow> length (contents q) < cap \<Longrightarrow>
      \<exists>q'. push x q = Inr q' \<and> wf q' \<and> contents q' = contents q @ [x]"
    and pop_Nil: "wf q \<Longrightarrow> contents q = [] \<Longrightarrow> pop q = (None, q)"
    and pop_Cons: "wf q \<Longrightarrow> contents q = x # xs \<Longrightarrow>
      \<exists>q'. pop q = (Some x, q') \<and> wf q' \<and> contents q' = xs"
begin

lemma script_refines:
  assumes "wf q" "spec_qops cap ops (contents q) = Some (outs, ys)"
  shows "\<exists>q'. run_qops push pop ops q = Inr (outs, q') \<and> wf q' \<and> contents q' = ys"
  using assms
proof (induction ops arbitrary: q outs)
  case Nil
  then show ?case by simp
next
  case (Cons a ops)
  show ?case
  proof (cases a)
    case (QPush x)
    with Cons.prems have room: "length (contents q) < cap"
      by (simp split: if_splits)
    from push_room [OF Cons.prems(1) this] obtain q1 where
      q1: "push x q = Inr q1" "wf q1" "contents q1 = contents q @ [x]" by blast
    with Cons.IH [of q1 outs] Cons.prems QPush room show ?thesis by simp
  next
    case QPop
    show ?thesis
    proof (cases "contents q")
      case Nil
      with Cons.prems QPop obtain outs' where
        "spec_qops cap ops (contents q) = Some (outs', ys)" "outs = None # outs'" by auto
      with Cons.IH [OF Cons.prems(1) this(1)] pop_Nil [OF Cons.prems(1) Nil] QPop
      show ?thesis by auto
    next
      case (Cons x xs)
      from pop_Cons [OF Cons.prems(1) this] obtain q1 where
        q1: "pop q = (Some x, q1)" "wf q1" "contents q1 = xs" by blast
      from Cons.prems(2) QPop Cons obtain outs' where
        "spec_qops cap ops (contents q1) = Some (outs', ys)" "outs = Some x # outs'"
        using q1 by auto
      with Cons.IH [OF q1(2) this(1)] q1 QPop show ?thesis by auto
    qed
  qed
qed

end

text \<open>
  A work queue is drained by a loop that pops an entry and runs it. When running an entry
  leaves the queue alone, the loop runs exactly the entries that were queued, oldest first.
\<close>

fun run_seq :: "('a \<Rightarrow> 'q \<Rightarrow> 'q res) \<Rightarrow> 'a list \<Rightarrow> 'q \<Rightarrow> 'q res" where
  "run_seq run [] q = Inr q"
| "run_seq run (x # xs) q = bnd (run x q) (run_seq run xs)"

locale work_queue = bounded_fifo wf contents cap push pop
  for wf :: "'q \<Rightarrow> bool" and contents :: "'q \<Rightarrow> 'a list" and cap push pop +
  fixes run :: "'a \<Rightarrow> 'q \<Rightarrow> 'q res"
    and drain :: "'q \<Rightarrow> 'q res"
  assumes run_keeps: "wf q \<Longrightarrow> run x q = Inr q' \<Longrightarrow> wf q' \<and> contents q' = contents q"
    and drain_loop: "wf q \<Longrightarrow> drain q =
      (case pop q of (None, q') \<Rightarrow> Inr q' | (Some x, q') \<Rightarrow> bnd (run x q') drain)"
begin

lemma drain_run_seq:
  "wf q \<Longrightarrow> contents q = xs \<Longrightarrow> drain q = run_seq (\<lambda>x s. run x (snd (pop s))) xs q"
proof (induction xs arbitrary: q)
  case Nil
  then show ?case by (simp add: drain_loop pop_Nil)
next
  case (Cons x xs)
  from pop_Cons [OF Cons.prems] obtain q1 where
    q1: "pop q = (Some x, q1)" "wf q1" "contents q1 = xs" by blast
  have "bnd (run x q1) drain = bnd (run x q1) (run_seq (\<lambda>x s. run x (snd (pop s))) xs)"
  proof (cases "run x q1")
    case (Inr q2)
    with run_keeps [OF q1(2) this] q1 Cons.IH show ?thesis by simp
  qed simp
  with q1 Cons.prems(1) show ?case by (simp add: drain_loop)
qed

lemma drain_empties:
  "wf q \<Longrightarrow> drain q = Inr q' \<Longrightarrow> wf q' \<and> contents q' = []"
proof (induction "contents q" arbitrary: q)
  case Nil
  then show ?case by (simp add: drain_loop pop_Nil)
next
  case (Cons x xs)
  from pop_Cons [OF Cons.prems(1) Cons.hyps(2) [symmetric]] obtain q1 where
    q1: "pop q = (Some x, q1)" "wf q1" "contents q1 = xs" by blast
  with Cons.prems obtain q2 where q2: "run x q1 = Inr q2" "drain q2 = Inr q'"
    by (auto simp: drain_loop res_simps)
  from run_keeps [OF q1(2) q2(1)] q1 q2 Cons.hyps(1) [of q2] show ?case by simp
qed

end


section \<open>The interface of a pool that is searched in order\<close>

text \<open>
  A loop that takes the best entry of a pool again and again until it finds one it need not
  skip. \<open>flat\<close> is the content of the pool in the order in which entries are taken. The loop may
  not return on every state, so it is an option; on well-formed states it returns the first
  entry that is not skipped, or the fallback.
\<close>

locale pick_loop =
  fixes wf :: "'s \<Rightarrow> bool"
    and flat :: "'s \<Rightarrow> 't list"
    and more :: "'s \<Rightarrow> bool"
    and take_best :: "'s \<Rightarrow> ('t option \<times> 's) res"
    and skip :: "'t \<Rightarrow> 's \<Rightarrow> bool"
    and fallback :: "'s \<Rightarrow> 't option"
    and pick :: "'s \<Rightarrow> ('t option \<times> 's) res option"
  assumes more_iff: "wf s \<Longrightarrow> more s \<longleftrightarrow> flat s \<noteq> []"
    and take_head: "wf s \<Longrightarrow> flat s = t # ts \<Longrightarrow>
      \<exists>s'. take_best s = Inr (Some t, s') \<and> wf s' \<and> flat s' = ts
        \<and> (\<forall>u. skip u s' = skip u s) \<and> fallback s' = fallback s"
    and pick_end: "wf s \<Longrightarrow> \<not> more s \<Longrightarrow> pick s = Some (Inr (fallback s, s))"
    and pick_turn: "wf s \<Longrightarrow> more s \<Longrightarrow> take_best s = Inr (Some t, s') \<Longrightarrow>
      pick s = (if skip t s' then pick s' else Some (Inr (Some t, s')))"
begin

lemma pick_first:
  "wf s \<Longrightarrow> flat s = xs \<Longrightarrow>
   \<exists>s'. pick s = Some (Inr (case dropWhile (\<lambda>t. skip t s) xs of
            [] \<Rightarrow> fallback s | t # _ \<Rightarrow> Some t, s'))
      \<and> wf s' \<and> flat s' = tl (dropWhile (\<lambda>t. skip t s) xs)"
proof (induction xs arbitrary: s)
  case Nil
  then show ?case by (simp add: pick_end more_iff)
next
  case (Cons t ts)
  from take_head [OF Cons.prems] obtain s1 where
    s1: "take_best s = Inr (Some t, s1)" "wf s1" "flat s1 = ts"
      "\<And>u. skip u s1 = skip u s" "fallback s1 = fallback s" by blast
  have "more s" using Cons.prems by (simp add: more_iff)
  note turn = pick_turn [OF Cons.prems(1) this s1(1)]
  show ?case
    using Cons.IH [OF s1(2,3)] s1 turn
    by (cases "skip t s") (simp_all cong: list.case_cong)
qed

end

end
