(* ===== verification/BK_State.thy ===== *)
theory BK_State
  imports Prelude
begin

text \<open>
  Data and global state of the kernel simulator \<^verbatim>\<open>BLUE_KERNEL/BlueKernel_lvl3.c\<close>: its enums and
  structs as datatypes and records, its global variables as one record \<open>kernel\<close>.
  A \<^verbatim>\<open>THREAD*\<close> is an index into \<open>g_thread_table\<close>, a \<^verbatim>\<open>PROCESS*\<close> an index into \<open>process_table\<close>,
  a \<^verbatim>\<open>MUTEX*\<close> an index into the allocated mutexes (\<open>None\<close> once freed), an \<^verbatim>\<open>EVENT*\<close> an index into
  the event variables; pointers that may be null are options. Function pointers are
  datatypes with one constructor per function whose address the program takes. Counters and
  priorities are unbounded: no run of fewer than \<open>2^31\<close> steps can overflow an \<^verbatim>\<open>int\<close>.
\<close>

section \<open>Limits\<close>

definition MAX_QUEUE :: nat where "MAX_QUEUE = 16"
definition MAX_NESTING :: nat where "MAX_NESTING = 8"
definition MAX_THREADS :: nat where "MAX_THREADS = 16"
definition MAX_PROCESSES :: nat where "MAX_PROCESSES = 10"
definition MAX_HANDLES :: nat where "MAX_HANDLES = 32"
definition MAX_PRIORITY :: nat where "MAX_PRIORITY = 32"

lemmas BK_limits [simp] = MAX_QUEUE_def MAX_NESTING_def MAX_THREADS_def MAX_PROCESSES_def
  MAX_HANDLES_def MAX_PRIORITY_def

section \<open>Interrupt request levels\<close>

datatype IRQL = PASSIVE_LEVEL | APC_LEVEL | DISPATCH_LEVEL | DIRQL | KEYBOARD | MACHINE_CHECK

text \<open>The enum's numbering; C compares levels as these numbers.\<close>

fun irql_num :: "IRQL \<Rightarrow> nat" where
  "irql_num PASSIVE_LEVEL = 0"
| "irql_num APC_LEVEL = 1"
| "irql_num DISPATCH_LEVEL = 2"
| "irql_num DIRQL = 3"
| "irql_num KEYBOARD = 4"
| "irql_num MACHINE_CHECK = 5"

lemma irql_num_inj: "irql_num a = irql_num b \<Longrightarrow> a = b"
  by (cases a; cases b) simp_all

lemma irql_num_le: "irql_num a \<le> 5"
  by (cases a) simp_all

instantiation IRQL :: linorder
begin

definition less_eq_IRQL :: "IRQL \<Rightarrow> IRQL \<Rightarrow> bool" where
  "less_eq_IRQL a b \<longleftrightarrow> irql_num a \<le> irql_num b"

definition less_IRQL :: "IRQL \<Rightarrow> IRQL \<Rightarrow> bool" where
  "less_IRQL a b \<longleftrightarrow> irql_num a < irql_num b"

instance
  by standard (auto simp: less_eq_IRQL_def less_IRQL_def dest: irql_num_inj)

end

lemmas IRQL_order = less_eq_IRQL_def less_IRQL_def

lemma PASSIVE_LEVEL_least [simp]: "PASSIVE_LEVEL \<le> l"
  by (simp add: IRQL_order)

section \<open>Function pointers\<close>

datatype DPC_ROUTINE = DeviceDpc_fn | HighDpc_fn | TimerDPC_fn | IoCompletionDpc_fn

datatype ISR_ROUTINE = DeviceIsr_fn | HighIsr_fn | LowIsr_fn | TimerIsr_fn

datatype ThreadRoutine =
  IdleThread_fn | Thread_A_fn | Thread_B_fn | Thread_L_fn | Thread_M_fn | Thread_H_fn

record INTERRUPT =
  irql :: IRQL
  isr :: ISR_ROUTINE

section \<open>Kernel objects, threads and processes\<close>

definition OBJECTTYPE_MUTEX :: nat where "OBJECTTYPE_MUTEX = 1"
definition OBJECTTYPE_EVENT :: nat where "OBJECTTYPE_EVENT = 2"

record KOBJECT =
  ob_type :: nat
  ref_count :: int

text \<open>A \<^verbatim>\<open>KOBJECT*\<close> is the header of a mutex or of an event.\<close>

datatype KOBJECT_PTR = MutexObj nat | EventObj nat

datatype THREAD_STATE = THREAD_READY | THREAD_RUNNING | THREAD_BLOCKED | THREAD_TERMINATED

record THREAD =
  t_id :: int
  t_pc :: int
  t_priority :: int
  t_base_priority :: int
  t_quantum :: int
  t_state :: THREAD_STATE
  t_tRoutine :: "ThreadRoutine option"
  t_owner :: "nat option"
  t_owned_mutex :: "nat option"
  t_waiting_mutex :: "nat option"

record PROCESS =
  p_pid :: int
  p_exist :: bool
  p_threads :: "nat option list"
  p_thread_count :: nat
  p_handle_table :: "KOBJECT_PTR option list"

record READY_QUEUE =
  rq_threads :: "nat option list"
  rq_head :: nat
  rq_tail :: nat
  rq_count :: nat

record WAIT_QUEUE =
  wq_threads :: "nat option list"
  wq_count :: nat

record MUTEX =
  m_header :: KOBJECT
  m_locked :: bool
  m_owner :: "nat option"
  m_waiters :: WAIT_QUEUE

record EVENT =
  e_header :: KOBJECT
  e_signaled :: bool
  e_waiters :: WAIT_QUEUE

section \<open>The global variables\<close>

text \<open>
  \<open>current_irql\<close> is \<^verbatim>\<open>cpu.current_irql\<close>; \<open>irql_top\<close> starts at \<open>-1\<close>. \<open>g_mutexes\<close> holds the mutexes
  allocated by \<^verbatim>\<open>CreateMutexObject\<close>, \<open>g_events\<close> the event variables (one, \<^verbatim>\<open>io_event\<close>).
\<close>

record kernel =
  g_priorityTable :: "32 word list"
  irql_stack :: "IRQL list"
  irql_top :: int
  current_irql :: IRQL
  dpc_queue :: "DPC_ROUTINE option list"
  dpc_head :: nat
  dpc_tail :: nat
  dpc_count :: nat
  g_thread_table :: "THREAD list"
  g_thread_count :: nat
  current_thread :: "nat option"
  idle_thread :: "nat option"
  process_table :: "PROCESS list"
  process_count :: nat
  g_ready_queues :: "READY_QUEUE list"
  g_ready_bitmap :: "32 word"
  reschedule_requested :: bool
  g_mutexes :: "MUTEX option list"
  g_events :: "EVENT list"
  g_hMutex1 :: int
  g_hMutex2 :: int

definition io_event :: nat where "io_event = 0"

text \<open>Zero-initialised statics.\<close>

definition zero_thread :: THREAD where
  "zero_thread = \<lparr>t_id = 0, t_pc = 0, t_priority = 0, t_base_priority = 0, t_quantum = 0,
     t_state = THREAD_READY, t_tRoutine = None, t_owner = None, t_owned_mutex = None,
     t_waiting_mutex = None\<rparr>"

definition zero_process :: PROCESS where
  "zero_process = \<lparr>p_pid = 0, p_exist = False, p_threads = replicate MAX_THREADS None,
     p_thread_count = 0, p_handle_table = replicate MAX_HANDLES None\<rparr>"

definition zero_ready_queue :: READY_QUEUE where
  "zero_ready_queue =
     \<lparr>rq_threads = replicate MAX_THREADS None, rq_head = 0, rq_tail = 0, rq_count = 0\<rparr>"

definition zero_wait_queue :: WAIT_QUEUE where
  "zero_wait_queue = \<lparr>wq_threads = replicate MAX_THREADS None, wq_count = 0\<rparr>"

definition zero_event :: EVENT where
  "zero_event = \<lparr>e_header = \<lparr>ob_type = 0, ref_count = 0\<rparr>, e_signaled = False,
     e_waiters = zero_wait_queue\<rparr>"

definition initial_kernel :: kernel where
  "initial_kernel =
    \<lparr>g_priorityTable = replicate MAX_PRIORITY 0,
     irql_stack = replicate MAX_NESTING PASSIVE_LEVEL, irql_top = -1,
     current_irql = PASSIVE_LEVEL,
     dpc_queue = replicate MAX_QUEUE None, dpc_head = 0, dpc_tail = 0, dpc_count = 0,
     g_thread_table = replicate MAX_THREADS zero_thread, g_thread_count = 0,
     current_thread = None, idle_thread = None,
     process_table = replicate MAX_PROCESSES zero_process, process_count = 0,
     g_ready_queues = replicate MAX_PRIORITY zero_ready_queue, g_ready_bitmap = 0,
     reschedule_requested = False, g_mutexes = [], g_events = [zero_event],
     g_hMutex1 = 0, g_hMutex2 = 0\<rparr>"

section \<open>Access through pointers\<close>

definition get_thread :: "nat \<Rightarrow> kernel \<Rightarrow> THREAD res" where
  "get_thread t s = aread (g_thread_table s) t"

definition upd_thread :: "nat \<Rightarrow> (THREAD \<Rightarrow> THREAD) \<Rightarrow> kernel \<Rightarrow> kernel" where
  "upd_thread t f s =
     s\<lparr>g_thread_table := (g_thread_table s)[t := f (g_thread_table s ! t)]\<rparr>"

text \<open>A mutex that was never allocated, or has been freed, cannot be read.\<close>

definition get_mutex :: "nat \<Rightarrow> kernel \<Rightarrow> MUTEX res" where
  "get_mutex m s = bnd (aread (g_mutexes s) m)
     (\<lambda>c. case c of None \<Rightarrow> Inl (Undefined ''use after free'') | Some mx \<Rightarrow> Inr mx)"

definition upd_mutex :: "nat \<Rightarrow> (MUTEX \<Rightarrow> MUTEX) \<Rightarrow> kernel \<Rightarrow> kernel" where
  "upd_mutex m f s = s\<lparr>g_mutexes := (g_mutexes s)[m := map_option f (g_mutexes s ! m)]\<rparr>"

definition get_event :: "nat \<Rightarrow> kernel \<Rightarrow> EVENT res" where
  "get_event e s = aread (g_events s) e"

definition upd_event :: "nat \<Rightarrow> (EVENT \<Rightarrow> EVENT) \<Rightarrow> kernel \<Rightarrow> kernel" where
  "upd_event e f s = s\<lparr>g_events := (g_events s)[e := f (g_events s ! e)]\<rparr>"

definition get_process :: "nat \<Rightarrow> kernel \<Rightarrow> PROCESS res" where
  "get_process p s = aread (process_table s) p"

definition upd_process :: "nat \<Rightarrow> (PROCESS \<Rightarrow> PROCESS) \<Rightarrow> kernel \<Rightarrow> kernel" where
  "upd_process p f s = s\<lparr>process_table := (process_table s)[p := f (process_table s ! p)]\<rparr>"

lemma get_thread_eq_Inr [res_simps]:
  "get_thread t s = Inr th \<longleftrightarrow> t < length (g_thread_table s) \<and> g_thread_table s ! t = th"
  by (simp add: get_thread_def res_simps)

lemma get_mutex_eq_Inr [res_simps]:
  "get_mutex m s = Inr mx \<longleftrightarrow> m < length (g_mutexes s) \<and> g_mutexes s ! m = Some mx"
  by (auto simp: get_mutex_def res_simps split: option.splits)

lemma get_event_eq_Inr [res_simps]:
  "get_event e s = Inr ev \<longleftrightarrow> e < length (g_events s) \<and> g_events s ! e = ev"
  by (simp add: get_event_def res_simps)

lemma get_process_eq_Inr [res_simps]:
  "get_process p s = Inr pr \<longleftrightarrow> p < length (process_table s) \<and> process_table s ! p = pr"
  by (simp add: get_process_def res_simps)

end
