(* ===== verification/BK_Irql.thy ===== *)
theory BK_Irql
  imports BK_State
begin

text \<open>
  Interrupt levels, the DPC queue and simulated memory access of
  \<^verbatim>\<open>BLUE_KERNEL/BlueKernel_lvl3.c\<close>: \<open>KernelWait\<close>, \<open>AccessMemory\<close>, \<open>QueueDpc\<close> and \<open>PushIrql\<close>.
  \<open>PopIrql\<close> and \<open>DrainDpcQueue\<close> run DPC routines and follow in \<open>BK_Interrupt\<close>; the part of the
  drain loop that takes the oldest entry is \<open>TakeDpc\<close> here. The lemmas give the level stack
  (\<open>irql_held\<close>) and the DPC ring (\<open>dpc_pending\<close>) as lists, the invariants \<open>irql_wf\<close> and
  \<open>dpc_wf\<close>, and the interpretation of the FIFO interface by the DPC queue.
\<close>

section \<open>Operations\<close>

definition KernelWait :: "kernel \<Rightarrow> kernel res" where
  "KernelWait s =
     (if current_irql s > PASSIVE_LEVEL
      then Inl (Bugcheck ''Wait attempted above PASSIVE_LEVEL'') else Inr s)"

definition IsPageable :: "nat \<Rightarrow> bool" where
  "IsPageable address = (address mod 2 \<noteq> 0)"

definition AccessMemory :: "nat \<Rightarrow> kernel \<Rightarrow> kernel res" where
  "AccessMemory address s =
     (if IsPageable address \<and> current_irql s > APC_LEVEL
      then Inl (Bugcheck ''Page fault at elevated IRQL'') else Inr s)"

definition QueueDpc :: "DPC_ROUTINE \<Rightarrow> kernel \<Rightarrow> kernel res" where
  "QueueDpc routine s =
     (if dpc_count s \<ge> MAX_QUEUE then Inl (Bugcheck ''DPC queue overflow'')
      else Inr (s\<lparr>dpc_queue := (dpc_queue s)[dpc_tail s := Some routine],
                  dpc_tail := (dpc_tail s + 1) mod MAX_QUEUE,
                  dpc_count := dpc_count s + 1\<rparr>))"

text \<open>One turn of the drain loop up to the call: guard, read, head and count update.\<close>

definition TakeDpc :: "kernel \<Rightarrow> DPC_ROUTINE option \<times> kernel" where
  "TakeDpc s =
     (if dpc_count s > 0
      then (dpc_queue s ! dpc_head s,
            s\<lparr>dpc_head := (dpc_head s + 1) mod MAX_QUEUE, dpc_count := dpc_count s - 1\<rparr>)
      else (None, s))"

definition PushIrql :: "IRQL \<Rightarrow> kernel \<Rightarrow> kernel res" where
  "PushIrql new_level s =
     (if irql_top s \<ge> int MAX_NESTING - 1 then Inl (Bugcheck ''IRQL stack overflow'')
      else if irql_top s \<ge> 0 \<and> new_level \<le> irql_stack s ! nat (irql_top s)
      then Inl (Bugcheck ''Invalid IRQL raise (not higher)'')
      else Inr (s\<lparr>irql_stack := (irql_stack s)[nat (irql_top s + 1) := new_level],
                  irql_top := irql_top s + 1,
                  current_irql := new_level\<rparr>))"

section \<open>The level stack\<close>

definition irql_held :: "kernel \<Rightarrow> IRQL list" where
  "irql_held s = take (nat (irql_top s + 1)) (irql_stack s)"

definition irql_wf :: "kernel \<Rightarrow> bool" where
  "irql_wf s \<longleftrightarrow> length (irql_stack s) = MAX_NESTING \<and> -1 \<le> irql_top s
     \<and> irql_top s < int MAX_NESTING \<and> sorted_wrt (<) (irql_held s)
     \<and> current_irql s = (if irql_held s = [] then PASSIVE_LEVEL else last (irql_held s))"

lemma irql_held_length: "irql_wf s \<Longrightarrow> length (irql_held s) = nat (irql_top s + 1)"
  by (auto simp: irql_wf_def irql_held_def)

lemma irql_held_empty: "irql_wf s \<Longrightarrow> irql_held s = [] \<longleftrightarrow> irql_top s < 0"
  by (auto simp: irql_wf_def irql_held_def)

lemma irql_held_last:
  assumes "irql_wf s" "0 \<le> irql_top s"
  shows "last (irql_held s) = irql_stack s ! nat (irql_top s)"
    and "irql_held s \<noteq> []"
proof -
  from assms have n: "irql_held s \<noteq> []" "nat (irql_top s + 1) = Suc (nat (irql_top s))"
    using irql_held_empty by (auto simp: nat_add_distrib)
  then show "irql_held s \<noteq> []" "last (irql_held s) = irql_stack s ! nat (irql_top s)"
    using irql_held_length [OF assms(1)] by (auto simp: last_conv_nth irql_held_def)
qed

lemma PushIrql_held:
  assumes wf: "irql_wf s" and ok: "PushIrql l s = Inr s'"
  shows "irql_held s' = irql_held s @ [l]" "current_irql s' = l" "irql_wf s'"
proof -
  from ok have top: "irql_top s < int MAX_NESTING - 1" "irql_top s' = irql_top s + 1"
      "irql_stack s' = (irql_stack s)[nat (irql_top s + 1) := l]" "current_irql s' = l"
      "0 \<le> irql_top s \<Longrightarrow> irql_stack s ! nat (irql_top s) < l"
    by (auto simp: PushIrql_def split: if_splits)
  let ?n = "nat (irql_top s + 1)"
  have n: "nat (irql_top s' + 1) = Suc ?n" "?n < length (irql_stack s)"
    using wf top by (auto simp: irql_wf_def)
  show held: "irql_held s' = irql_held s @ [l]"
    using n top by (simp add: irql_held_def take_Suc_conv_app_nth)
  show "current_irql s' = l" by fact
  have "x < l" if "x \<in> set (irql_held s)" for x
  proof -
    from that have "0 \<le> irql_top s"
      using irql_held_empty [OF wf] by (auto simp: not_less [symmetric])
    then have "last (irql_held s) < l"
      using top irql_held_last [OF wf] by simp
    moreover have "x \<le> last (irql_held s)"
      using wf that strict_sorted_le_last by (auto simp: irql_wf_def)
    ultimately show ?thesis by simp
  qed
  then show "irql_wf s'"
    using wf top held by (auto simp: irql_wf_def sorted_wrt_append)
qed


text \<open>When a raise is accepted, and which bugcheck it ends in otherwise.\<close>

lemma PushIrql_accepts:
  assumes "irql_wf s"
  shows "(\<exists>s'. PushIrql l s = Inr s') \<longleftrightarrow>
    length (irql_held s) < MAX_NESTING \<and> (irql_held s \<noteq> [] \<longrightarrow> last (irql_held s) < l)"
  using assms irql_held_length [OF assms] irql_held_empty [OF assms] irql_held_last [OF assms]
  by (auto simp: PushIrql_def irql_wf_def split: if_splits)

lemma PushIrql_frame:
  "PushIrql l s = Inr s' \<Longrightarrow>
   s' = s\<lparr>irql_stack := irql_stack s', irql_top := irql_top s', current_irql := current_irql s'\<rparr>"
  by (auto simp: PushIrql_def split: if_splits)

section \<open>The DPC ring\<close>

definition dpc_pending :: "kernel \<Rightarrow> DPC_ROUTINE list" where
  "dpc_pending s = map the (ring_list (dpc_queue s) (dpc_head s) (dpc_count s))"

definition dpc_wf :: "kernel \<Rightarrow> bool" where
  "dpc_wf s \<longleftrightarrow> length (dpc_queue s) = MAX_QUEUE \<and> dpc_head s < MAX_QUEUE
     \<and> dpc_count s \<le> MAX_QUEUE \<and> dpc_tail s = (dpc_head s + dpc_count s) mod MAX_QUEUE
     \<and> None \<notin> set (ring_list (dpc_queue s) (dpc_head s) (dpc_count s))"

lemma dpc_pending_length [simp]: "length (dpc_pending s) = dpc_count s"
  by (simp add: dpc_pending_def)

lemma QueueDpc_pending:
  assumes "dpc_wf s" "QueueDpc r s = Inr s'"
  shows "dpc_wf s'" "dpc_pending s' = dpc_pending s @ [r]"
proof -
  from assms have c: "dpc_count s < length (dpc_queue s)" "length (dpc_queue s) = MAX_QUEUE"
      "dpc_tail s = (dpc_head s + dpc_count s) mod length (dpc_queue s)"
    by (auto simp: QueueDpc_def dpc_wf_def split: if_splits)
  from assms have s': "s' = s\<lparr>dpc_queue := (dpc_queue s)[dpc_tail s := Some r],
      dpc_tail := (dpc_tail s + 1) mod MAX_QUEUE, dpc_count := dpc_count s + 1\<rparr>"
    by (auto simp: QueueDpc_def split: if_splits)
  note push = ring_list_push [OF c(1), of "dpc_head s" "Some r"]
  show "dpc_wf s'"
    using assms(1) s' push c by (auto simp: dpc_wf_def mod_simps)
  show "dpc_pending s' = dpc_pending s @ [r]"
    using s' push c by (simp add: dpc_pending_def)
qed

lemma TakeDpc_pending:
  assumes "dpc_wf s" "dpc_pending s = r # rs"
  shows "\<exists>s'. TakeDpc s = (Some r, s') \<and> dpc_wf s' \<and> dpc_pending s' = rs"
proof -
  let ?ring = "ring_list (dpc_queue s) (dpc_head s)"
  from assms(2) have "length (dpc_pending s) = Suc (length rs)" by simp
  then have n: "dpc_count s = Suc (length rs)" by simp
  have h: "dpc_head s < length (dpc_queue s)" "length (dpc_queue s) = MAX_QUEUE"
    using assms by (auto simp: dpc_wf_def)
  note cons = ring_list_Cons [OF h(1), of "length rs"]
  have ring: "None \<notin> set (?ring (Suc (length rs)))"
    using assms(1) n by (simp add: dpc_wf_def)
  with assms(2) n cons have "dpc_queue s ! dpc_head s = Some r"
    by (cases "dpc_queue s ! dpc_head s") (auto simp: dpc_pending_def)
  moreover have "dpc_wf (snd (TakeDpc s))" "dpc_pending (snd (TakeDpc s)) = rs"
    using assms n cons h ring
    by (auto simp: TakeDpc_def dpc_wf_def dpc_pending_def mod_simps)
  ultimately show ?thesis
    using n by (simp add: TakeDpc_def)
qed

interpretation dpcq: bounded_fifo dpc_wf dpc_pending MAX_QUEUE QueueDpc TakeDpc
proof
  show "length (dpc_pending s) \<le> MAX_QUEUE" if "dpc_wf s" for s
    using that by (simp add: dpc_wf_def)
  show "\<exists>s'. QueueDpc r s = Inr s' \<and> dpc_wf s' \<and> dpc_pending s' = dpc_pending s @ [r]"
    if "dpc_wf s" "length (dpc_pending s) < MAX_QUEUE" for s r
  proof -
    from that(2) obtain s' where "QueueDpc r s = Inr s'"
      by (auto simp: QueueDpc_def)
    with that(1) show ?thesis using QueueDpc_pending by blast
  qed
  show "TakeDpc s = (None, s)" if "dpc_wf s" "dpc_pending s = []" for s
  proof -
    have "dpc_count s = 0"
      using that(2) by (metis dpc_pending_length list.size(3))
    then show ?thesis by (simp add: TakeDpc_def)
  qed
qed (rule TakeDpc_pending)

lemma QueueDpc_overflow:
  "dpc_count s \<ge> MAX_QUEUE \<Longrightarrow> QueueDpc r s = Inl (Bugcheck ''DPC queue overflow'')"
  by (simp add: QueueDpc_def)

lemma QueueDpc_frame:
  "QueueDpc r s = Inr s' \<Longrightarrow> s' = s\<lparr>dpc_queue := dpc_queue s', dpc_head := dpc_head s',
     dpc_tail := dpc_tail s', dpc_count := dpc_count s'\<rparr>"
  by (auto simp: QueueDpc_def split: if_splits)

lemma TakeDpc_frame:
  "snd (TakeDpc s) = s\<lparr>dpc_head := dpc_head (snd (TakeDpc s)),
     dpc_count := dpc_count (snd (TakeDpc s))\<rparr>"
  by (simp add: TakeDpc_def)

end
