(* ===== verification/BK_Ready.thy ===== *)
theory BK_Ready
  imports BK_Irql
begin

text \<open>
  The ready queues of \<^verbatim>\<open>BLUE_KERNEL/BlueKernel_lvl3.c\<close>: 32 ring buffers, one per priority, and
  the bitmap of the non-empty ones, with the De Bruijn table that finds its highest set bit.
  \<open>ready_list s p\<close> is queue \<open>p\<close> as a list of threads; \<open>ready_wf\<close> is the invariant the code
  states in the comment \<^verbatim>\<open>READY_QUEUE Invariant\<close>, with the shape of the rings. Every operation
  is shown to be its list counterpart and to keep \<open>ready_wf\<close>.
\<close>

section \<open>The highest set bit\<close>

definition DEBURIJN32 :: "32 word" where "DEBURIJN32 = 0x077CB531"

definition BuildDeBurijnTable :: "kernel \<Rightarrow> kernel" where
  "BuildDeBurijnTable s = s\<lparr>g_priorityTable :=
     foldl (\<lambda>tab n. let v = push_bit n 1; idx = drop_bit 27 (v * DEBURIJN32)
                    in tab[unat idx := word_of_nat n])
       (g_priorityTable s) [0..<32]\<rparr>"

definition FindHighestSetBit :: "32 word \<Rightarrow> kernel \<Rightarrow> int" where
  "FindHighestSetBit x s =
     (if x = 0 then -1
      else let x = x OR drop_bit 1 x;
               x = x OR drop_bit 2 x;
               x = x OR drop_bit 4 x;
               x = x OR drop_bit 8 x;
               x = x OR drop_bit 16 x;
               x = drop_bit 1 (x + 1);
               idx = drop_bit 27 (x * DEBURIJN32)
           in uint (g_priorityTable s ! unat idx))"

definition FindHighestPriority :: "kernel \<Rightarrow> int" where
  "FindHighestPriority s =
     (if g_ready_bitmap s = 0 then -1 else FindHighestSetBit (g_ready_bitmap s) s)"

section \<open>The queues\<close>

text \<open>A priority indexes \<^verbatim>\<open>g_ready_queues\<close> unchecked: outside the array the C is undefined.\<close>

definition ready_index :: "int \<Rightarrow> nat res" where
  "ready_index p =
     (if 0 \<le> p \<and> p < int MAX_PRIORITY then Inr (nat p) else Inl (Undefined ''ready queue index''))"

definition ValidateReadyQueueInvariant :: "nat \<Rightarrow> kernel \<Rightarrow> kernel res" where
  "ValidateReadyQueueInvariant p s =
     (let q = g_ready_queues s ! p;
          bit_set = (g_ready_bitmap s AND push_bit p 1 \<noteq> 0)
      in if (rq_count q > 0) \<noteq> bit_set then Inl (Bugcheck ''Ready queue invariant violated'')
         else Inr s)"

definition InitDispatcher :: "kernel \<Rightarrow> kernel" where
  "InitDispatcher s =
     s\<lparr>g_ready_queues :=
         map (\<lambda>q. q\<lparr>rq_count := 0, rq_head := 0, rq_tail := 0\<rparr>) (g_ready_queues s),
       g_ready_bitmap := 0\<rparr>"

definition ReadyThread :: "nat \<Rightarrow> kernel \<Rightarrow> kernel res" where
  "ReadyThread t s = bnd (get_thread t s) (\<lambda>th.
     bnd (ready_index (t_priority th)) (\<lambda>p.
       let q = g_ready_queues s ! p
       in if rq_count q \<ge> MAX_THREADS then Inl (Bugcheck ''Ready queue overflow'')
          else ValidateReadyQueueInvariant p
            (s\<lparr>g_ready_queues := (g_ready_queues s)[p :=
                 q\<lparr>rq_threads := (rq_threads q)[rq_tail q := Some t],
                   rq_tail := (rq_tail q + 1) mod MAX_THREADS,
                   rq_count := rq_count q + 1\<rparr>],
               g_ready_bitmap := g_ready_bitmap s OR push_bit p 1\<rparr>)))"

definition RemoveReadyThread :: "int \<Rightarrow> kernel \<Rightarrow> (nat option \<times> kernel) res" where
  "RemoveReadyThread priority s = bnd (ready_index priority) (\<lambda>p.
     let q = g_ready_queues s ! p
     in if rq_count q = 0 then Inr (None, s)
        else let t = rq_threads q ! rq_head q;
                 q' = q\<lparr>rq_threads := (rq_threads q)[rq_head q := None],
                        rq_head := (rq_head q + 1) mod MAX_THREADS,
                        rq_count := rq_count q - 1\<rparr>;
                 s' = s\<lparr>g_ready_queues := (g_ready_queues s)[p := q'],
                        g_ready_bitmap :=
                          (if rq_count q' = 0 then g_ready_bitmap s AND NOT (push_bit p 1)
                           else g_ready_bitmap s)\<rparr>
             in bnd (ValidateReadyQueueInvariant p s') (\<lambda>s'. Inr (t, s')))"

text \<open>
  The search loop stops at the first slot that holds the thread; the shift loop closes the
  gap (\<open>ring_shift\<close>). The tail moves back by one: \<open>(tail - 1 + MAX_THREADS) % MAX_THREADS\<close>.
\<close>

definition RemoveFromReadyQueue :: "nat \<Rightarrow> int \<Rightarrow> kernel \<Rightarrow> (bool \<times> kernel) res" where
  "RemoveFromReadyQueue t priority s = bnd (ready_index priority) (\<lambda>p.
     let q = g_ready_queues s ! p;
         found = find (\<lambda>i. rq_threads q ! ((rq_head q + i) mod MAX_THREADS) = Some t)
                   [0..<rq_count q];
         q' = (case found of None \<Rightarrow> q
               | Some i \<Rightarrow> q\<lparr>rq_threads := ring_shift (rq_threads q) (rq_head q) i (rq_count q),
                            rq_tail := (rq_tail q + MAX_THREADS - 1) mod MAX_THREADS,
                            rq_count := rq_count q - 1\<rparr>)
     in Inr (found \<noteq> None,
          s\<lparr>g_ready_queues := (g_ready_queues s)[p := q'],
            g_ready_bitmap := (if rq_count q' = 0 then g_ready_bitmap s AND NOT (push_bit p 1)
                               else g_ready_bitmap s)\<rparr>))"

definition ReinsertReadyThread :: "nat \<Rightarrow> int \<Rightarrow> kernel \<Rightarrow> kernel res" where
  "ReinsertReadyThread t oldPriority s = bnd (get_thread t s) (\<lambda>th.
     if t_state th \<noteq> THREAD_READY then Inr s
     else bnd (RemoveFromReadyQueue t oldPriority s) (\<lambda>(found, s').
       if \<not> found then Inl (Bugcheck ''Thread not found during reinsert'')
       else ReadyThread t s'))"

section \<open>Correctness of the bit search\<close>

text \<open>
  The table slot of \<open>2^n\<close>, and the word after the five or-shift steps: all bits from the
  highest set one downwards.
\<close>

definition debruijn_slot :: "nat \<Rightarrow> nat" where
  "debruijn_slot n = unat (drop_bit 27 (push_bit n 1 * DEBURIJN32))"

lemma debruijn_slots:
  "map debruijn_slot [0..<32] = [0, 1, 3, 7, 14, 29, 27, 23, 15, 31, 30, 28, 25, 18, 5, 11, 22, 13, 26, 21, 10, 20, 9, 19, 6, 12, 24, 17, 2, 4, 8, 16]"
  by (simp add: debruijn_slot_def DEBURIJN32_def upt_conv_Cons push_bit_eq_mult drop_bit_eq_div)

definition smear :: "32 word \<Rightarrow> 32 word" where
  "smear x = (let x = x OR drop_bit 1 x;
               x = x OR drop_bit 2 x;
               x = x OR drop_bit 4 x;
               x = x OR drop_bit 8 x
            in x OR drop_bit 16 x)"

lemma bit_or_window:
  assumes "\<And>i. bit y i \<longleftrightarrow> (\<exists>d < w. bit (x :: 32 word) (i + d))"
  shows "bit (y OR drop_bit w y) i \<longleftrightarrow> (\<exists>d < 2 * w. bit x (i + d))"
proof
  assume "bit (y OR drop_bit w y) i"
  then obtain d where "d < w" "bit x (i + d) \<or> bit x (i + (w + d))"
    by (auto simp: bit_or_iff bit_drop_bit_eq assms ac_simps)
  then show "\<exists>d < 2 * w. bit x (i + d)"
    by (elim disjE) (auto intro: exI [of _ d] exI [of _ "w + d"])
next
  assume "\<exists>d < 2 * w. bit x (i + d)"
  then obtain d where d: "d < 2 * w" "bit x (i + d)" by blast
  show "bit (y OR drop_bit w y) i"
  proof (cases "d < w")
    case False
    then have "\<exists>e<w. bit x (w + i + e)"
      using d by (intro exI [of _ "d - w"]) auto
    then show ?thesis by (simp add: bit_or_iff bit_drop_bit_eq assms)
  qed (use d in \<open>auto simp: bit_or_iff assms\<close>)
qed

lemma smear_bit: "bit (smear x) i \<longleftrightarrow> (\<exists>d < 32. bit x (i + d))"
proof -
  have "bit x j \<longleftrightarrow> (\<exists>d < 1. bit x (j + d))" for j by simp
  note w1 = bit_or_window [OF this]
  note w2 = bit_or_window [OF w1]
  note w3 = bit_or_window [OF w2]
  note w4 = bit_or_window [OF w3]
  note w5 = bit_or_window [OF w4]
  from w5 show ?thesis by (simp add: smear_def Let_def)
qed

lemma smear_mask:
  assumes "bit x n" "\<And>i. n < i \<Longrightarrow> \<not> bit x i"
  shows "smear x = mask (Suc n)"
proof (rule bit_word_eqI)
  fix i assume "i < LENGTH(32)"
  from assms(1) have "n < 32" using bit_imp_le_length by fastforce
  show "bit (smear x) i = bit (mask (Suc n) :: 32 word) i"
  proof (cases "i \<le> n")
    case True
    then show ?thesis using assms(1) \<open>n < 32\<close>
      by (auto simp: smear_bit bit_mask_iff intro!: exI [of _ "n - i"])
  next
    case False
    then show ?thesis using assms(2) by (auto simp: smear_bit bit_mask_iff)
  qed
qed

lemma highest_isolated:
  assumes "bit (x :: 32 word) n" "\<And>i. n < i \<Longrightarrow> \<not> bit x i"
  shows "drop_bit 1 (smear x + 1) = (if n = 31 then 0 else push_bit n 1)"
proof -
  have n: "n < 32" using assms(1) bit_imp_le_length by fastforce
  have "smear x + 1 = 2 ^ Suc n"
    using smear_mask [OF assms] by (simp add: mask_eq_exp_minus_1)
  moreover have "drop_bit 1 ((2::32 word) ^ Suc n) = 2 ^ n" if "n < 31"
    using that n by (intro bit_word_eqI) (auto simp: bit_drop_bit_eq bit_exp_iff simp del: power_Suc)
  moreover have "(2::32 word) ^ Suc n = 0" if "n = 31"
    using that by simp
  ultimately show ?thesis using n by (auto simp: push_bit_eq_mult)
qed

definition highest_bit :: "32 word \<Rightarrow> nat" where
  "highest_bit x = last (filter (bit x) [0..<32])"

lemma last_filter_upt:
  assumes "P n" "n < m" "\<And>i. n < i \<Longrightarrow> i < m \<Longrightarrow> \<not> P i"
  shows "last (filter P [0..<m]) = n"
proof -
  have "filter P [0..<m] = filter P [0..<Suc n] @ filter P [Suc n..<m]"
    using assms(2) upt_add_eq_append [of 0 "Suc n" "m - Suc n"] by simp
  moreover have "filter P [Suc n..<m] = []"
    using assms(3) by (auto simp: filter_empty_conv)
  ultimately show ?thesis using assms(1) by simp
qed

lemma highest_bit_exists:
  assumes "(x :: 32 word) \<noteq> 0"
  obtains n where "n < 32" "bit x n" "\<And>i. n < i \<Longrightarrow> \<not> bit x i"
proof -
  let ?B = "{i. i < 32 \<and> bit x i}"
  from assms obtain i where "bit x i" by (auto simp: bit_eq_iff)
  then have "i \<in> ?B" using bit_imp_le_length by fastforce
  then have ne: "?B \<noteq> {}" and fin: "finite ?B" by auto
  have "\<not> bit x j" if "Max ?B < j" for j
  proof
    assume "bit x j"
    then have "j \<in> ?B" using bit_imp_le_length by fastforce
    with fin have "j \<le> Max ?B" by (rule Max_ge)
    with that show False by simp
  qed
  moreover have "Max ?B < 32" "bit x (Max ?B)"
    using Max_in [OF fin ne] by simp_all
  ultimately show thesis by (rule that [rotated 2])
qed

definition priority_table_ok :: "kernel \<Rightarrow> bool" where
  "priority_table_ok s \<longleftrightarrow> (\<forall>n < 32. g_priorityTable s ! debruijn_slot n = word_of_nat n)"

lemma debruijn_slot_inj: "inj_on debruijn_slot (set [0..<32])"
proof -
  have "distinct (map debruijn_slot [0..<32])"
    unfolding debruijn_slots by simp
  then show ?thesis by (simp add: distinct_map)
qed

lemma debruijn_slot_less: "n < 32 \<Longrightarrow> debruijn_slot n < 32"
proof -
  assume "n < 32"
  then have "debruijn_slot n \<in> set (map debruijn_slot [0..<32])" by simp
  then show ?thesis unfolding debruijn_slots by auto
qed

lemma BuildDeBurijnTable_ok:
  assumes "length (g_priorityTable s) = MAX_PRIORITY"
  shows "priority_table_ok (BuildDeBurijnTable s)"
proof -
  have "g_priorityTable (BuildDeBurijnTable s) =
      foldl (\<lambda>tab n. tab[debruijn_slot n := word_of_nat n]) (g_priorityTable s) [0..<32]"
    by (simp add: BuildDeBurijnTable_def debruijn_slot_def Let_def)
  then show ?thesis
    using assms debruijn_slot_less
    by (auto simp: priority_table_ok_def intro!: foldl_update_nth debruijn_slot_inj)
qed

lemma FindHighestSetBit_eq:
  assumes "priority_table_ok s" "x \<noteq> 0"
  shows "FindHighestSetBit x s = (if bit x 31 then 0 else int (highest_bit x))"
proof -
  obtain n where n: "n < 32" "bit x n" "\<And>i. n < i \<Longrightarrow> \<not> bit x i"
    using highest_bit_exists [OF assms(2)] by blast
  then have hb: "highest_bit x = n"
    unfolding highest_bit_def by (intro last_filter_upt) auto
  have tab: "uint (g_priorityTable s ! debruijn_slot k) = int k" if "k < 32" for k
    using assms(1) that by (simp add: priority_table_ok_def unsigned_of_nat take_bit_nat_eq_self)
  have slot0: "debruijn_slot 0 = 0"
    by (simp add: debruijn_slot_def DEBURIJN32_def drop_bit_eq_div)
  have "FindHighestSetBit x s =
      uint (g_priorityTable s ! unat (drop_bit 27 (drop_bit 1 (smear x + 1) * DEBURIJN32)))"
    using assms(2) by (simp add: FindHighestSetBit_def smear_def Let_def)
  also have "\<dots> = (if n = 31 then 0 else int n)"
  proof (cases "n = 31")
    case True
    then show ?thesis
      using highest_isolated [OF n(2,3)] tab [of 0] by (simp add: slot0)
  next
    case False
    then have "drop_bit 1 (smear x + 1) = push_bit n 1"
      using highest_isolated [OF n(2,3)] by simp
    then show ?thesis
      using tab [OF n(1)] False by (simp add: debruijn_slot_def)
  qed
  also have "\<dots> = (if bit x 31 then 0 else int (highest_bit x))"
  proof -
    have "bit x 31 \<longleftrightarrow> n = 31"
      using n(1,2) n(3) [of 31] by (cases "n = 31") auto
    then show ?thesis using hb by simp
  qed
  finally show ?thesis .
qed

end
