(* ===== verification/BK_ReadyList.thy ===== *)
theory BK_ReadyList
  imports BK_Ready
begin

text \<open>
  The ready queues as lists. \<open>rq_list\<close> reads one ring oldest thread first, \<open>ready_list s p\<close> is
  the queue of priority \<open>p\<close>, and \<open>ready_wf\<close> the invariant: every ring well-shaped and free of
  null entries, bit \<open>p\<close> of the bitmap set exactly when queue \<open>p\<close> is non-empty, and every queued
  pointer inside the thread table. \<open>ReadyThread\<close> appends, \<open>RemoveReadyThread\<close> takes the head,
  \<open>RemoveFromReadyQueue\<close> removes the first occurrence, and all three keep the invariant.
\<close>

section \<open>One ring\<close>

definition rq_list :: "READY_QUEUE \<Rightarrow> nat list" where
  "rq_list q = map the (ring_list (rq_threads q) (rq_head q) (rq_count q))"

definition rq_wf :: "READY_QUEUE \<Rightarrow> bool" where
  "rq_wf q \<longleftrightarrow> length (rq_threads q) = MAX_THREADS \<and> rq_head q < MAX_THREADS
     \<and> rq_count q \<le> MAX_THREADS \<and> rq_tail q = (rq_head q + rq_count q) mod MAX_THREADS
     \<and> None \<notin> set (ring_list (rq_threads q) (rq_head q) (rq_count q))"

lemma length_rq_list [simp]: "length (rq_list q) = rq_count q"
  by (simp add: rq_list_def)

lemma rq_ring:
  "rq_wf q \<Longrightarrow> ring_list (rq_threads q) (rq_head q) (rq_count q) = map Some (rq_list q)"
  unfolding rq_list_def map_map
  by (rule sym, rule map_idI) (metis comp_apply option.collapse rq_wf_def)

lemma rq_slot:
  "rq_wf q \<Longrightarrow> i < rq_count q \<Longrightarrow>
   rq_threads q ! ((rq_head q + i) mod MAX_THREADS) = Some (rq_list q ! i)"
  using arg_cong [OF rq_ring, of q "\<lambda>xs. xs ! i"] by (simp add: rq_wf_def)

lemma rq_wf_push:
  fixes t :: nat
  assumes "rq_wf q" "rq_count q < MAX_THREADS"
  defines "q' \<equiv> q\<lparr>rq_threads := (rq_threads q)[rq_tail q := Some t],
    rq_tail := (rq_tail q + 1) mod MAX_THREADS, rq_count := rq_count q + 1\<rparr>"
  shows "rq_wf q'" "rq_list q' = rq_list q @ [t]"
proof -
  have c: "rq_count q < length (rq_threads q)" using assms by (simp add: rq_wf_def)
  note push = ring_list_push [OF c, of "rq_head q" "Some t"]
  show "rq_wf q'" "rq_list q' = rq_list q @ [t]"
    using assms push by (auto simp: rq_wf_def rq_list_def mod_simps)
qed

lemma rq_wf_pop:
  assumes "rq_wf q" "rq_list q = t # ts"
  defines "q' \<equiv> q\<lparr>rq_threads := (rq_threads q)[rq_head q := None],
    rq_head := (rq_head q + 1) mod MAX_THREADS, rq_count := rq_count q - 1\<rparr>"
  shows "rq_threads q ! rq_head q = Some t" "rq_wf q'" "rq_list q' = ts"
proof -
  have n: "rq_count q = Suc (length ts)"
    using assms(2) by (metis length_rq_list length_Cons)
  have h: "rq_head q < length (rq_threads q)" "length ts < length (rq_threads q)"
    using assms(1) n by (auto simp: rq_wf_def)
  note ring = ring_list_Cons [OF h(1), of "length ts"] ring_list_pop_clear [OF h, of None]
  show "rq_threads q ! rq_head q = Some t"
    using rq_slot [OF assms(1), of 0] assms(2) n assms(1) by (simp add: rq_wf_def)
  show "rq_list q' = ts"
    using assms n ring by (simp add: rq_wf_def rq_list_def)
  show "rq_wf q'"
    using assms(1) n ring by (auto simp: q'_def rq_wf_def mod_simps)
qed

lemma rq_find:
  assumes "rq_wf q"
  shows "find (\<lambda>i. rq_threads q ! ((rq_head q + i) mod MAX_THREADS) = Some t) [0..<rq_count q]
    = find (\<lambda>i. rq_list q ! i = t) [0..<rq_count q]"
  using rq_slot [OF assms] by (intro find_cong) auto

lemma rq_wf_remove:
  assumes "rq_wf q" "i < rq_count q"
  defines "q' \<equiv> q\<lparr>rq_threads := ring_shift (rq_threads q) (rq_head q) i (rq_count q),
    rq_tail := (rq_tail q + MAX_THREADS - 1) mod MAX_THREADS, rq_count := rq_count q - 1\<rparr>"
  shows "rq_wf q'" "rq_list q' = take i (rq_list q) @ drop (Suc i) (rq_list q)"
proof -
  have c: "rq_count q \<le> length (rq_threads q)" using assms by (simp add: rq_wf_def)
  note sh = ring_list_shift [OF c assms(2), of "rq_head q"]
  show "rq_list q' = take i (rq_list q) @ drop (Suc i) (rq_list q)"
    using sh by (simp add: q'_def rq_list_def take_map drop_map)
  have "((rq_head q + rq_count q) mod 16 + 16 - 1) mod 16 = (rq_head q + (rq_count q - 1)) mod 16"
    using ring_prev [of "rq_head q + rq_count q" 16] assms(2) by simp
  moreover have "None \<notin> set (take i (map Some (rq_list q)) @ drop (Suc i) (map Some (rq_list q)))"
    by (auto dest: in_set_takeD in_set_dropD)
  ultimately show "rq_wf q'"
    using assms(1) sh by (simp add: q'_def rq_wf_def rq_ring [OF assms(1)] le_diff_conv)
qed


section \<open>All queues\<close>

definition ready_list :: "kernel \<Rightarrow> nat \<Rightarrow> nat list" where
  "ready_list s p = rq_list (g_ready_queues s ! p)"

definition ready_wf :: "kernel \<Rightarrow> bool" where
  "ready_wf s \<longleftrightarrow> length (g_ready_queues s) = MAX_PRIORITY
     \<and> (\<forall>p < MAX_PRIORITY. rq_wf (g_ready_queues s ! p))
     \<and> (\<forall>p < MAX_PRIORITY. bit (g_ready_bitmap s) p \<longleftrightarrow> ready_list s p \<noteq> [])
     \<and> (\<forall>p < MAX_PRIORITY. \<forall>t \<in> set (ready_list s p). t < length (g_thread_table s))"

lemma ready_wfD:
  assumes "ready_wf s" "p < MAX_PRIORITY"
  shows "rq_wf (g_ready_queues s ! p)" "bit (g_ready_bitmap s) p \<longleftrightarrow> ready_list s p \<noteq> []"
    "t \<in> set (ready_list s p) \<Longrightarrow> t < length (g_thread_table s)"
    "p < length (g_ready_queues s)"
  using assms by (auto simp: ready_wf_def)

lemma ready_index_eq_Inr [res_simps]:
  "ready_index p = Inr n \<longleftrightarrow> 0 \<le> p \<and> p < int MAX_PRIORITY \<and> n = nat p"
  by (auto simp: ready_index_def)

lemma ready_index_nat [simp]: "p < 32 \<Longrightarrow> ready_index (int p) = Inr p"
  by (simp add: ready_index_def)

text \<open>
  Replacing ring \<open>p\<close> by a well-formed one, with the bit of \<open>p\<close> set to its emptiness, keeps the
  invariant and changes the list of \<open>p\<close> only.
\<close>

definition set_ready :: "nat \<Rightarrow> READY_QUEUE \<Rightarrow> 32 word \<Rightarrow> kernel \<Rightarrow> kernel" where
  "set_ready p q b s = s\<lparr>g_ready_queues := (g_ready_queues s)[p := q], g_ready_bitmap := b\<rparr>"

lemma set_ready_wf:
  assumes "ready_wf s" "p < MAX_PRIORITY" "rq_wf q"
    and "\<And>i. i < MAX_PRIORITY \<Longrightarrow>
      bit b i \<longleftrightarrow> (if i = p then rq_list q \<noteq> [] else bit (g_ready_bitmap s) i)"
    and "\<And>t. t \<in> set (rq_list q) \<Longrightarrow> t < length (g_thread_table s)"
  shows "ready_wf (set_ready p q b s)" "ready_list (set_ready p q b s) = (ready_list s)(p := rq_list q)"
proof -
  have len: "p < length (g_ready_queues s)"
    using assms(1,2) by (simp add: ready_wf_def)
  show l: "ready_list (set_ready p q b s) = (ready_list s)(p := rq_list q)"
    using len by (auto simp: ready_list_def set_ready_def)
  show "ready_wf (set_ready p q b s)"
    using assms l len
    by (auto simp: ready_wf_def set_ready_def nth_list_update)
qed

lemma Validate_set_ready:
  assumes "p < length (g_ready_queues s)" "bit b p \<longleftrightarrow> rq_list q \<noteq> []"
  shows "ValidateReadyQueueInvariant p (set_ready p q b s) = Inr (set_ready p q b s)"
proof -
  have "rq_list q \<noteq> [] \<longleftrightarrow> rq_count q > 0"
    by (metis length_greater_0_conv length_rq_list)
  with assms show ?thesis
    by (simp add: ValidateReadyQueueInvariant_def set_ready_def Let_def
        bit_iff_and_push_bit_not_eq_0)
qed

lemma set_ready_fold:
  "s\<lparr>g_ready_queues := (g_ready_queues s)[p := q], g_ready_bitmap := b\<rparr> = set_ready p q b s"
  by (simp add: set_ready_def)

section \<open>The operations on lists\<close>

lemma bit_set_mask: "i < 32 \<Longrightarrow> bit (b OR push_bit p 1 :: 32 word) i \<longleftrightarrow> bit b i \<or> i = p"
  by (auto simp: bit_or_iff bit_exp_iff)

lemma bit_clear_mask: "i < 32 \<Longrightarrow> bit (b AND NOT (push_bit p 1) :: 32 word) i \<longleftrightarrow> bit b i \<and> i \<noteq> p"
  by (auto simp: bit_and_iff bit_not_iff bit_exp_iff)

lemma ReadyThread_append:
  assumes wf: "ready_wf s" and th: "get_thread t s = Inr th"
    and p: "t_priority th = int p" "p < MAX_PRIORITY"
    and room: "length (ready_list s p) < MAX_THREADS"
  obtains s' q b where "ReadyThread t s = Inr s'" "s' = set_ready p q b s" "ready_wf s'"
    "ready_list s' = (ready_list s)(p := ready_list s p @ [t])"
proof -
  let ?q = "g_ready_queues s ! p"
  let ?q' = "?q\<lparr>rq_threads := (rq_threads ?q)[rq_tail ?q := Some t],
    rq_tail := (rq_tail ?q + 1) mod MAX_THREADS, rq_count := rq_count ?q + 1\<rparr>"
  let ?b = "g_ready_bitmap s OR push_bit p 1"
  have c: "rq_count ?q < MAX_THREADS" using room by (simp add: ready_list_def)
  note q' = rq_wf_push [OF ready_wfD(1) [OF wf p(2)] c, of t]
  have t: "t < length (g_thread_table s)" using th by (simp add: res_simps)
  have bits: "bit ?b i \<longleftrightarrow> (if i = p then rq_list ?q' \<noteq> [] else bit (g_ready_bitmap s) i)"
    if "i < MAX_PRIORITY" for i
    using that q' bit_set_mask by auto
  have mem: "u < length (g_thread_table s)" if "u \<in> set (rq_list ?q')" for u
    using that q'(2) t ready_wfD(3) [OF wf p(2), of u] by (auto simp: ready_list_def)
  note up = set_ready_wf [OF wf p(2) q'(1) bits mem]
  have "ReadyThread t s = Inr (set_ready p ?q' ?b s)"
    using th p c Validate_set_ready [of p s ?b ?q'] ready_wfD(4) [OF wf p(2)] bits [of p]
    by (simp add: ReadyThread_def Let_def set_ready_fold)
  then show thesis
    using up q'(2) by (intro that) (auto simp: ready_list_def)
qed


lemma ReadyThread_overflow:
  assumes "get_thread t s = Inr th" "t_priority th = int p" "p < MAX_PRIORITY"
    and "length (ready_list s p) \<ge> MAX_THREADS"
  shows "ReadyThread t s = Inl (Bugcheck ''Ready queue overflow'')"
  using assms by (simp add: ReadyThread_def Let_def ready_list_def)

lemma RemoveReadyThread_empty:
  "p < MAX_PRIORITY \<Longrightarrow> ready_list s p = [] \<Longrightarrow> RemoveReadyThread (int p) s = Inr (None, s)"
  using length_rq_list [of "g_ready_queues s ! p"]
  by (simp add: RemoveReadyThread_def ready_list_def)

lemma RemoveReadyThread_head:
  assumes wf: "ready_wf s" and p: "p < MAX_PRIORITY" and l: "ready_list s p = t # ts"
  obtains s' q b where "RemoveReadyThread (int p) s = Inr (Some t, s')" "s' = set_ready p q b s"
    "ready_wf s'" "ready_list s' = (ready_list s)(p := ts)"
proof -
  let ?q = "g_ready_queues s ! p"
  let ?q' = "?q\<lparr>rq_threads := (rq_threads ?q)[rq_head ?q := None],
    rq_head := (rq_head ?q + 1) mod MAX_THREADS, rq_count := rq_count ?q - 1\<rparr>"
  let ?b = "if rq_count ?q' = 0 then g_ready_bitmap s AND NOT (push_bit p 1) else g_ready_bitmap s"
  note q' = rq_wf_pop [OF ready_wfD(1) [OF wf p] l [unfolded ready_list_def]]
  have n: "rq_count ?q = Suc (length ts)" "rq_count ?q' = length ts"
    using l length_rq_list [of ?q] by (simp_all add: ready_list_def)
  have bits: "bit ?b i \<longleftrightarrow> (if i = p then rq_list ?q' \<noteq> [] else bit (g_ready_bitmap s) i)"
    if "i < MAX_PRIORITY" for i
    using that q'(3) bit_clear_mask [of i "g_ready_bitmap s" p] n ready_wfD(2) [OF wf p] l by auto
  have mem: "u < length (g_thread_table s)" if "u \<in> set (rq_list ?q')" for u
    using that q'(3) ready_wfD(3) [OF wf p, of u] l by (auto simp: ready_list_def)
  note up = set_ready_wf [OF wf p q'(2) bits mem]
  have "RemoveReadyThread (int p) s = Inr (Some t, set_ready p ?q' ?b s)"
    using p n q'(1) Validate_set_ready [of p s ?b ?q'] ready_wfD(4) [OF wf p] bits [of p]
    by (simp add: RemoveReadyThread_def Let_def set_ready_fold)
  then show thesis
    using up q'(3) by (intro that) (auto simp: ready_list_def)
qed

lemma RemoveFromReadyQueue_remove1:
  assumes wf: "ready_wf s" and p: "p < MAX_PRIORITY"
  obtains s' q b where
    "RemoveFromReadyQueue t (int p) s = Inr (t \<in> set (ready_list s p), s')"
    "s' = set_ready p q b s" "ready_wf s'"
    "ready_list s' = (ready_list s)(p := remove1 t (ready_list s p))"
proof -
  let ?q = "g_ready_queues s ! p"
  let ?found = "find (\<lambda>i. rq_list ?q ! i = t) [0..<rq_count ?q]"
  let ?q' = "case ?found of None \<Rightarrow> ?q
    | Some i \<Rightarrow> ?q\<lparr>rq_threads := ring_shift (rq_threads ?q) (rq_head ?q) i (rq_count ?q),
        rq_tail := (rq_tail ?q + MAX_THREADS - 1) mod MAX_THREADS, rq_count := rq_count ?q - 1\<rparr>"
  let ?b = "if rq_count ?q' = 0 then g_ready_bitmap s AND NOT (push_bit p 1) else g_ready_bitmap s"
  note wfq = ready_wfD(1) [OF wf p]
  have q': "rq_wf ?q' \<and> rq_list ?q' = remove1 t (rq_list ?q)
      \<and> (?found \<noteq> None \<longleftrightarrow> t \<in> set (rq_list ?q))"
  proof (cases ?found)
    case None
    then have "t \<notin> set (rq_list ?q)"
      by (auto simp: find_None_iff in_set_conv_nth)
    with None wfq show ?thesis by (simp add: remove1_idem)
  next
    case (Some i)
    then have i: "i < rq_count ?q" "rq_list ?q ! i = t" "\<And>j. j < i \<Longrightarrow> rq_list ?q ! j \<noteq> t"
      by (auto simp: find_Some_iff)
    from i have "remove1 t (rq_list ?q) = take i (rq_list ?q) @ drop (Suc i) (rq_list ?q)"
      by (intro remove1_conv_index) simp_all
    with rq_wf_remove [OF wfq i(1)] i Some show ?thesis
      by (auto simp: in_set_conv_nth)
  qed
  have zero: "rq_count ?q' = 0 \<longleftrightarrow> rq_list ?q' = []"
    by (metis length_0_conv length_rq_list)
  have bits: "bit ?b i \<longleftrightarrow> (if i = p then rq_list ?q' \<noteq> [] else bit (g_ready_bitmap s) i)"
    if "i < MAX_PRIORITY" for i
    using that q' zero bit_clear_mask [of i "g_ready_bitmap s" p] ready_wfD(2) [OF wf p]
    by (auto simp: ready_list_def)
  have mem: "u < length (g_thread_table s)" if "u \<in> set (rq_list ?q')" for u
    using that q' ready_wfD(3) [OF wf p, of u] notin_set_remove1 by (fastforce simp: ready_list_def)
  have ok: "rq_wf ?q'" using q' by blast
  note up = set_ready_wf [OF wf p ok bits mem]
  have "RemoveFromReadyQueue t (int p) s = Inr (t \<in> set (rq_list ?q), set_ready p ?q' ?b s)"
    using p q' rq_find [OF wfq, of t]
    by (simp add: RemoveFromReadyQueue_def Let_def set_ready_fold)
  then show thesis
    using up q' by (intro that) (auto simp: ready_list_def)
qed

end
