(* ===== verification/BK_Sched.thy ===== *)
theory BK_Sched
  imports BK_ReadyList
begin

text \<open>
  The scheduler of \<^verbatim>\<open>BLUE_KERNEL/BlueKernel_lvl3.c\<close>: \<open>PickNextThread\<close>, \<open>Schedule\<close>,
  \<open>CheckPreemption\<close> and \<open>TimerDPC\<close>. The search loop of \<open>PickNextThread\<close> need not end, so it and
  \<open>Schedule\<close> return an option. The lemmas interpret the pool interface by the ready queues
  (\<open>ready_flat\<close>, highest priority first) under \<open>sched_wf\<close>, which asks that no thread has
  priority 31, and show what happens when one has.
\<close>

section \<open>Operations\<close>

partial_function (option) PickNextThread :: "kernel \<Rightarrow> (nat option \<times> kernel) res option" where
  "PickNextThread s =
     (if g_ready_bitmap s \<noteq> 0 then
        (case RemoveReadyThread (FindHighestPriority s) s of
           Inl e \<Rightarrow> Some (Inl e)
         | Inr r \<Rightarrow>
             (case fst r of
                None \<Rightarrow> PickNextThread (snd r)
              | Some t \<Rightarrow>
                  (case get_thread t (snd r) of
                     Inl e \<Rightarrow> Some (Inl e)
                   | Inr th \<Rightarrow> if t_state th \<noteq> THREAD_TERMINATED then Some (Inr (Some t, snd r))
                              else PickNextThread (snd r))))
      else Some (Inr (idle_thread s, s)))"

lemmas PickNextThread_code [code] = PickNextThread.simps

definition set_state :: "nat \<Rightarrow> THREAD_STATE \<Rightarrow> kernel \<Rightarrow> kernel" where
  "set_state t st = upd_thread t (\<lambda>th. th\<lparr>t_state := st\<rparr>)"

definition Schedule :: "kernel \<Rightarrow> kernel res option" where
  "Schedule s =
     (if current_irql s \<ge> DISPATCH_LEVEL then Some (Inr s)
      else obnd (PickNextThread s) (\<lambda>(next, s1).
        let next = (case next of None \<Rightarrow> idle_thread s1 | Some t \<Rightarrow> Some t)
        in if current_thread s1 = next then Some (Inr s1)
           else Some (
             bnd (case current_thread s1 of None \<Rightarrow> Inr s1
                  | Some c \<Rightarrow> bnd (get_thread c s1) (\<lambda>ct.
                      if t_state ct = THREAD_RUNNING
                      then ReadyThread c (set_state c THREAD_READY s1) else Inr s1)) (\<lambda>s2.
             bnd (deref next) (\<lambda>n.
             bnd (get_thread n s2) (\<lambda>_.
               Inr ((set_state n THREAD_RUNNING s2)\<lparr>current_thread := Some n\<rparr>)))))))"

definition CheckPreemption :: "nat \<Rightarrow> kernel \<Rightarrow> kernel res" where
  "CheckPreemption newThread s =
     (case current_thread s of None \<Rightarrow> Inr s
      | Some c \<Rightarrow> bnd (get_thread newThread s) (\<lambda>nt. bnd (get_thread c s) (\<lambda>ct.
          if t_priority nt > t_priority ct then Inr (s\<lparr>reschedule_requested := True\<rparr>)
          else Inr s)))"

definition TimerDPC :: "kernel \<Rightarrow> kernel res" where
  "TimerDPC s =
     (case current_thread s of None \<Rightarrow> Inr s
      | Some c \<Rightarrow>
          if current_thread s = idle_thread s then Inr s
          else bnd (get_thread c s) (\<lambda>ct.
            if t_state ct \<noteq> THREAD_RUNNING then Inr s
            else let s1 = upd_thread c (\<lambda>th. th\<lparr>t_quantum := t_quantum th - 1\<rparr>) s
                 in if t_quantum ct - 1 \<le> 0
                    then bnd (ReadyThread c
                          (upd_thread c (\<lambda>th. th\<lparr>t_quantum := 3, t_state := THREAD_READY\<rparr>) s1))
                        (\<lambda>s2. Inr (s2\<lparr>current_thread := None, reschedule_requested := True\<rparr>))
                    else Inr s1))"

section \<open>The ready threads in scheduling order\<close>

definition ready_flat :: "kernel \<Rightarrow> nat list" where
  "ready_flat s = concat (map (ready_list s) (rev [0..<MAX_PRIORITY]))"

definition terminated :: "nat \<Rightarrow> kernel \<Rightarrow> bool" where
  "terminated t s \<longleftrightarrow> t_state (g_thread_table s ! t) = THREAD_TERMINATED"

definition sched_wf :: "kernel \<Rightarrow> bool" where
  "sched_wf s \<longleftrightarrow> ready_wf s \<and> priority_table_ok s \<and> ready_list s 31 = []"

lemma ready_bitmap_zero:
  assumes "ready_wf s"
  shows "g_ready_bitmap s = 0 \<longleftrightarrow> (\<forall>p < MAX_PRIORITY. ready_list s p = [])"
proof
  assume "g_ready_bitmap s = 0"
  then show "\<forall>p < MAX_PRIORITY. ready_list s p = []"
    using ready_wfD(2) [OF assms] by auto
next
  assume "\<forall>p < MAX_PRIORITY. ready_list s p = []"
  then show "g_ready_bitmap s = 0"
    using ready_wfD(2) [OF assms] by (intro bit_word_eqI) auto
qed

lemma FindHighestPriority_best:
  assumes "sched_wf s" "g_ready_bitmap s \<noteq> 0"
  obtains p where "FindHighestPriority s = int p" "p < MAX_PRIORITY" "ready_list s p \<noteq> []"
    "\<And>q. p < q \<Longrightarrow> q < MAX_PRIORITY \<Longrightarrow> ready_list s q = []"
proof -
  obtain n where n: "n < 32" "bit (g_ready_bitmap s) n" "\<And>i. n < i \<Longrightarrow> \<not> bit (g_ready_bitmap s) i"
    using highest_bit_exists [OF assms(2)] by blast
  then have hb: "highest_bit (g_ready_bitmap s) = n"
    unfolding highest_bit_def by (intro last_filter_upt) auto
  note bits = ready_wfD(2) [of s]
  have "\<not> bit (g_ready_bitmap s) 31"
    using assms(1) bits [of 31] by (simp add: sched_wf_def)
  then have "FindHighestPriority s = int n"
    using assms hb by (simp add: FindHighestPriority_def FindHighestSetBit_eq sched_wf_def)
  then show thesis
    using n bits assms(1) by (intro that) (auto simp: sched_wf_def)
qed

lemma ready_flat_split:
  assumes "p < MAX_PRIORITY" "\<And>q. p < q \<Longrightarrow> q < MAX_PRIORITY \<Longrightarrow> ready_list s q = []"
  shows "ready_flat s = ready_list s p @ concat (map (ready_list s) (rev [0..<p]))"
proof -
  have "[0..<MAX_PRIORITY] = [0..<p] @ p # [Suc p..<MAX_PRIORITY]"
    using assms(1) upt_add_eq_append [of 0 p "MAX_PRIORITY - p"] by (simp add: upt_conv_Cons)
  moreover have "concat (map (ready_list s) (rev [Suc p..<MAX_PRIORITY])) = []"
    using assms(2) by (simp add: concat_eq_Nil_conv)
  ultimately show ?thesis by (simp add: ready_flat_def)
qed


lemma ready_flat_empty:
  assumes "ready_wf s"
  shows "g_ready_bitmap s \<noteq> 0 \<longleftrightarrow> ready_flat s \<noteq> []"
  using ready_bitmap_zero [OF assms] by (auto simp: ready_flat_def concat_eq_Nil_conv)

lemma set_ready_other [simp]:
  "g_priorityTable (set_ready p q b s) = g_priorityTable s"
  "g_thread_table (set_ready p q b s) = g_thread_table s"
  "idle_thread (set_ready p q b s) = idle_thread s"
  "current_thread (set_ready p q b s) = current_thread s"
  "current_irql (set_ready p q b s) = current_irql s"
  "reschedule_requested (set_ready p q b s) = reschedule_requested s"
  "g_mutexes (set_ready p q b s) = g_mutexes s"
  "g_events (set_ready p q b s) = g_events s"
  "process_table (set_ready p q b s) = process_table s"
  by (simp_all add: set_ready_def)

lemma RemoveReadyThread_best:
  assumes wf: "sched_wf s" and flat: "ready_flat s = t # ts"
  obtains s' p q b where "RemoveReadyThread (FindHighestPriority s) s = Inr (Some t, s')"
    "s' = set_ready p q b s" "sched_wf s'" "ready_flat s' = ts" "t < length (g_thread_table s)"
proof -
  have r: "ready_wf s" using wf by (simp add: sched_wf_def)
  then have "g_ready_bitmap s \<noteq> 0" using flat ready_flat_empty by auto
  from FindHighestPriority_best [OF wf this] obtain p where
    p: "FindHighestPriority s = int p" "p < MAX_PRIORITY" "ready_list s p \<noteq> []"
      "\<And>q. p < q \<Longrightarrow> q < MAX_PRIORITY \<Longrightarrow> ready_list s q = []" by blast
  note split = ready_flat_split [OF p(2,4)]
  obtain us where us: "ready_list s p = t # us" "ts = us @ concat (map (ready_list s) (rev [0..<p]))"
    using p(3) split flat by (cases "ready_list s p") auto
  from RemoveReadyThread_head [OF r p(2) us(1)] obtain s' q b where
    s': "RemoveReadyThread (int p) s = Inr (Some t, s')" "s' = set_ready p q b s" "ready_wf s'"
      "ready_list s' = (ready_list s)(p := us)" by blast
  have "ready_flat s' = us @ concat (map (ready_list s') (rev [0..<p]))"
    using ready_flat_split [OF p(2), of s'] p(4) s'(4) by simp
  also have "map (ready_list s') (rev [0..<p]) = map (ready_list s) (rev [0..<p])"
    using s'(4) by simp
  finally have "ready_flat s' = ts" using us by simp
  moreover have "p \<noteq> 31" using p(3) wf by (auto simp: sched_wf_def)
  then have "sched_wf s'"
    using wf s'(2-4) by (simp add: sched_wf_def priority_table_ok_def)
  ultimately show thesis
    using that s' p(1) ready_wfD(3) [OF r p(2), of t] us(1) by simp
qed

interpretation ready: pick_loop sched_wf ready_flat "\<lambda>s. g_ready_bitmap s \<noteq> 0"
  "\<lambda>s. RemoveReadyThread (FindHighestPriority s) s" terminated idle_thread PickNextThread
proof
  show "g_ready_bitmap s \<noteq> 0 \<longleftrightarrow> ready_flat s \<noteq> []" if "sched_wf s" for s
    using that ready_flat_empty by (simp add: sched_wf_def)
  show "\<exists>s'. RemoveReadyThread (FindHighestPriority s) s = Inr (Some t, s') \<and> sched_wf s'
      \<and> ready_flat s' = ts \<and> (\<forall>u. terminated u s' = terminated u s) \<and> idle_thread s' = idle_thread s"
    if "sched_wf s" "ready_flat s = t # ts" for s t ts
    using RemoveReadyThread_best [OF that] by (metis set_ready_other(2,3) terminated_def)
  show "PickNextThread s = Some (Inr (idle_thread s, s))"
    if "sched_wf s" "\<not> g_ready_bitmap s \<noteq> 0" for s
    using that by (simp add: PickNextThread.simps)
  show "PickNextThread s =
      (if terminated t s' then PickNextThread s' else Some (Inr (Some t, s')))"
    if "sched_wf s" "g_ready_bitmap s \<noteq> 0"
      "RemoveReadyThread (FindHighestPriority s) s = Inr (Some t, s')" for s t s'
  proof -
    note turn = that
    have "ready_flat s \<noteq> []"
      using turn(1,2) ready_flat_empty [of s] by (simp add: sched_wf_def)
    then obtain u us where "ready_flat s = u # us"
      by (cases "ready_flat s") auto
    from RemoveReadyThread_best [OF turn(1) this] obtain s'' p q b where
      "RemoveReadyThread (FindHighestPriority s) s = Inr (Some u, s'')" "s'' = set_ready p q b s"
      "u < length (g_thread_table s)" by metis
    then have "t < length (g_thread_table s')" using turn(3) by auto
    then show ?thesis
      using turn(2,3)
      by (subst PickNextThread.simps) (simp add: get_thread_def terminated_def)
  qed
qed

text \<open>
  With a thread at priority 31 the bit search answers 0 (see \<open>FindHighestSetBit_eq\<close>): while
  queue 0 is empty the loop takes nothing and never ends.
\<close>

lemma PickNextThread_stuck:
  assumes "ready_wf s" "priority_table_ok s" "ready_list s 31 \<noteq> []" "ready_list s 0 = []"
  shows "PickNextThread s = None"
proof -
  have bit: "bit (g_ready_bitmap s) 31" "g_ready_bitmap s \<noteq> 0"
    using assms(1,3) ready_wfD(2) [OF assms(1), of 31] by auto
  then have best: "FindHighestPriority s = int 0"
    using assms(2) by (simp add: FindHighestPriority_def FindHighestSetBit_eq)
  have noop: "RemoveReadyThread (FindHighestPriority s) s = Inr (None, s)"
    unfolding best using assms(4) by (intro RemoveReadyThread_empty) simp_all
  have False if "PickNextThread s = Some r" for r
  proof -
    have "s' \<noteq> s" if "PickNextThread s' = Some r" for s' r
    proof (rule PickNextThread.raw_induct [where P = "\<lambda>s' r. s' \<noteq> s", OF _ that])
      fix f s' r
      assume IH: "\<And>s' r. f s' = Some r \<Longrightarrow> s' \<noteq> s"
        and eq: "(if g_ready_bitmap s' \<noteq> 0 then
        (case RemoveReadyThread (FindHighestPriority s') s' of
           Inl e \<Rightarrow> Some (Inl e)
         | Inr r \<Rightarrow>
             (case fst r of
                None \<Rightarrow> f (snd r)
              | Some t \<Rightarrow>
                  (case get_thread t (snd r) of
                     Inl e \<Rightarrow> Some (Inl e)
                   | Inr th \<Rightarrow> if t_state th \<noteq> THREAD_TERMINATED then Some (Inr (Some t, snd r))
                              else f (snd r))))
      else Some (Inr (idle_thread s', s'))) = Some r"
      show "s' \<noteq> s"
      proof
        assume "s' = s"
        with eq noop bit(2) have "f s = Some r" by simp
        then show False using IH by blast
      qed
    qed
    with that show False by blast
  qed
  then show ?thesis by (cases "PickNextThread s") auto
qed

section \<open>A scheduling decision\<close>

definition only_ready :: "kernel \<Rightarrow> kernel \<Rightarrow> bool" where
  "only_ready s s' \<longleftrightarrow>
     s' = s\<lparr>g_ready_queues := g_ready_queues s', g_ready_bitmap := g_ready_bitmap s'\<rparr>"

lemma only_ready_refl [wf_intros]: "only_ready s s"
  by (simp add: only_ready_def)

lemma only_ready_trans: "only_ready s s1 \<Longrightarrow> only_ready s1 s2 \<Longrightarrow> only_ready s s2"
  unfolding only_ready_def
  by (metis (no_types, lifting) kernel.update_convs(15,16) kernel.surjective)

lemma RemoveReadyThread_only:
  assumes "RemoveReadyThread p s = Inr (r, s')"
  shows "only_ready s s'"
proof -
  have v: "ValidateReadyQueueInvariant n k = Inr k' \<Longrightarrow> k' = k" for n k k'
    by (simp add: ValidateReadyQueueInvariant_def Let_def split: if_splits)
  show ?thesis
    using assms unfolding RemoveReadyThread_def Let_def
    by (elim bnd_InrE) (auto simp: only_ready_def res_simps dest!: v split: if_splits)
qed

text \<open>Whatever is reflexive and transitive and holds of every removal holds of the search.\<close>

lemma PickNextThread_steps:
  assumes "PickNextThread s = Some (Inr (t, s'))"
    and refl: "\<And>s. R s s" and trans: "\<And>s s1 s2. R s s1 \<Longrightarrow> R s1 s2 \<Longrightarrow> R s s2"
    and remove: "\<And>p s t s1. RemoveReadyThread p s = Inr (t, s1) \<Longrightarrow> R s s1"
  shows "R s s'"
proof -
  have "case r of Inl e \<Rightarrow> True | Inr (t, s') \<Rightarrow> R s s'" if "PickNextThread s = Some r" for s r
  proof (rule PickNextThread.raw_induct [where P = "\<lambda>s r. case r of Inl e \<Rightarrow> True
      | Inr (t, s') \<Rightarrow> R s s'", OF _ that])
    fix f s r
    assume IH: "\<And>s r. f s = Some r \<Longrightarrow> case r of Inl e \<Rightarrow> True | Inr (t, s') \<Rightarrow> R s s'"
      and eq: "(if g_ready_bitmap s \<noteq> 0 then
        (case RemoveReadyThread (FindHighestPriority s) s of
           Inl e \<Rightarrow> Some (Inl e)
         | Inr r \<Rightarrow>
             (case fst r of
                None \<Rightarrow> f (snd r)
              | Some t \<Rightarrow>
                  (case get_thread t (snd r) of
                     Inl e \<Rightarrow> Some (Inl e)
                   | Inr th \<Rightarrow> if t_state th \<noteq> THREAD_TERMINATED then Some (Inr (Some t, snd r))
                              else f (snd r))))
      else Some (Inr (idle_thread s, s))) = Some r"
    show "case r of Inl e \<Rightarrow> True | Inr (t, s') \<Rightarrow> R s s'"
    proof (cases "RemoveReadyThread (FindHighestPriority s) s")
      case (Inr p)
      obtain u s1 where p: "p = (u, s1)" by (cases p)
      have o: "R s s1" using remove Inr p by blast
      have "f s1 = Some (Inr (t, s')) \<Longrightarrow> R s s'" for t s'
        using IH [of s1] trans [OF o] by fastforce
      with eq Inr p o show ?thesis
        by (auto simp: refl split: if_splits option.splits sum.splits)
    next
      case (Inl e)
      show ?thesis using eq unfolding Inl by (auto simp: refl split: if_splits)
    qed
  qed
  with assms(1) show ?thesis by fastforce
qed

lemma PickNextThread_only:
  "PickNextThread s = Some (Inr (t, s')) \<Longrightarrow> only_ready s s'"
  by (rule PickNextThread_steps) (auto intro: only_ready_refl only_ready_trans RemoveReadyThread_only)

lemma only_ready_same:
  assumes "only_ready s s'"
  shows "g_thread_table s' = g_thread_table s" "current_thread s' = current_thread s"
    "idle_thread s' = idle_thread s" "current_irql s' = current_irql s"
  by (subst assms [unfolded only_ready_def]; simp)+

lemma ready_list_le_flat:
  "p < MAX_PRIORITY \<Longrightarrow> set (ready_list s p) \<subseteq> set (ready_flat s)
     \<and> length (ready_list s p) \<le> length (ready_flat s)"
proof -
  assume p: "p < MAX_PRIORITY"
  then have "rev [0..<MAX_PRIORITY] = rev [Suc p..<MAX_PRIORITY] @ p # rev [0..<p]"
    using upt_add_eq_append [of 0 p "MAX_PRIORITY - p"] by (simp add: upt_conv_Cons)
  then show ?thesis by (simp only: ready_flat_def map_append concat_append list.map concat.simps) auto
qed

lemma upd_thread_ready_list [simp]: "ready_list (upd_thread t f s) = ready_list s"
  by (simp add: ready_list_def upd_thread_def fun_eq_iff)

lemma upd_thread_ready_wf [simp]: "ready_wf (upd_thread t f s) = ready_wf s"
  by (simp add: ready_list_def ready_wf_def upd_thread_def)

lemma upd_thread_ready [simp]:
  "ready_flat (upd_thread t f s) = ready_flat s"
  "sched_wf (upd_thread t f s) = sched_wf s"
proof -
  show "ready_flat (upd_thread t f s) = ready_flat s" by (simp add: ready_flat_def)
  have "priority_table_ok (upd_thread t f s) = priority_table_ok s"
    by (simp add: priority_table_ok_def upd_thread_def)
  then show "sched_wf (upd_thread t f s) = sched_wf s" by (simp add: sched_wf_def)
qed

lemma set_state_ready [simp]:
  "ready_list (set_state t st s) = ready_list s"
  "ready_flat (set_state t st s) = ready_flat s"
  "sched_wf (set_state t st s) = sched_wf s"
  by (simp_all add: set_state_def)

lemma current_thread_ready [simp]:
  "ready_list (s\<lparr>current_thread := c\<rparr>) = ready_list s"
  "sched_wf (s\<lparr>current_thread := c\<rparr>) = sched_wf s"
  by (simp_all add: ready_list_def ready_wf_def sched_wf_def priority_table_ok_def fun_eq_iff)

text \<open>A running thread that is preempted goes to the back of the queue of its priority.\<close>

lemma Schedule_preempts:
  assumes wf: "sched_wf s" and irql: "current_irql s < DISPATCH_LEVEL"
    and nxt: "dropWhile (\<lambda>u. terminated u s) (ready_flat s) = t # ts" "t \<noteq> c"
    and c: "current_thread s = Some c" "c < length (g_thread_table s)"
      "t_state (g_thread_table s ! c) = THREAD_RUNNING"
    and p: "t_priority (g_thread_table s ! c) = int p" "p < 31"
    and room: "length (ready_flat s) \<le> MAX_THREADS"
  obtains s1 s' where "Schedule s = Some (Inr s')" "current_thread s' = Some t"
    "g_thread_table s' = (g_thread_table s)[c := (g_thread_table s ! c)\<lparr>t_state := THREAD_READY\<rparr>,
        t := (g_thread_table s ! t)\<lparr>t_state := THREAD_RUNNING\<rparr>]"
    "sched_wf s1" "ready_flat s1 = ts" "sched_wf s'"
    "ready_list s' = (ready_list s1)(p := ready_list s1 p @ [c])"
proof -
  from ready.pick_first [OF wf refl] nxt(1) obtain s1 where
    s1: "PickNextThread s = Some (Inr (Some t, s1))" "sched_wf s1" "ready_flat s1 = ts" by auto
  note same = only_ready_same [OF PickNextThread_only [OF s1(1)]]
  have "t \<in> set (ready_flat s)" using nxt(1) by (metis list.set_intros(1) set_dropWhileD)
  then have tl: "t < length (g_thread_table s)"
    using wf by (auto simp: ready_flat_def sched_wf_def ready_wf_def)
  have "length (t # ts) \<le> length (ready_flat s)"
    using length_dropWhile_le [of "\<lambda>u. terminated u s" "ready_flat s"] nxt(1) by simp
  then have "length (ready_list s1 p) < MAX_THREADS"
    using ready_list_le_flat [of p s1] s1(3) p(2) room by simp
  moreover have "ready_wf (set_state c THREAD_READY s1)"
    using s1(2) by (simp add: sched_wf_def set_state_def)
  moreover have "get_thread c (set_state c THREAD_READY s1)
      = Inr ((g_thread_table s ! c)\<lparr>t_state := THREAD_READY\<rparr>)"
    using c(2) same by (simp add: get_thread_def set_state_def upd_thread_def)
  ultimately have pre: "ready_wf (set_state c THREAD_READY s1)" "get_thread c (set_state c THREAD_READY s1)
      = Inr ((g_thread_table s ! c)\<lparr>t_state := THREAD_READY\<rparr>)"
    "t_priority ((g_thread_table s ! c)\<lparr>t_state := THREAD_READY\<rparr>) = int p" "p < MAX_PRIORITY"
    "length (ready_list (set_state c THREAD_READY s1) p) < MAX_THREADS"
    using p by simp_all
  obtain s2 q b where
    s2: "ReadyThread c (set_state c THREAD_READY s1) = Inr s2"
      "s2 = set_ready p q b (set_state c THREAD_READY s1)" "ready_wf s2"
      "ready_list s2 = (ready_list s1)(p := ready_list s1 p @ [c])"
    using ReadyThread_append [OF pre] by (metis set_state_ready(1))
  let ?s' = "(set_state t THREAD_RUNNING s2)\<lparr>current_thread := Some t\<rparr>"
  have table: "g_thread_table s2 = (g_thread_table s)[c := (g_thread_table s ! c)\<lparr>t_state := THREAD_READY\<rparr>]"
    using s2(2) same by (simp add: set_state_def upd_thread_def)
  have "sched_wf s2"
    using s1(2) s2(2-4) p(2) by (simp add: sched_wf_def priority_table_ok_def set_state_def upd_thread_def)
  moreover have "Schedule s = Some (Inr ?s')"
    using irql c s1 s2(1) same nxt(2) tl table
    by (simp add: Schedule_def get_thread_def not_le)
  moreover have "ready_list ?s' = (ready_list s1)(p := ready_list s1 p @ [c])"
    using s2(4) by simp
  ultimately show thesis
    using s1 table nxt(2) tl
    by (intro that [of ?s' s1]) (simp_all, simp add: set_state_def upd_thread_def)
qed

end
