(* ===== verification/BK_Objects.thy ===== *)
theory BK_Objects
  imports BK_State
begin

text \<open>
  Reference-counted kernel objects and handle tables of \<^verbatim>\<open>BLUE_KERNEL/BlueKernel_lvl3.c\<close>. The
  lemmas give the effect of each operation on every branch: an object dies exactly when its
  count reaches zero, a handle is the first free slot, and inserting, looking up and closing a
  handle fit together.
\<close>

section \<open>Operations\<close>

fun ob_header :: "KOBJECT_PTR \<Rightarrow> kernel \<Rightarrow> KOBJECT res" where
  "ob_header (MutexObj m) s = bnd (get_mutex m s) (\<lambda>mx. Inr (m_header mx))"
| "ob_header (EventObj e) s = bnd (get_event e s) (\<lambda>ev. Inr (e_header ev))"

fun ob_set_count :: "KOBJECT_PTR \<Rightarrow> int \<Rightarrow> kernel \<Rightarrow> kernel" where
  "ob_set_count (MutexObj m) n s =
     upd_mutex m (\<lambda>mx. mx\<lparr>m_header := (m_header mx)\<lparr>ref_count := n\<rparr>\<rparr>) s"
| "ob_set_count (EventObj e) n s =
     upd_event e (\<lambda>ev. ev\<lparr>e_header := (e_header ev)\<lparr>ref_count := n\<rparr>\<rparr>) s"

text \<open>\<^verbatim>\<open>free\<close> gives a mutex back; an event is a variable, which must not be freed.\<close>

fun ob_free :: "KOBJECT_PTR \<Rightarrow> kernel \<Rightarrow> kernel res" where
  "ob_free (MutexObj m) s = Inr (s\<lparr>g_mutexes := (g_mutexes s)[m := None]\<rparr>)"
| "ob_free (EventObj e) s = Inl (Undefined ''free of a variable'')"

definition ObReferenceObject :: "KOBJECT_PTR \<Rightarrow> kernel \<Rightarrow> kernel res" where
  "ObReferenceObject obj s =
     bnd (ob_header obj s) (\<lambda>h. Inr (ob_set_count obj (ref_count h + 1) s))"

definition ObDereferenceObject :: "KOBJECT_PTR \<Rightarrow> kernel \<Rightarrow> kernel res" where
  "ObDereferenceObject obj s =
     bnd (ob_header obj s) (\<lambda>h.
       let s1 = ob_set_count obj (ref_count h - 1) s
       in if ref_count h - 1 = 0 then ob_free obj s1 else Inr s1)"

definition set_handle :: "nat \<Rightarrow> nat \<Rightarrow> KOBJECT_PTR option \<Rightarrow> kernel \<Rightarrow> kernel" where
  "set_handle p h obj =
     upd_process p (\<lambda>pr. pr\<lparr>p_handle_table := (p_handle_table pr)[h := obj]\<rparr>)"

definition ObInsertHandle :: "nat \<Rightarrow> KOBJECT_PTR \<Rightarrow> kernel \<Rightarrow> (int \<times> kernel) res" where
  "ObInsertHandle process obj s = bnd (get_process process s) (\<lambda>pr.
     case find (\<lambda>i. p_handle_table pr ! i = None) [0..<MAX_HANDLES] of
       None \<Rightarrow> Inl (Bugcheck ''Handle table full'')
     | Some i \<Rightarrow> bnd (ObReferenceObject obj (set_handle process i (Some obj) s))
                  (\<lambda>s1. Inr (int i, s1)))"

definition ObReferenceObjectByHandle ::
    "nat \<Rightarrow> int \<Rightarrow> kernel \<Rightarrow> (KOBJECT_PTR option \<times> kernel) res" where
  "ObReferenceObjectByHandle process h s =
     (if h < 0 \<or> h \<ge> int MAX_HANDLES then Inr (None, s)
      else bnd (get_process process s) (\<lambda>pr.
        case p_handle_table pr ! nat h of
          None \<Rightarrow> Inr (None, s)
        | Some obj \<Rightarrow> bnd (ObReferenceObject obj s) (\<lambda>s1. Inr (Some obj, s1))))"

definition ObCloseHandle :: "nat \<Rightarrow> int \<Rightarrow> kernel \<Rightarrow> kernel res" where
  "ObCloseHandle process h s =
     (if h < 0 \<or> h \<ge> int MAX_HANDLES then Inr s
      else bnd (get_process process s) (\<lambda>pr.
        case p_handle_table pr ! nat h of
          None \<Rightarrow> Inr s
        | Some obj \<Rightarrow> ObDereferenceObject obj (set_handle process (nat h) None s)))"

text \<open>
  \<open>DestroyProcess\<close> drops every handle in index order. The loop reads the table of the state
  it has reached.
\<close>

fun destroy_handles :: "nat \<Rightarrow> nat list \<Rightarrow> kernel \<Rightarrow> kernel res" where
  "destroy_handles p [] s = Inr s"
| "destroy_handles p (i # is) s = bnd (get_process p s) (\<lambda>pr.
     case p_handle_table pr ! i of
       None \<Rightarrow> destroy_handles p is s
     | Some obj \<Rightarrow> bnd (ObDereferenceObject obj s)
                    (\<lambda>s1. destroy_handles p is (set_handle p i None s1)))"

definition DestroyProcess :: "nat \<Rightarrow> kernel \<Rightarrow> kernel res" where
  "DestroyProcess p s = bnd (destroy_handles p [0..<MAX_HANDLES] s)
     (\<lambda>s1. Inr (upd_process p (\<lambda>pr. pr\<lparr>p_exist := False\<rparr>) s1))"


section \<open>Reference counts\<close>

text \<open>The count of a live object; \<open>None\<close> for one that does not exist (any more).\<close>

definition ob_count :: "KOBJECT_PTR \<Rightarrow> kernel \<Rightarrow> int option" where
  "ob_count obj s = (case ob_header obj s of Inl e \<Rightarrow> None | Inr h \<Rightarrow> Some (ref_count h))"

fun is_variable :: "KOBJECT_PTR \<Rightarrow> bool" where
  "is_variable (MutexObj m) = False"
| "is_variable (EventObj e) = True"

lemma ob_count_MutexObj:
  "ob_count (MutexObj m) s = (if m < length (g_mutexes s)
     then map_option (\<lambda>mx. ref_count (m_header mx)) (g_mutexes s ! m) else None)"
  by (simp add: ob_count_def get_mutex_def aread_def split: option.split)

lemma ob_count_EventObj:
  "ob_count (EventObj e) s = (if e < length (g_events s)
     then Some (ref_count (e_header (g_events s ! e))) else None)"
  by (simp add: ob_count_def get_event_def aread_def)

lemmas ob_counts = ob_count_MutexObj ob_count_EventObj

lemma ob_count_header: "ob_count obj s = Some n \<longleftrightarrow> (\<exists>h. ob_header obj s = Inr h \<and> ref_count h = n)"
  by (auto simp: ob_count_def split: sum.splits)

lemma ob_count_set [simp]:
  "ob_count obj s = Some n \<Longrightarrow>
   ob_count obj' (ob_set_count obj k s) = (if obj' = obj then Some k else ob_count obj' s)"
  by (cases obj; cases obj') (auto simp: ob_counts upd_mutex_def upd_event_def split: if_splits)

lemma ob_count_free_mutex:
  "ob_count obj' (s\<lparr>g_mutexes := (g_mutexes s)[m := None]\<rparr>)
   = (if obj' = MutexObj m then None else ob_count obj' s)"
  by (cases obj') (auto simp: ob_counts)

lemma process_table_ob [simp]:
  "process_table (ob_set_count obj k s) = process_table s"
  by (cases obj) (simp_all add: upd_mutex_def upd_event_def)

lemma ob_set_count_twice:
  "ob_header obj s = Inr h \<Longrightarrow> ob_set_count obj (ref_count h) (ob_set_count obj k s) = s"
  by (cases obj) (auto simp: upd_mutex_def upd_event_def res_simps nth_list_update
      intro!: kernel.equality list_update_same_conv [THEN iffD2])

lemma ObReference_count:
  assumes "ob_count obj s = Some n"
  shows "\<exists>s'. ObReferenceObject obj s = Inr s' \<and> s' = ob_set_count obj (n + 1) s"
  using assms by (auto simp: ObReferenceObject_def ob_count_header)

text \<open>
  Dropping a reference to a live object works, and kills it exactly when the reference was the
  last one; other objects and the handle tables stay as they are.
\<close>

lemma ObDereference_count:
  assumes "ob_count obj s = Some n" "is_variable obj \<Longrightarrow> n \<noteq> 1"
  obtains s' where "ObDereferenceObject obj s = Inr s'"
    "ob_count obj s' = (if n = 1 then None else Some (n - 1))"
    "\<And>obj'. obj' \<noteq> obj \<Longrightarrow> ob_count obj' s' = ob_count obj' s"
    "process_table s' = process_table s"
proof (cases "n = 1")
  case True
  with assms obtain m where m: "obj = MutexObj m" by (cases obj) auto
  have "ob_count (MutexObj m) (s'\<lparr>g_mutexes := (g_mutexes s')[m := None]\<rparr>) = None" for s'
    by (simp add: ob_count_free_mutex)
  with True m assms show ?thesis
    by (intro that [of "(ob_set_count obj 0 s)\<lparr>g_mutexes :=
          (g_mutexes (ob_set_count obj 0 s))[m := None]\<rparr>"])
      (auto simp: ObDereferenceObject_def Let_def ob_count_header ob_count_free_mutex simp del: ob_set_count.simps)
next
  case False
  with assms show ?thesis
    by (intro that [of "ob_set_count obj (n - 1) s"])
      (auto simp: ObDereferenceObject_def Let_def ob_count_header)
qed

text \<open>A reference taken and dropped again leaves no trace.\<close>

lemma ob_header_set:
  "ob_header obj s = Inr h \<Longrightarrow> ob_header obj (ob_set_count obj k s) = Inr (h\<lparr>ref_count := k\<rparr>)"
  by (cases obj) (auto simp: upd_mutex_def upd_event_def res_simps get_mutex_def split: option.splits)

lemma reference_dereference:
  assumes "ob_header obj s = Inr h" "ref_count h \<noteq> 0"
  shows "bnd (ObReferenceObject obj s) (ObDereferenceObject obj) = Inr s"
  using assms ob_set_count_twice [OF assms(1)]
  by (simp add: ObReferenceObject_def ObDereferenceObject_def ob_header_set Let_def)

section \<open>Handles\<close>

lemma set_handle_ob [simp]:
  "ob_header obj (set_handle p i x s) = ob_header obj s"
  "ob_count obj (set_handle p i x s) = ob_count obj s"
  "ob_set_count obj k (set_handle p i x s) = set_handle p i x (ob_set_count obj k s)"
  by (cases obj; simp add: ob_count_def set_handle_def upd_process_def get_mutex_def get_event_def
      upd_mutex_def upd_event_def)+

lemma find_upt_least:
  "find P [0..<n] = Some i \<Longrightarrow> i < n \<and> P i \<and> (\<forall>j < i. \<not> P j)"
  by (auto simp: find_Some_iff)

definition handle_slot :: "nat \<Rightarrow> nat \<Rightarrow> kernel \<Rightarrow> KOBJECT_PTR option" where
  "handle_slot p i s = p_handle_table (process_table s ! p) ! i"

definition handles_wf :: "nat \<Rightarrow> kernel \<Rightarrow> bool" where
  "handles_wf p s \<longleftrightarrow> p < length (process_table s)
     \<and> length (p_handle_table (process_table s ! p)) = MAX_HANDLES"

lemma handle_slot_set:
  "handles_wf p s \<Longrightarrow> i < MAX_HANDLES \<Longrightarrow>
   handle_slot p j (set_handle p i x s) = (if j = i then x else handle_slot p j s)"
  by (auto simp: handle_slot_def handles_wf_def set_handle_def upd_process_def nth_list_update)

lemma handles_wf_set [simp]: "handles_wf p (set_handle p i x s) = handles_wf p s"
  by (auto simp: handles_wf_def set_handle_def upd_process_def nth_list_update)

lemma handle_slot_count [simp]:
  "handle_slot p i (ob_set_count obj k s) = handle_slot p i s"
  "handles_wf p (ob_set_count obj k s) = handles_wf p s"
  by (simp_all add: handle_slot_def handles_wf_def)

lemma set_handle_same:
  "handles_wf p s \<Longrightarrow> handle_slot p i s = x \<Longrightarrow> i < MAX_HANDLES
    \<Longrightarrow> set_handle p i x (set_handle p i y s) = s"
  by (auto simp: handles_wf_def handle_slot_def set_handle_def upd_process_def nth_list_update
      intro!: kernel.equality list_update_same_conv [THEN iffD2])

lemma set_handle_twice: "set_handle p i x (set_handle p i y s) = set_handle p i x s"
  by (cases "p < length (process_table s)")
    (simp_all add: set_handle_def upd_process_def list_update_beyond)

lemma set_handle_id:
  "handles_wf p s \<Longrightarrow> handle_slot p i s = x \<Longrightarrow> i < MAX_HANDLES \<Longrightarrow> set_handle p i x s = s"
  using set_handle_same [of p s i x x] set_handle_twice [of p i x x s] by simp

lemma get_process_slot [simp]:
  "handles_wf p s \<Longrightarrow> bnd (get_process p s) (\<lambda>pr. f (p_handle_table pr ! i)) = f (handle_slot p i s)"
  by (simp add: get_process_def handles_wf_def handle_slot_def)

lemma ObInsertHandle_eq:
  "handles_wf p s \<Longrightarrow> ObInsertHandle p obj s =
    (case find (\<lambda>i. handle_slot p i s = None) [0..<MAX_HANDLES] of
       None \<Rightarrow> Inl (Bugcheck ''Handle table full'')
     | Some i \<Rightarrow> bnd (ObReferenceObject obj (set_handle p i (Some obj) s))
                  (\<lambda>s1. Inr (int i, s1)))"
  by (simp add: ObInsertHandle_def get_process_def handles_wf_def handle_slot_def)

lemma ObCloseHandle_eq:
  "handles_wf p s \<Longrightarrow> i < MAX_HANDLES \<Longrightarrow> ObCloseHandle p (int i) s =
    (case handle_slot p i s of None \<Rightarrow> Inr s
     | Some obj \<Rightarrow> ObDereferenceObject obj (set_handle p i None s))"
  by (simp add: ObCloseHandle_def get_process_def handles_wf_def handle_slot_def split: option.split)

lemma ObReferenceObjectByHandle_eq:
  "handles_wf p s \<Longrightarrow> i < MAX_HANDLES \<Longrightarrow> ObReferenceObjectByHandle p (int i) s =
    (case handle_slot p i s of None \<Rightarrow> Inr (None, s)
     | Some obj \<Rightarrow> bnd (ObReferenceObject obj s) (\<lambda>s1. Inr (Some obj, s1)))"
  by (simp add: ObReferenceObjectByHandle_def get_process_def handles_wf_def handle_slot_def)

lemma set_handle_dereference:
  "ob_header obj s = Inr h \<Longrightarrow> ref_count h \<noteq> 0 \<Longrightarrow>
   ObDereferenceObject obj (set_handle p i x (ob_set_count obj (ref_count h + 1) s))
   = Inr (set_handle p i x s)"
  using ob_set_count_twice [of obj s h]
  by (simp add: ObDereferenceObject_def ob_header_set Let_def)

lemma ObInsertHandle_fresh:
  assumes wf: "handles_wf p s" and obj: "ob_header obj s = Inr h"
    and ok: "ObInsertHandle p obj s = Inr (hnd, s1)"
  obtains i where "hnd = int i" "i < MAX_HANDLES" "handle_slot p i s = None"
    "\<And>j. j < i \<Longrightarrow> handle_slot p j s \<noteq> None"
    "s1 = set_handle p i (Some obj) (ob_set_count obj (ref_count h + 1) s)"
proof -
  from ok wf obtain i where
    i: "find (\<lambda>i. handle_slot p i s = None) [0..<MAX_HANDLES] = Some i" "hnd = int i"
      "s1 = set_handle p i (Some obj) (ob_set_count obj (ref_count h + 1) s)"
    by (auto simp: ObInsertHandle_eq ObReferenceObject_def obj res_simps split: option.splits)
  from find_upt_least [OF i(1)] i(2,3) show thesis by (intro that) auto
qed

section \<open>Destroying a process\<close>

text \<open>How many of the slots \<open>is\<close> hold a handle to \<open>obj\<close>.\<close>

definition handle_count :: "nat \<Rightarrow> nat list \<Rightarrow> KOBJECT_PTR \<Rightarrow> kernel \<Rightarrow> int" where
  "handle_count p is obj s = int (length (filter (\<lambda>i. handle_slot p i s = Some obj) is))"

text \<open>Every handle in these slots accounts for one reference of a live object.\<close>

definition refs_cover :: "nat \<Rightarrow> nat list \<Rightarrow> kernel \<Rightarrow> bool" where
  "refs_cover p is s \<longleftrightarrow> (\<forall>obj. handle_count p is obj s > 0 \<longrightarrow>
     (\<exists>n. ob_count obj s = Some n \<and> handle_count p is obj s \<le> n
        \<and> (is_variable obj \<longrightarrow> handle_count p is obj s < n)))"

definition released :: "nat \<Rightarrow> nat list \<Rightarrow> kernel \<Rightarrow> KOBJECT_PTR \<Rightarrow> int option" where
  "released p is s obj =
     (if handle_count p is obj s = 0 then ob_count obj s
      else case ob_count obj s of None \<Rightarrow> None
        | Some n \<Rightarrow> if n = handle_count p is obj s then None
                    else Some (n - handle_count p is obj s))"

lemma handle_count_cong:
  "(\<And>i. i \<in> set is \<Longrightarrow> handle_slot p i s' = handle_slot p i s) \<Longrightarrow>
   handle_count p is obj s' = handle_count p is obj s"
  unfolding handle_count_def by (metis (mono_tags, lifting) filter_cong)

lemma handle_count_Cons:
  "handle_count p (i # is) obj s =
     handle_count p is obj s + (if handle_slot p i s = Some obj then 1 else 0)"
  by (simp add: handle_count_def)

lemma handle_count_nonneg [simp]: "0 \<le> handle_count p is obj s"
  by (simp add: handle_count_def)

lemma destroy_handles_Cons:
  "handles_wf p s \<Longrightarrow> destroy_handles p (i # is) s =
    (case handle_slot p i s of None \<Rightarrow> destroy_handles p is s
     | Some obj \<Rightarrow> bnd (ObDereferenceObject obj s)
         (\<lambda>s1. destroy_handles p is (set_handle p i None s1)))"
  by (simp add: get_process_def handles_wf_def handle_slot_def)

lemma destroy_handles_release:
  assumes "handles_wf p s" "distinct is" "set is \<subseteq> {..<MAX_HANDLES}" "refs_cover p is s"
  shows "\<exists>s'. destroy_handles p is s = Inr s' \<and> handles_wf p s'
    \<and> (\<forall>i. handle_slot p i s' = (if i \<in> set is then None else handle_slot p i s))
    \<and> (\<forall>obj. ob_count obj s' = released p is s obj)"
  using assms
proof (induction "is" arbitrary: s)
  case Nil
  then show ?case by (simp add: released_def handle_count_def)
next
  case (Cons i "is")
  note wf = Cons.prems(1)
  show ?case
  proof (cases "handle_slot p i s")
    case None
    then have c: "handle_count p (i # is) obj s = handle_count p is obj s" for obj
      by (simp add: handle_count_Cons)
    have "refs_cover p is s" using Cons.prems(4) by (simp add: refs_cover_def c)
    moreover have "released p (i # is) s obj = released p is s obj" for obj
      by (simp only: released_def c)
    ultimately show ?thesis
      using Cons.IH [OF wf] Cons.prems None
      by (auto simp: destroy_handles_Cons [OF wf] simp del: destroy_handles.simps)
  next
    case (Some ob)
    have c: "handle_count p (i # is) obj s =
        handle_count p is obj s + (if obj = ob then 1 else 0)" for obj
      using Some by (simp add: handle_count_Cons)
    have ip: "i < MAX_HANDLES" "i \<notin> set is" using Cons.prems by auto
    have pos: "0 < handle_count p (i # is) ob s"
      using c [of ob] handle_count_nonneg [of p "is" ob s] by simp
    obtain n where n: "ob_count ob s = Some n"
        "handle_count p is ob s + 1 \<le> n" "is_variable ob \<Longrightarrow> handle_count p is ob s + 1 < n"
      using Cons.prems(4) [unfolded refs_cover_def, rule_format, OF pos] c [of ob] by auto
    have nz: "is_variable ob \<Longrightarrow> n \<noteq> 1" using n(3) handle_count_nonneg [of p "is" ob s] by force
    from ObDereference_count [OF n(1) nz] obtain s1 where
      s1: "ObDereferenceObject ob s = Inr s1"
        "ob_count ob s1 = (if n = 1 then None else Some (n - 1))"
        "\<And>obj'. obj' \<noteq> ob \<Longrightarrow> ob_count obj' s1 = ob_count obj' s"
        "process_table s1 = process_table s" by blast
    let ?s2 = "set_handle p i None s1"
    have wf1: "handles_wf p s1" and slot1: "\<And>j. handle_slot p j s1 = handle_slot p j s"
      using wf s1(4) by (simp_all add: handles_wf_def handle_slot_def)
    have slot2: "handle_slot p j ?s2 = (if j = i then None else handle_slot p j s)" for j
      using handle_slot_set [OF wf1 ip(1)] slot1 by simp
    have c2: "handle_count p is obj ?s2 = handle_count p is obj s" for obj
      using slot2 ip by (intro handle_count_cong) auto
    have cover: "refs_cover p is ?s2"
      unfolding refs_cover_def
    proof (intro allI impI)
      fix obj assume pos: "0 < handle_count p is obj ?s2"
      then show "\<exists>k. ob_count obj ?s2 = Some k \<and> handle_count p is obj ?s2 \<le> k
          \<and> (is_variable obj \<longrightarrow> handle_count p is obj ?s2 < k)"
        using n s1 Cons.prems(4) [unfolded refs_cover_def, rule_format, of obj] c [of obj] c2 [of obj]
        by (cases "obj = ob") auto
    qed
    from Cons.IH [OF _ _ _ cover] wf1 Cons.prems obtain s' where
      s': "destroy_handles p is ?s2 = Inr s'" "handles_wf p s'"
        "\<And>j. handle_slot p j s' = (if j \<in> set is then None else handle_slot p j ?s2)"
        "\<And>obj. ob_count obj s' = released p is ?s2 obj"
      by auto
    obtain k where k: "handle_count p is ob s = int k" by (simp add: handle_count_def)
    have "released p is ?s2 obj = released p (i # is) s obj" for obj
      unfolding released_def c c2
      using n(1,2) s1(2,3) k
      by (cases "obj = ob") (auto split: option.split)
    with s' slot2 s1(1) Some show ?thesis
      by (auto simp: destroy_handles_Cons [OF wf] simp del: destroy_handles.simps)
  qed
qed

end
