(* ===== verification/BK_Sync.thy ===== *)
theory BK_Sync
  imports BK_Sched BK_Objects
begin

text \<open>
  Wait queues, mutexes with priority inheritance, and events of
  \<^verbatim>\<open>BLUE_KERNEL/BlueKernel_lvl3.c\<close>.
\<close>

section \<open>Wait queues\<close>

text \<open>A \<^verbatim>\<open>WAIT_QUEUE*\<close> is the \<^verbatim>\<open>waiters\<close> field of a mutex or of an event.\<close>

datatype WAIT_PTR = MutexWaiters nat | EventWaiters nat

fun get_wq :: "WAIT_PTR \<Rightarrow> kernel \<Rightarrow> WAIT_QUEUE res" where
  "get_wq (MutexWaiters m) s = bnd (get_mutex m s) (\<lambda>mx. Inr (m_waiters mx))"
| "get_wq (EventWaiters e) s = bnd (get_event e s) (\<lambda>ev. Inr (e_waiters ev))"

fun set_wq :: "WAIT_PTR \<Rightarrow> WAIT_QUEUE \<Rightarrow> kernel \<Rightarrow> kernel" where
  "set_wq (MutexWaiters m) w s = upd_mutex m (\<lambda>mx. mx\<lparr>m_waiters := w\<rparr>) s"
| "set_wq (EventWaiters e) w s = upd_event e (\<lambda>ev. ev\<lparr>e_waiters := w\<rparr>) s"

definition InitWaitQueue :: "WAIT_QUEUE \<Rightarrow> WAIT_QUEUE" where
  "InitWaitQueue q = q\<lparr>wq_count := 0\<rparr>"

definition EnqueueWaiter :: "WAIT_PTR \<Rightarrow> nat \<Rightarrow> kernel \<Rightarrow> kernel res" where
  "EnqueueWaiter q t s = bnd (get_wq q s) (\<lambda>w.
     if wq_count w \<ge> MAX_THREADS then Inl (Bugcheck ''WAIT QUEUE OVERFLOW'')
     else Inr (set_wq q (w\<lparr>wq_threads := (wq_threads w)[wq_count w := Some t],
                           wq_count := wq_count w + 1\<rparr>) s))"

definition wq_priority :: "WAIT_QUEUE \<Rightarrow> nat \<Rightarrow> kernel \<Rightarrow> int res" where
  "wq_priority w i s = bnd (deref (wq_threads w ! i)) (\<lambda>t.
     bnd (get_thread t s) (\<lambda>th. Inr (t_priority th)))"

text \<open>The search loop over \<open>i = 1 .. count - 1\<close>, from the best index so far.\<close>

fun best_index :: "WAIT_QUEUE \<Rightarrow> nat list \<Rightarrow> nat \<Rightarrow> kernel \<Rightarrow> nat res" where
  "best_index w [] best s = Inr best"
| "best_index w (i # is) best s = bnd (wq_priority w i s) (\<lambda>pi.
     bnd (wq_priority w best s) (\<lambda>pb. best_index w is (if pi > pb then i else best) s))"

definition DequeueHighestPriority :: "WAIT_PTR \<Rightarrow> kernel \<Rightarrow> (nat option \<times> kernel) res" where
  "DequeueHighestPriority q s = bnd (get_wq q s) (\<lambda>w.
     if wq_count w = 0 then Inr (None, s)
     else bnd (best_index w [1..<wq_count w] 0 s) (\<lambda>b.
       Inr (wq_threads w ! b,
            set_wq q (w\<lparr>wq_threads := foldl (\<lambda>xs i. xs[i := xs ! (i + 1)]) (wq_threads w)
                                       [b..<wq_count w - 1],
                        wq_count := wq_count w - 1\<rparr>) s)))"

definition BlockCurrentThread :: "WAIT_PTR \<Rightarrow> kernel \<Rightarrow> kernel res" where
  "BlockCurrentThread queue s =
     (if current_irql s \<noteq> PASSIVE_LEVEL then Inl (Bugcheck ''Blocking above PASSIVE_LEVEL'')
      else case current_thread s of None \<Rightarrow> Inr s
      | Some c \<Rightarrow> bnd (get_thread c s) (\<lambda>_.
          bnd (EnqueueWaiter queue c (set_state c THREAD_BLOCKED s)) (\<lambda>s1.
            Inr (s1\<lparr>reschedule_requested := True\<rparr>))))"

section \<open>Mutexes\<close>

text \<open>
  The argument says whether \<^verbatim>\<open>malloc\<close> succeeded. The thread slots of a new mutex are not
  initialised; they are never read below \<open>wq_count\<close>.
\<close>

definition CreateMutexObject :: "bool \<Rightarrow> kernel \<Rightarrow> (nat \<times> kernel) res" where
  "CreateMutexObject malloc_ok s =
     (if \<not> malloc_ok then Inl (Bugcheck ''Out of memory'')
      else Inr (length (g_mutexes s),
        s\<lparr>g_mutexes := g_mutexes s @
            [Some \<lparr>m_header = \<lparr>ob_type = OBJECTTYPE_MUTEX, ref_count = 1\<rparr>,
                   m_locked = False, m_owner = None,
                   m_waiters = InitWaitQueue zero_wait_queue\<rparr>]\<rparr>))"

lemma Validate_Inr: "ValidateReadyQueueInvariant p s = Inr s' \<Longrightarrow> s' = s"
  by (simp add: ValidateReadyQueueInvariant_def Let_def split: if_splits)

lemma ReadyThread_frame:
  assumes "ReadyThread t s = Inr s'"
  shows "\<exists>p q b. s' = set_ready p q b s"
proof -
  from assms obtain p q b where "ValidateReadyQueueInvariant p (set_ready p q b s) = Inr s'"
    unfolding ReadyThread_def Let_def set_ready_fold
    by (elim bnd_InrE) (simp split: if_splits)
  then show ?thesis by (blast dest: Validate_Inr)
qed

lemma RemoveFromReadyQueue_frame:
  assumes "RemoveFromReadyQueue t p s = Inr (r, s')"
  shows "\<exists>p q b. s' = set_ready p q b s"
  using assms unfolding RemoveFromReadyQueue_def Let_def set_ready_fold
  by (elim bnd_InrE) blast

lemma ReinsertReadyThread_table:
  "ReinsertReadyThread t p s = Inr s' \<Longrightarrow> g_thread_table s' = g_thread_table s"
  by (fastforce simp: ReinsertReadyThread_def res_simps
      dest!: ReadyThread_frame RemoveFromReadyQueue_frame split: if_splits)

definition set_priority :: "nat \<Rightarrow> int \<Rightarrow> kernel \<Rightarrow> kernel" where
  "set_priority t p = upd_thread t (\<lambda>th. th\<lparr>t_priority := p\<rparr>)"

definition below :: "int \<Rightarrow> kernel \<Rightarrow> nat set" where
  "below p s = {i. i < length (g_thread_table s) \<and> t_priority (g_thread_table s ! i) < p}"

lemma below_set_priority:
  assumes "get_thread t s = Inr th" "t_priority th < p"
  shows "below p (set_priority t p s) = below p s - {t}" "t \<in> below p s" "finite (below p s)"
  using assms
  by (auto simp: below_def set_priority_def upd_thread_def res_simps nth_list_update)

lemma below_cong: "g_thread_table s' = g_thread_table s \<Longrightarrow> below p s' = below p s"
  by (simp add: below_def)

text \<open>
  The chain of owners may be long, or a cycle: it ends because every call that goes on has just
  raised one more thread to the new priority.
\<close>

function BoostPriorityChain :: "nat option \<Rightarrow> int \<Rightarrow> kernel \<Rightarrow> kernel res" where
  "BoostPriorityChain t newPriority s =
     (case t of None \<Rightarrow> Inr s
      | Some i \<Rightarrow> bnd (get_thread i s) (\<lambda>th.
          if t_priority th \<ge> newPriority then Inr s
          else bnd (if t_state th = THREAD_READY
                    then ReinsertReadyThread i (t_priority th) (set_priority i newPriority s)
                    else Inr (set_priority i newPriority s)) (\<lambda>s2.
            bnd (get_thread i s2) (\<lambda>th2.
            case t_waiting_mutex th2 of None \<Rightarrow> Inr s2
            | Some m \<Rightarrow> bnd (get_mutex m s2) (\<lambda>mx.
                case m_owner mx of None \<Rightarrow> Inr s2
                | Some ow \<Rightarrow> BoostPriorityChain (Some ow) newPriority s2)))))"
  by pat_completeness auto
termination
proof (relation "measure (\<lambda>(t, p, s). card (below p s))")
  fix t p s i th s2 th2 m mx ow
  assume th: "get_thread i s = Inr th" and low: "\<not> p \<le> t_priority th"
    and s2: "(if t_state th = THREAD_READY
         then ReinsertReadyThread i (t_priority th) (set_priority i p s)
         else Inr (set_priority i p s)) = Inr s2"
  have "g_thread_table s2 = g_thread_table (set_priority i p s)"
    using s2 ReinsertReadyThread_table by (auto split: if_splits)
  then have "below p s2 = below p s - {i}"
    using below_set_priority(1) [OF th, of p] low
    by (metis below_cong not_le)
  then show "((Some ow, p, s2), t, p, s) \<in> measure (\<lambda>(t, p, s). card (below p s))"
    using below_set_priority(2,3) [OF th, of p] low card_Diff1_less [of "below p s" i] by simp
qed simp

declare BoostPriorityChain.simps [simp del]


definition AcquireMutex :: "nat \<Rightarrow> kernel \<Rightarrow> kernel res" where
  "AcquireMutex m s =
     (if current_irql s \<noteq> PASSIVE_LEVEL
      then Inl (Bugcheck ''AcquireMutex must occur at PASSIVE_LEVEL'')
      else bnd (get_mutex m s) (\<lambda>mx.
        bnd (deref (current_thread s)) (\<lambda>c. bnd (get_thread c s) (\<lambda>ct.
        if \<not> m_locked mx
        then Inr (upd_thread c (\<lambda>th. th\<lparr>t_owned_mutex := Some m\<rparr>)
                   (upd_mutex m (\<lambda>mx. mx\<lparr>m_locked := True, m_owner := Some c\<rparr>) s))
        else bnd (BoostPriorityChain (m_owner mx) (t_priority ct)
                    (upd_thread c (\<lambda>th. th\<lparr>t_waiting_mutex := Some m\<rparr>) s)) (\<lambda>s1.
             bnd (ObReferenceObject (MutexObj m) s1) (\<lambda>s2.
             BlockCurrentThread (MutexWaiters m) s2))))))"

definition ReleaseMutex :: "nat \<Rightarrow> kernel \<Rightarrow> kernel res" where
  "ReleaseMutex m s =
     (case current_thread s of None \<Rightarrow> Inl (Bugcheck ''No current thread'')
      | Some c \<Rightarrow> bnd (get_mutex m s) (\<lambda>mx.
          if m_owner mx \<noteq> Some c then Inl (Bugcheck ''Mutex released by non-owner'')
          else bnd (get_thread c s) (\<lambda>ct.
            let s1 = upd_thread c (\<lambda>th. th\<lparr>t_priority := t_base_priority th,
                                           t_owned_mutex := None\<rparr>) s
            in if wq_count (m_waiters mx) = 0
               then Inr (upd_mutex m (\<lambda>mx. mx\<lparr>m_locked := False, m_owner := None\<rparr>) s1)
               else bnd (DequeueHighestPriority (MutexWaiters m) s1) (\<lambda>(next, s2).
                 bnd (deref next) (\<lambda>n. bnd (get_thread n s2) (\<lambda>_.
                 bnd (ObDereferenceObject (MutexObj m)
                       (upd_thread n (\<lambda>th. th\<lparr>t_waiting_mutex := None\<rparr>) s2)) (\<lambda>s3.
                 bnd (get_mutex m s3) (\<lambda>_.
                 bnd (ReadyThread n
                       (upd_thread n (\<lambda>th. th\<lparr>t_owned_mutex := Some m, t_state := THREAD_READY\<rparr>)
                         (upd_mutex m (\<lambda>mx. mx\<lparr>m_owner := Some n\<rparr>) s3)))
                   (CheckPreemption n)))))))))"

definition TerminateThread :: "nat \<Rightarrow> kernel \<Rightarrow> kernel res" where
  "TerminateThread t s = bnd (get_thread t s) (\<lambda>th.
     bnd (case t_owned_mutex th of None \<Rightarrow> Inr s
          | Some m \<Rightarrow> bnd (ReleaseMutex m s)
              (\<lambda>s1. Inr (upd_thread t (\<lambda>th. th\<lparr>t_owned_mutex := None\<rparr>) s1))) (\<lambda>s1.
     let s2 = set_state t THREAD_TERMINATED s1
     in Inr (if current_thread s2 = Some t then s2\<lparr>reschedule_requested := True\<rparr> else s2)))"

section \<open>Events\<close>

definition InitEvent :: "nat \<Rightarrow> kernel \<Rightarrow> kernel res" where
  "InitEvent e s = bnd (get_event e s) (\<lambda>_.
     Inr (upd_event e (\<lambda>ev. ev\<lparr>e_header := \<lparr>ob_type = OBJECTTYPE_EVENT, ref_count = 1\<rparr>,
       e_signaled := False, e_waiters := InitWaitQueue (e_waiters ev)\<rparr>) s))"

definition WaitEvent :: "nat \<Rightarrow> kernel \<Rightarrow> kernel res" where
  "WaitEvent e s =
     (if current_irql s \<noteq> PASSIVE_LEVEL then Inl (Bugcheck ''Wait above PASSIVE'')
      else bnd (get_event e s) (\<lambda>ev.
        if e_signaled ev then Inr (upd_event e (\<lambda>ev. ev\<lparr>e_signaled := False\<rparr>) s)
        else BlockCurrentThread (EventWaiters e) s))"

definition WakeOne :: "WAIT_PTR \<Rightarrow> kernel \<Rightarrow> kernel res" where
  "WakeOne queue s =
     (if current_irql s \<noteq> DISPATCH_LEVEL
      then Inl (Bugcheck ''Wake must occur at DISPATCH_LEVEL'')
      else bnd (get_wq queue s) (\<lambda>w.
        if wq_count w = 0 then Inr s
        else bnd (DequeueHighestPriority queue s) (\<lambda>(t, s1).
          bnd (deref t) (\<lambda>t. bnd (get_thread t s1) (\<lambda>_.
            bnd (ReadyThread t (set_state t THREAD_READY s1)) (CheckPreemption t))))))"

definition SignalEvent :: "nat \<Rightarrow> kernel \<Rightarrow> kernel res" where
  "SignalEvent e s =
     (if current_irql s > DISPATCH_LEVEL
      then Inl (Bugcheck ''Signal must occur at DISPATCH_LEVEL'')
      else bnd (get_event e s) (\<lambda>ev.
        let s1 = upd_event e (\<lambda>ev. ev\<lparr>e_signaled := True\<rparr>) s
        in if wq_count (e_waiters ev) > 0
           then bnd (WakeOne (EventWaiters e) s1)
                  (\<lambda>s2. Inr (upd_event e (\<lambda>ev. ev\<lparr>e_signaled := False\<rparr>) s2))
           else Inr s1))"

section \<open>Priority inversion\<close>

text \<open>
  The detector only prints; its result is the report it prints, the blocked thread, the owner
  and the thread in between, for the first pair the nested loops reach.
\<close>

definition inversion_medium :: "kernel \<Rightarrow> nat \<Rightarrow> THREAD \<Rightarrow> nat option" where
  "inversion_medium s blocked owner =
     find (\<lambda>j. let other = g_thread_table s ! j
       in (t_state other = THREAD_READY \<or> t_state other = THREAD_RUNNING)
          \<and> t_priority other > t_priority owner \<and> j \<noteq> blocked) [0..<g_thread_count s]"

fun inversion_scan :: "nat \<Rightarrow> kernel \<Rightarrow> nat list \<Rightarrow> (nat \<times> nat \<times> nat) option res" where
  "inversion_scan m s [] = Inr None"
| "inversion_scan m s (i # is) =
     (let blocked = g_thread_table s ! i
      in if t_state blocked \<noteq> THREAD_BLOCKED then inversion_scan m s is
         else bnd (get_mutex m s) (\<lambda>mx.
           case m_owner mx of
             None \<Rightarrow> inversion_scan m s is
           | Some ow \<Rightarrow> bnd (get_thread ow s) (\<lambda>owner.
               if t_priority blocked > t_priority owner
               then (case inversion_medium s i owner of
                       Some j \<Rightarrow> Inr (Some (i, ow, j)) | None \<Rightarrow> inversion_scan m s is)
               else inversion_scan m s is)))"

definition DetectPriorityInversion :: "nat \<Rightarrow> kernel \<Rightarrow> (nat \<times> nat \<times> nat) option res" where
  "DetectPriorityInversion m s = inversion_scan m s [0..<g_thread_count s]"

end
