(* ===== verification/BK_Inherit.thy ===== *)
theory BK_Inherit
  imports BK_Sync
begin

text \<open>
  Facts about the wait queues and the priority inheritance of
  \<^verbatim>\<open>BLUE_KERNEL/BlueKernel_lvl3.c\<close>: a waiter is taken by priority and then by arrival, a boost only
  raises priorities, and taking a mutex keeps the inheritance invariant \<open>inherit_ok\<close>: the owner
  of a mutex runs at least at the priority of every thread that waits for it.
\<close>

section \<open>Wait queues as lists\<close>

definition wq_list :: "WAIT_QUEUE \<Rightarrow> nat list" where
  "wq_list w = map the (take (wq_count w) (wq_threads w))"

definition wq_wf :: "kernel \<Rightarrow> WAIT_QUEUE \<Rightarrow> bool" where
  "wq_wf s w \<longleftrightarrow> length (wq_threads w) = MAX_THREADS \<and> wq_count w \<le> MAX_THREADS
     \<and> None \<notin> set (take (wq_count w) (wq_threads w))
     \<and> (\<forall>t \<in> set (wq_list w). t < length (g_thread_table s))"

definition prio :: "kernel \<Rightarrow> nat \<Rightarrow> int" where
  "prio s t = t_priority (g_thread_table s ! t)"

lemma wq_list_length: "wq_wf s w \<Longrightarrow> length (wq_list w) = wq_count w"
  by (simp add: wq_wf_def wq_list_def)

lemma wq_slot:
  assumes "wq_wf s w" "i < wq_count w"
  shows "wq_threads w ! i = Some (wq_list w ! i)" "wq_list w ! i < length (g_thread_table s)"
proof -
  have "wq_threads w ! i \<in> set (take (wq_count w) (wq_threads w))"
    using assms by (auto simp: wq_wf_def in_set_conv_nth)
  with assms have "wq_threads w ! i \<noteq> None" by (metis wq_wf_def)
  with assms show "wq_threads w ! i = Some (wq_list w ! i)"
    by (auto simp: wq_wf_def wq_list_def)
  show "wq_list w ! i < length (g_thread_table s)"
    using assms wq_list_length [OF assms(1)] by (auto simp: wq_wf_def)
qed

lemma wq_priority_eq:
  "wq_wf s w \<Longrightarrow> i < wq_count w \<Longrightarrow> wq_priority w i s = Inr (prio s (wq_list w ! i))"
  by (simp add: wq_priority_def wq_slot get_thread_def prio_def)

text \<open>The first index of a maximal key.\<close>

definition first_max :: "('a \<Rightarrow> int) \<Rightarrow> 'a list \<Rightarrow> nat \<Rightarrow> bool" where
  "first_max f xs b \<longleftrightarrow> b < length xs \<and> (\<forall>i < length xs. f (xs ! i) \<le> f (xs ! b))
     \<and> (\<forall>i < b. f (xs ! i) < f (xs ! b))"

lemma first_max_snoc:
  assumes "first_max f xs b"
  shows "first_max f (xs @ [x]) (if f x > f (xs ! b) then length xs else b)"
  using assms by (auto simp: first_max_def nth_append less_Suc_eq)

lemma best_index_first_max:
  assumes wf: "wq_wf s w"
  shows "n \<le> wq_count w \<Longrightarrow> 0 < k \<Longrightarrow> k \<le> n \<Longrightarrow> first_max (prio s) (take k (wq_list w)) b \<Longrightarrow>
    \<exists>b'. best_index w [k..<n] b s = Inr b' \<and> first_max (prio s) (take n (wq_list w)) b'"
proof (induction "n - k" arbitrary: k b)
  case 0
  then show ?case by simp
next
  case (Suc d)
  then have k: "k < n" by simp
  have len: "n \<le> length (wq_list w)" using Suc.prems wq_list_length [OF wf] by simp
  have b: "b < k" using Suc.prems by (simp add: first_max_def)
  have "take (Suc k) (wq_list w) = take k (wq_list w) @ [wq_list w ! k]"
    using k len by (simp add: take_Suc_conv_app_nth)
  with first_max_snoc [OF Suc.prems(4), of "wq_list w ! k"]
  have "first_max (prio s) (take (Suc k) (wq_list w))
      (if prio s (wq_list w ! k) > prio s (wq_list w ! b) then k else b)"
    using b k len by (simp add: min_def split: if_splits)
  from Suc.hyps(1) [OF _ Suc.prems(1) _ _ this] Suc.hyps(2) k show ?case
    using Suc.prems(1) b by (simp add: upt_conv_Cons wq_priority_eq [OF wf])
qed

lemma foldl_shift_down:
  "b \<le> n \<Longrightarrow> n < length xs \<Longrightarrow>
   length (foldl (\<lambda>ys i. ys[i := ys ! (i + 1)]) xs [b..<n]) = length xs
   \<and> (\<forall>j < length xs. foldl (\<lambda>ys i. ys[i := ys ! (i + 1)]) xs [b..<n] ! j
       = (if b \<le> j \<and> j < n then xs ! Suc j else xs ! j))"
proof (induction n)
  case (Suc n)
  then show ?case by (cases "b = Suc n") (auto simp: nth_list_update less_Suc_eq)
qed simp

lemma take_shift_down:
  assumes "b < n" "n \<le> length xs"
  shows "take (n - 1) (foldl (\<lambda>ys i. ys[i := ys ! (i + 1)]) xs [b..<n - 1])
    = take b (take n xs) @ drop (Suc b) (take n xs)"
proof (rule nth_equalityI)
  have k: "b \<le> n - 1" "n - 1 < length xs" using assms by simp_all
  note sh = foldl_shift_down [OF k]
  show "length (take (n - 1) (foldl (\<lambda>ys i. ys[i := ys ! (i + 1)]) xs [b..<n - 1]))
      = length (take b (take n xs) @ drop (Suc b) (take n xs))"
    using sh assms by simp
  fix i assume "i < length (take (n - 1) (foldl (\<lambda>ys i. ys[i := ys ! (i + 1)]) xs [b..<n - 1]))"
  then have i: "i < n - 1" by simp
  with sh assms show "take (n - 1) (foldl (\<lambda>ys i. ys[i := ys ! (i + 1)]) xs [b..<n - 1]) ! i
      = (take b (take n xs) @ drop (Suc b) (take n xs)) ! i"
    by (simp add: nth_append)
qed

text \<open>The waiter taken is the first of the highest priority; the others keep their order.\<close>

lemma DequeueHighestPriority_best:
  assumes q: "get_wq q s = Inr w" and wf: "wq_wf s w" and ne: "wq_list w \<noteq> []"
  obtains b w' where "first_max (prio s) (wq_list w) b"
    "DequeueHighestPriority q s = Inr (Some (wq_list w ! b), set_wq q w' s)"
    "wq_wf s w'" "wq_list w' = take b (wq_list w) @ drop (Suc b) (wq_list w)"
proof -
  have n: "0 < wq_count w" using ne wq_list_length [OF wf] by (metis length_greater_0_conv)
  have "first_max (prio s) (take 1 (wq_list w)) 0"
    using ne by (cases "wq_list w") (simp_all add: first_max_def)
  from best_index_first_max [OF wf order_refl _ _ this] n obtain b where
    b: "best_index w [1..<wq_count w] 0 s = Inr b" "first_max (prio s) (take (wq_count w) (wq_list w)) b"
    by auto
  have fm: "first_max (prio s) (wq_list w) b"
    using b(2) wq_list_length [OF wf] by simp
  then have bn: "b < wq_count w" using wq_list_length [OF wf] by (simp add: first_max_def)
  define w' where "w' = w\<lparr>wq_threads := foldl (\<lambda>xs i. xs[i := xs ! (i + 1)]) (wq_threads w)
      [b..<wq_count w - 1], wq_count := wq_count w - 1\<rparr>"
  have len: "wq_count w \<le> length (wq_threads w)" using wf by (simp add: wq_wf_def)
  note tk = take_shift_down [OF bn len]
  have l: "wq_list w' = take b (wq_list w) @ drop (Suc b) (wq_list w)"
    using tk by (simp add: wq_list_def w'_def take_map drop_map)
  have "length (wq_threads w') = length (wq_threads w)"
    using foldl_shift_down [of b "wq_count w - 1" "wq_threads w"] bn len n by (simp add: w'_def)
  moreover have "set (wq_list w') \<subseteq> set (wq_list w)"
    using l by (auto dest: in_set_takeD in_set_dropD)
  moreover have "set (take (wq_count w') (wq_threads w')) \<subseteq> set (take (wq_count w) (wq_threads w))"
    using tk set_take_subset [of b "take (wq_count w) (wq_threads w)"]
      set_drop_subset [of "Suc b" "take (wq_count w) (wq_threads w)"]
    by (simp add: w'_def del: take_take)
  ultimately have "wq_wf s w'"
    using wf by (auto simp: wq_wf_def w'_def)
  moreover have "DequeueHighestPriority q s = Inr (Some (wq_list w ! b), set_wq q w' s)"
    using q n b(1) wq_slot(1) [OF wf bn] by (simp add: DequeueHighestPriority_def w'_def)
  ultimately show thesis using that fm l by blast
qed

lemma DequeueHighestPriority_empty:
  "get_wq q s = Inr w \<Longrightarrow> wq_count w = 0 \<Longrightarrow> DequeueHighestPriority q s = Inr (None, s)"
  by (simp add: DequeueHighestPriority_def)

lemma wq_enqueue:
  assumes "wq_wf s w" "wq_count w < MAX_THREADS" "t < length (g_thread_table s)"
  defines "w' \<equiv> w\<lparr>wq_threads := (wq_threads w)[wq_count w := Some t], wq_count := wq_count w + 1\<rparr>"
  shows "wq_wf s w'" "wq_list w' = wq_list w @ [t]"
  using assms by (auto simp: wq_wf_def wq_list_def take_Suc_conv_app_nth)


section \<open>The chain of boosts\<close>

text \<open>Thread \<open>i\<close> waits for a mutex that thread \<open>ow\<close> holds.\<close>

definition waits_for :: "kernel \<Rightarrow> nat \<Rightarrow> nat \<Rightarrow> bool" where
  "waits_for s i ow \<longleftrightarrow> i < length (g_thread_table s) \<and>
     (\<exists>m mx. t_waiting_mutex (g_thread_table s ! i) = Some m \<and> get_mutex m s = Inr mx
       \<and> m_owner mx = Some ow)"

text \<open>One thread of the chain has been raised to \<open>p\<close>, and moved to its new ready queue.\<close>

definition raised :: "nat \<Rightarrow> int \<Rightarrow> kernel \<Rightarrow> kernel \<Rightarrow> bool" where
  "raised i p s s2 \<longleftrightarrow> i < length (g_thread_table s) \<and> prio s i < p \<and>
     (if t_state (g_thread_table s ! i) = THREAD_READY
      then ReinsertReadyThread i (prio s i) (set_priority i p s) = Inr s2
      else s2 = set_priority i p s)"

lemma Boost_induct [consumes 2, case_names stop final step]:
  assumes "BoostPriorityChain t p s = Inr s'" "t = Some i"
    and stop: "\<And>p i s. i < length (g_thread_table s) \<Longrightarrow> p \<le> prio s i \<Longrightarrow> Q p i s s"
    and final: "\<And>p i s s2. raised i p s s2 \<Longrightarrow> (\<And>ow. \<not> waits_for s2 i ow) \<Longrightarrow> Q p i s s2"
    and step: "\<And>p i s s2 ow s'. raised i p s s2 \<Longrightarrow> waits_for s2 i ow \<Longrightarrow> Q p ow s2 s' \<Longrightarrow> Q p i s s'"
  shows "Q p i s s'"
  using assms(1,2)
proof (induction t p s arbitrary: s' i rule: BoostPriorityChain.induct [case_names IH])
  case (IH t p s)
  from IH.prems have run: "bnd (get_thread i s) (\<lambda>th.
          if t_priority th \<ge> p then Inr s
          else bnd (if t_state th = THREAD_READY
                    then ReinsertReadyThread i (t_priority th) (set_priority i p s)
                    else Inr (set_priority i p s)) (\<lambda>s2.
            bnd (get_thread i s2) (\<lambda>th2.
            case t_waiting_mutex th2 of None \<Rightarrow> Inr s2
            | Some m \<Rightarrow> bnd (get_mutex m s2) (\<lambda>mx.
                case m_owner mx of None \<Rightarrow> Inr s2
                | Some ow \<Rightarrow> BoostPriorityChain (Some ow) p s2)))) = Inr s'"
    by (subst (asm) BoostPriorityChain.simps) simp
  then obtain th where th: "get_thread i s = Inr th" by (elim bnd_InrE)
  then have i: "i < length (g_thread_table s)" "th = g_thread_table s ! i"
    by (simp_all add: res_simps)
  show ?case
  proof (cases "p \<le> t_priority th")
    case True
    with run th i stop show ?thesis by (simp add: prio_def)
  next
    case False
    with run th obtain s2 th2 where
      s2: "(if t_state th = THREAD_READY
            then ReinsertReadyThread i (t_priority th) (set_priority i p s)
            else Inr (set_priority i p s)) = Inr s2"
      and th2: "get_thread i s2 = Inr th2"
      and rest: "(case t_waiting_mutex th2 of None \<Rightarrow> Inr s2
            | Some m \<Rightarrow> bnd (get_mutex m s2) (\<lambda>mx.
                case m_owner mx of None \<Rightarrow> Inr s2
                | Some ow \<Rightarrow> BoostPriorityChain (Some ow) p s2)) = Inr s'"
      by (simp del: get_thread_eq_Inr) (elim bnd_InrE; simp)
    have r: "raised i p s s2"
      using s2 False i by (auto simp: raised_def prio_def split: if_splits)
    show ?thesis
    proof (cases "\<exists>m mx ow. t_waiting_mutex th2 = Some m \<and> get_mutex m s2 = Inr mx \<and> m_owner mx = Some ow")
      case True
      then obtain m mx ow where o: "t_waiting_mutex th2 = Some m" "get_mutex m s2 = Inr mx"
        "m_owner mx = Some ow" by blast
      with rest have "BoostPriorityChain (Some ow) p s2 = Inr s'" by simp
      from IH.IH [OF IH.prems(2) th False s2 th2 o this refl] step [OF r] o th2
      show ?thesis by (auto simp: waits_for_def res_simps)
    next
      case False
      with rest have "s' = s2"
        by (auto simp: res_simps split: option.splits)
      moreover have "\<not> waits_for s2 i ow" for ow
        using False th2 by (auto simp: waits_for_def res_simps)
      ultimately show ?thesis using final [OF r] by blast
    qed
  qed
qed

text \<open>All that a boost may touch: priorities and ready queues.\<close>

definition only_priorities :: "kernel \<Rightarrow> kernel \<Rightarrow> bool" where
  "only_priorities s s' \<longleftrightarrow>
     s' = s\<lparr>g_thread_table := g_thread_table s', g_ready_queues := g_ready_queues s',
            g_ready_bitmap := g_ready_bitmap s'\<rparr>
     \<and> length (g_thread_table s') = length (g_thread_table s)
     \<and> (\<forall>j < length (g_thread_table s).
          g_thread_table s' ! j = (g_thread_table s ! j)\<lparr>t_priority := prio s' j\<rparr>)"

lemma only_priorities_refl [wf_intros]: "only_priorities s s"
  by (simp add: only_priorities_def prio_def)

lemma only_priorities_trans:
  assumes "only_priorities s s1" "only_priorities s1 s2"
  shows "only_priorities s s2"
proof -
  have "s2 = s\<lparr>g_thread_table := g_thread_table s2, g_ready_queues := g_ready_queues s2,
            g_ready_bitmap := g_ready_bitmap s2\<rparr>"
    using assms unfolding only_priorities_def
    by (metis (no_types, lifting) kernel.update_convs(9,15,16) kernel.surjective)
  with assms show ?thesis by (simp add: only_priorities_def)
qed

lemma ReinsertReadyThread_frame:
  "ReinsertReadyThread t p s = Inr s' \<Longrightarrow>
   s' = s\<lparr>g_ready_queues := g_ready_queues s', g_ready_bitmap := g_ready_bitmap s'\<rparr>"
  by (auto simp: ReinsertReadyThread_def res_simps set_ready_def
      dest!: ReadyThread_frame RemoveFromReadyQueue_frame split: if_splits)

lemma raised_frame:
  assumes "raised i p s s2"
  shows "s2 = (set_priority i p s)\<lparr>g_ready_queues := g_ready_queues s2,
           g_ready_bitmap := g_ready_bitmap s2\<rparr>"
    and "i < length (g_thread_table s)" "prio s i < p"
  using assms by (auto simp: raised_def dest: ReinsertReadyThread_frame split: if_splits)

lemma raised_table:
  assumes "raised i p s s2"
  shows "g_thread_table s2 = (g_thread_table s)[i := (g_thread_table s ! i)\<lparr>t_priority := p\<rparr>]"
    and "g_mutexes s2 = g_mutexes s"
  by (subst raised_frame(1) [OF assms]; simp add: set_priority_def upd_thread_def)+

lemma raised_prio: "raised i p s s2 \<Longrightarrow> prio s2 j = (if j = i then p else prio s j)"
  using raised_table(1) [of i p s s2] raised_frame(2) [of i p s s2]
  by (auto simp: prio_def nth_list_update)

lemma raised_waits: "raised i p s s2 \<Longrightarrow> waits_for s2 j ow = waits_for s j ow"
  using raised_table [of i p s s2]
  by (cases "j = i") (auto simp: waits_for_def get_mutex_def)

lemma raised_only: "raised i p s s2 \<Longrightarrow> only_priorities s s2"
  unfolding only_priorities_def
  using raised_frame(1) [of i p s s2] raised_table(1) [of i p s s2] raised_prio [of i p s s2]
  by (auto simp: nth_list_update prio_def set_priority_def upd_thread_def)

lemma Boost_only:
  "BoostPriorityChain t p s = Inr s' \<Longrightarrow> t = Some i \<Longrightarrow> only_priorities s s'"
  by (induction rule: Boost_induct)
    (auto intro: wf_intros raised_only only_priorities_trans)

lemma Boost_prio:
  "BoostPriorityChain t p s = Inr s' \<Longrightarrow> t = Some i \<Longrightarrow>
   p \<le> prio s' i \<and> (\<forall>j. prio s' j = prio s j \<or> prio s j < p \<and> prio s' j = p)"
proof (induction rule: Boost_induct)
  case (step p i s s2 ow s')
  then have "prio s2 i = p" "prio s i < p" by (simp_all add: raised_prio raised_frame)
  with step show ?case by (metis order_refl raised_prio)
qed (auto simp: raised_prio dest: raised_frame(3))

lemma ReadyThread_ok:
  assumes wf: "ready_wf s" and ok: "ReadyThread t s = Inr s'"
  obtains p where "prio s t = int p" "p < MAX_PRIORITY" "t < length (g_thread_table s)" "ready_wf s'"
    "ready_list s' = (ready_list s)(p := ready_list s p @ [t])"
proof -
  from ok obtain th n where n: "get_thread t s = Inr th" "ready_index (t_priority th) = Inr n"
    unfolding ReadyThread_def by (elim bnd_InrE)
  then obtain p where th: "get_thread t s = Inr th" "t_priority th = int p" "p < MAX_PRIORITY"
    by (auto simp: ready_index_eq_Inr dest: zero_le_imp_eq_int)
  have "length (ready_list s p) < MAX_THREADS"
    using ReadyThread_overflow [OF th] ok by force
  from ReadyThread_append [OF wf th this] ok th that show thesis
    by (auto simp: prio_def res_simps)
qed

lemma ReinsertReadyThread_wf:
  assumes wf: "ready_wf s" and ok: "ReinsertReadyThread t p s = Inr s'"
  shows "ready_wf s'"
proof (cases "t_state (g_thread_table s ! t) = THREAD_READY")
  case True
  with ok obtain s1 where s1: "RemoveFromReadyQueue t p s = Inr (True, s1)" "ReadyThread t s1 = Inr s'"
    by (auto simp: ReinsertReadyThread_def res_simps split: if_splits)
  then obtain n where n: "p = int n" "n < MAX_PRIORITY"
    unfolding RemoveFromReadyQueue_def
    by (elim bnd_InrE) (auto simp: ready_index_eq_Inr dest: zero_le_imp_eq_int)
  from RemoveFromReadyQueue_remove1 [OF wf n(2), of t] s1(1) n(1) have "ready_wf s1" by auto
  from ReadyThread_ok [OF this s1(2)] show ?thesis by blast
qed (use assms in \<open>auto simp: ReinsertReadyThread_def res_simps\<close>)

lemma raised_ready_wf:
  assumes "raised i p s s2" "ready_wf s"
  shows "ready_wf s2"
proof -
  have "ready_wf (set_priority i p s)"
    using assms(2) by (simp add: ready_wf_def ready_list_def set_priority_def upd_thread_def)
  with assms(1) show ?thesis
    by (auto simp: raised_def dest: ReinsertReadyThread_wf split: if_splits)
qed

lemma Boost_ready_wf:
  "BoostPriorityChain t p s = Inr s' \<Longrightarrow> t = Some i \<Longrightarrow> ready_wf s \<longrightarrow> ready_wf s'"
  by (induction rule: Boost_induct) (auto intro: raised_ready_wf)

section \<open>The inheritance invariant\<close>

definition inherit_ok :: "kernel \<Rightarrow> bool" where
  "inherit_ok s \<longleftrightarrow> (\<forall>i ow. waits_for s i ow \<longrightarrow> prio s i \<le> prio s ow)"

text \<open>The invariant with a hole at thread \<open>t\<close>, whose waiters may be as high as \<open>p\<close>.\<close>

definition inherit_but :: "nat \<Rightarrow> int \<Rightarrow> kernel \<Rightarrow> bool" where
  "inherit_but t p s \<longleftrightarrow>
     (\<forall>i ow. waits_for s i ow \<longrightarrow> prio s i \<le> prio s ow \<or> ow = t \<and> prio s i \<le> p)"

lemma waits_for_unique: "waits_for s i a \<Longrightarrow> waits_for s i b \<Longrightarrow> a = b"
  by (auto simp: waits_for_def)

lemma Boost_inherit:
  "BoostPriorityChain t p s = Inr s' \<Longrightarrow> t = Some i \<Longrightarrow> inherit_but i p s \<longrightarrow> inherit_ok s'"
proof (induction rule: Boost_induct)
  case (stop p i s)
  then show ?case by (auto simp: inherit_but_def inherit_ok_def intro: order_trans)
next
  case (final p i s s2)
  then show ?case
    using raised_waits [OF final(1)] raised_prio [OF final(1)] raised_frame(3) [OF final(1)]
    unfolding inherit_but_def inherit_ok_def by (smt (verit))
next
  case (step p i s s2 ow s')
  have "inherit_but i p s \<longrightarrow> inherit_but ow p s2"
    using raised_waits [OF step(1)] raised_prio [OF step(1)] raised_frame(3) [OF step(1)]
      step(2) waits_for_unique [of s2 i ow]
    unfolding inherit_but_def by (smt (verit))
  with step show ?case by blast
qed

end
