(* ===== verification/BK_Mutex.thy ===== *)
theory BK_Mutex
  imports BK_Inherit
begin

text \<open>
  Mutexes of \<^verbatim>\<open>BLUE_KERNEL/BlueKernel_lvl3.c\<close>: the invariant \<open>mutex_wf\<close> that ties the owner, the
  lock flag, the wait queue of a mutex and the \<open>waiting_mutex\<close> of the threads together, and what
  \<open>AcquireMutex\<close> and \<open>ReleaseMutex\<close> do to it and to the inheritance invariant.
\<close>

section \<open>Looking through updates\<close>

lemma get_mutex_upd [simp]:
  "get_mutex m' (upd_mutex m f s) = (if m' = m then map_sum id f (get_mutex m s) else get_mutex m' s)"
  "get_mutex m' (upd_thread t g s) = get_mutex m' s"
  "get_mutex m' (set_state t st s) = get_mutex m' s"
  "get_mutex m' (set_priority t pr s) = get_mutex m' s"
  "get_mutex m' (s\<lparr>reschedule_requested := b\<rparr>) = get_mutex m' s"
  "get_mutex m' (set_ready p q bm s) = get_mutex m' s"
  by (auto simp: get_mutex_def upd_mutex_def upd_thread_def set_state_def set_priority_def
      set_ready_def aread_def split: option.splits)

lemma thread_table_upd [simp]:
  "g_thread_table (upd_mutex m f s) = g_thread_table s"
  "g_thread_table (upd_thread t g s) = (g_thread_table s)[t := g (g_thread_table s ! t)]"
  "g_thread_table (set_state t st s) = (g_thread_table s)[t := (g_thread_table s ! t)\<lparr>t_state := st\<rparr>]"
  by (simp_all add: upd_mutex_def upd_thread_def set_state_def)

lemma frame_upd [simp]:
  "current_thread (upd_mutex m f s) = current_thread s"
  "current_thread (upd_thread t g s) = current_thread s"
  "current_irql (upd_mutex m f s) = current_irql s"
  "current_irql (upd_thread t g s) = current_irql s"
  by (simp_all add: upd_mutex_def upd_thread_def)

lemma only_priorities_frame:
  assumes "only_priorities s s'"
  shows "get_mutex m s' = get_mutex m s" "current_thread s' = current_thread s"
    "current_irql s' = current_irql s" "g_mutexes s' = g_mutexes s"
    "length (g_thread_table s') = length (g_thread_table s)"
    "j < length (g_thread_table s) \<Longrightarrow>
       g_thread_table s' ! j = (g_thread_table s ! j)\<lparr>t_priority := prio s' j\<rparr>"
proof -
  have eq: "s' = s\<lparr>g_thread_table := g_thread_table s', g_ready_queues := g_ready_queues s',
            g_ready_bitmap := g_ready_bitmap s'\<rparr>"
    using assms by (simp add: only_priorities_def)
  show "get_mutex m s' = get_mutex m s" "current_thread s' = current_thread s"
    "current_irql s' = current_irql s" "g_mutexes s' = g_mutexes s"
    by (subst eq; simp add: get_mutex_def)+
  show "length (g_thread_table s') = length (g_thread_table s)"
    "j < length (g_thread_table s) \<Longrightarrow>
       g_thread_table s' ! j = (g_thread_table s ! j)\<lparr>t_priority := prio s' j\<rparr>"
    using assms by (simp_all add: only_priorities_def)
qed

section \<open>The invariant\<close>

definition mutex_ok :: "kernel \<Rightarrow> nat \<Rightarrow> MUTEX \<Rightarrow> bool" where
  "mutex_ok s m mx \<longleftrightarrow> wq_wf s (m_waiters mx) \<and> distinct (wq_list (m_waiters mx))
     \<and> (m_locked mx \<longleftrightarrow> m_owner mx \<noteq> None)
     \<and> (m_owner mx = None \<longrightarrow> wq_list (m_waiters mx) = [])
     \<and> (\<forall>ow. m_owner mx = Some ow \<longrightarrow> ow < length (g_thread_table s))
     \<and> (\<forall>i < length (g_thread_table s).
          t_waiting_mutex (g_thread_table s ! i) = Some m \<longleftrightarrow> i \<in> set (wq_list (m_waiters mx)))"

definition mutex_wf :: "kernel \<Rightarrow> bool" where
  "mutex_wf s \<longleftrightarrow> (\<forall>m mx. get_mutex m s = Inr mx \<longrightarrow> mutex_ok s m mx)"

lemma mutex_wfD: "mutex_wf s \<Longrightarrow> get_mutex m s = Inr mx \<Longrightarrow> mutex_ok s m mx"
  by (simp add: mutex_wf_def)

lemma wq_wf_cong: "length (g_thread_table s') = length (g_thread_table s) \<Longrightarrow> wq_wf s' w = wq_wf s w"
  by (simp add: wq_wf_def)

section \<open>Taking a mutex\<close>

text \<open>What a thread that has to wait leaves behind.\<close>

lemma AcquireMutex_blocks:
  assumes ok: "AcquireMutex m s = Inr s'" and m: "get_mutex m s = Inr mx" "m_locked mx"
    and c: "current_thread s = Some c"
  obtains s1 where
    "BoostPriorityChain (m_owner mx) (prio s c) (upd_thread c (\<lambda>th. th\<lparr>t_waiting_mutex := Some m\<rparr>) s) = Inr s1"
    "c < length (g_thread_table s)" "wq_count (m_waiters mx) < MAX_THREADS"
    "g_thread_table s' = (g_thread_table s1)[c := (g_thread_table s1 ! c)\<lparr>t_state := THREAD_BLOCKED\<rparr>]"
    "get_mutex m s' = Inr (mx\<lparr>m_header := (m_header mx)\<lparr>ref_count := ref_count (m_header mx) + 1\<rparr>,
       m_waiters := (m_waiters mx)\<lparr>wq_threads := (wq_threads (m_waiters mx))[wq_count (m_waiters mx) := Some c],
                                   wq_count := wq_count (m_waiters mx) + 1\<rparr>\<rparr>)"
    "\<And>m'. m' \<noteq> m \<Longrightarrow> get_mutex m' s' = get_mutex m' s"
    "reschedule_requested s'" "current_thread s' = Some c"
proof -
  let ?s0 = "upd_thread c (\<lambda>th. th\<lparr>t_waiting_mutex := Some m\<rparr>) s"
  from ok m c have p: "current_irql s = PASSIVE_LEVEL" by (simp add: AcquireMutex_def split: if_splits)
  from ok m c p obtain s1 s2 where
    s: "c < length (g_thread_table s)"
      "BoostPriorityChain (m_owner mx) (prio s c) ?s0 = Inr s1"
      "ObReferenceObject (MutexObj m) s1 = Inr s2" "BlockCurrentThread (MutexWaiters m) s2 = Inr s'"
    by (auto simp: AcquireMutex_def prio_def res_simps)
  have only: "only_priorities ?s0 s1"
  proof (cases "m_owner mx")
    case None
    with s(2) show ?thesis by (subst (asm) BoostPriorityChain.simps) (simp add: wf_intros)
  next
    case (Some ow)
    from Boost_only [OF s(2) this] show ?thesis .
  qed
  note fr = only_priorities_frame [OF only]
  have m1: "get_mutex m s1 = Inr mx" using fr(1) m by simp
  have s2: "s2 = upd_mutex m (\<lambda>mx. mx\<lparr>m_header := (m_header mx)\<lparr>ref_count := ref_count (m_header mx) + 1\<rparr>\<rparr>) s1"
    using s(3) m1 by (auto simp: ObReferenceObject_def upd_mutex_def res_simps)
  let ?mx2 = "mx\<lparr>m_header := (m_header mx)\<lparr>ref_count := ref_count (m_header mx) + 1\<rparr>\<rparr>"
  let ?w = "m_waiters mx"
  let ?w' = "?w\<lparr>wq_threads := (wq_threads ?w)[wq_count ?w := Some c], wq_count := wq_count ?w + 1\<rparr>"
  have m2: "get_mutex m s2 = Inr ?mx2" using s2 m1 by simp
  have c2: "current_thread s2 = Some c" using s2 fr(2) c by simp
  from s(4) m2 c2 have s': "wq_count ?w < MAX_THREADS"
    "s' = (upd_mutex m (\<lambda>mx. mx\<lparr>m_waiters := ?w'\<rparr>) (set_state c THREAD_BLOCKED s2))\<lparr>reschedule_requested := True\<rparr>"
    by (auto simp: BlockCurrentThread_def EnqueueWaiter_def res_simps split: if_splits)
  show thesis
  proof (rule that [OF s(2,1) s'(1)])
    show "g_thread_table s' = (g_thread_table s1)[c := (g_thread_table s1 ! c)\<lparr>t_state := THREAD_BLOCKED\<rparr>]"
      unfolding s'(2) s2 by simp
    show "get_mutex m s' = Inr (mx\<lparr>m_header := (m_header mx)\<lparr>ref_count := ref_count (m_header mx) + 1\<rparr>,
       m_waiters := ?w'\<rparr>)"
      unfolding s'(2) using m2 by simp
    show "get_mutex m' s' = get_mutex m' s" if "m' \<noteq> m" for m'
      unfolding s'(2) s2 using that fr(1) by simp
    show "reschedule_requested s'" "current_thread s' = Some c"
      unfolding s'(2) using c2 by (simp_all add: upd_mutex_def set_state_def upd_thread_def)
  qed
qed

lemma inherit_ok_cong:
  "(\<And>i ow. waits_for s' i ow \<Longrightarrow> waits_for s i ow) \<Longrightarrow>
   (\<And>i ow. waits_for s i ow \<Longrightarrow> prio s' i = prio s i \<and> prio s' ow = prio s ow) \<Longrightarrow>
   inherit_ok s \<Longrightarrow> inherit_ok s'"
  unfolding inherit_ok_def by metis

lemma AcquireMutex_inherit_blocked:
  assumes ok: "AcquireMutex m s = Inr s'" and m: "get_mutex m s = Inr mx" "m_owner mx = Some ow"
    and c: "current_thread s = Some c" and wf: "mutex_wf s" "inherit_ok s"
  shows "inherit_ok s' \<and> prio s' c \<le> prio s' ow \<and> t_state (g_thread_table s' ! c) = THREAD_BLOCKED"
proof -
  have locked: "m_locked mx" using mutex_wfD [OF wf(1) m(1)] m(2) by (simp add: mutex_ok_def)
  from AcquireMutex_blocks [OF ok m(1) locked c] obtain s1 where
    s1: "BoostPriorityChain (m_owner mx) (prio s c) (upd_thread c (\<lambda>th. th\<lparr>t_waiting_mutex := Some m\<rparr>) s) = Inr s1"
    "c < length (g_thread_table s)"
    "g_thread_table s' = (g_thread_table s1)[c := (g_thread_table s1 ! c)\<lparr>t_state := THREAD_BLOCKED\<rparr>]"
    and mm: "get_mutex m s' = Inr (mx\<lparr>m_header := (m_header mx)\<lparr>ref_count := ref_count (m_header mx) + 1\<rparr>,
       m_waiters := (m_waiters mx)\<lparr>wq_threads := (wq_threads (m_waiters mx))[wq_count (m_waiters mx) := Some c],
                                   wq_count := wq_count (m_waiters mx) + 1\<rparr>\<rparr>)"
    "\<And>m'. m' \<noteq> m \<Longrightarrow> get_mutex m' s' = get_mutex m' s" by metis
  let ?s0 = "upd_thread c (\<lambda>th. th\<lparr>t_waiting_mutex := Some m\<rparr>) s"
  have prio0: "prio ?s0 i = prio s i" for i
    using s1(2) by (cases "i = c") (simp_all add: prio_def)
  have waits0: "waits_for ?s0 i o' \<Longrightarrow> i = c \<and> o' = ow \<or> waits_for s i o'" for i o'
    using m s1(2) by (cases "i = c") (auto simp: waits_for_def)
  have "inherit_but ow (prio s c) ?s0"
    using wf(2) waits0 unfolding inherit_but_def inherit_ok_def prio0 by blast
  with Boost_inherit [OF s1(1) m(2)] have ih1: "inherit_ok s1" by blast
  note fr = only_priorities_frame [OF Boost_only [OF s1(1) m(2)]]
  have prio1: "prio s' i = prio s1 i" for i
    using s1(3) by (cases "i = c") (auto simp: prio_def nth_list_update fr(5) s1(2))
  have waits1: "waits_for s' i o' = waits_for s1 i o'" for i o'
  proof -
    have "t_waiting_mutex (g_thread_table s' ! i) = t_waiting_mutex (g_thread_table s1 ! i)"
      using s1(3) by (cases "i = c") (auto simp: nth_list_update fr(5) s1(2))
    moreover have "(\<exists>mx. get_mutex k s' = Inr mx \<and> m_owner mx = Some o') =
        (\<exists>mx. get_mutex k s1 = Inr mx \<and> m_owner mx = Some o')" for k
      using mm m fr(1) by (cases "k = m") auto
    ultimately show ?thesis using s1(3) by (simp add: waits_for_def)
  qed
  have "inherit_ok s'" using ih1 by (simp add: inherit_ok_def prio1 waits1)
  moreover have "waits_for s1 c ow"
    using s1(2) fr m by (simp add: waits_for_def)
  with ih1 have "prio s' c \<le> prio s' ow" by (simp add: inherit_ok_def prio1)
  moreover have "t_state (g_thread_table s' ! c) = THREAD_BLOCKED"
    using s1(2,3) fr(5) by simp
  ultimately show ?thesis by blast
qed

lemma AcquireMutex_free:
  assumes ok: "AcquireMutex m s = Inr s'" and m: "get_mutex m s = Inr mx" "\<not> m_locked mx"
  obtains c where "current_thread s = Some c" "c < length (g_thread_table s)"
    "s' = upd_thread c (\<lambda>th. th\<lparr>t_owned_mutex := Some m\<rparr>)
           (upd_mutex m (\<lambda>mx. mx\<lparr>m_locked := True, m_owner := Some c\<rparr>) s)"
  using ok m by (auto simp: AcquireMutex_def res_simps split: if_splits)

lemma AcquireMutex_mutex_wf:
  assumes ok: "AcquireMutex m s = Inr s'" and wf: "mutex_wf s" and c: "current_thread s = Some c"
    and idle: "t_waiting_mutex (g_thread_table s ! c) = None"
  shows "mutex_wf s'"
proof -
  from ok obtain mx where m: "get_mutex m s = Inr mx"
    by (auto simp: AcquireMutex_def bnd_eq_Inr split: if_splits)
  note mok = mutex_wfD [OF wf m]
  show ?thesis
  proof (cases "m_locked mx")
    case False
    from AcquireMutex_free [OF ok m False] c have cl: "c < length (g_thread_table s)"
      and s': "s' = upd_thread c (\<lambda>th. th\<lparr>t_owned_mutex := Some m\<rparr>)
           (upd_mutex m (\<lambda>mx. mx\<lparr>m_locked := True, m_owner := Some c\<rparr>) s)"
      by auto
    have table: "length (g_thread_table s') = length (g_thread_table s)"
      "t_waiting_mutex (g_thread_table s' ! i) = t_waiting_mutex (g_thread_table s ! i)" for i
      using s' cl by (cases "i = c"; simp)+
    have "mutex_ok s' k kx" if "get_mutex k s' = Inr kx" for k kx
    proof (cases "k = m")
      case True
      with that m s' have "kx = mx\<lparr>m_locked := True, m_owner := Some c\<rparr>" by simp
      with mok True False cl table show ?thesis
        by (auto simp: mutex_ok_def wq_wf_cong [OF table(1)])
    next
      case False
      with that s' have "get_mutex k s = Inr kx" by simp
      with mutex_wfD [OF wf this] table show ?thesis
        by (simp add: mutex_ok_def wq_wf_cong [OF table(1)])
    qed
    then show ?thesis by (simp add: mutex_wf_def)
  next
    case True
    then obtain ow where ow: "m_owner mx = Some ow" using mok by (auto simp: mutex_ok_def)
    from AcquireMutex_blocks [OF ok m True c] obtain s1 where
      s1: "BoostPriorityChain (m_owner mx) (prio s c) (upd_thread c (\<lambda>th. th\<lparr>t_waiting_mutex := Some m\<rparr>) s) = Inr s1"
      "c < length (g_thread_table s)" "wq_count (m_waiters mx) < MAX_THREADS"
      "g_thread_table s' = (g_thread_table s1)[c := (g_thread_table s1 ! c)\<lparr>t_state := THREAD_BLOCKED\<rparr>]"
      and mm: "get_mutex m s' = Inr (mx\<lparr>m_header := (m_header mx)\<lparr>ref_count := ref_count (m_header mx) + 1\<rparr>,
         m_waiters := (m_waiters mx)\<lparr>wq_threads := (wq_threads (m_waiters mx))[wq_count (m_waiters mx) := Some c],
                                     wq_count := wq_count (m_waiters mx) + 1\<rparr>\<rparr>)"
      "\<And>m'. m' \<noteq> m \<Longrightarrow> get_mutex m' s' = get_mutex m' s" by metis
    note fr = only_priorities_frame [OF Boost_only [OF s1(1) ow]]
    have len: "length (g_thread_table s') = length (g_thread_table s)"
      using s1(4) fr(5) by simp
    have wait: "t_waiting_mutex (g_thread_table s' ! i) =
        (if i = c then Some m else t_waiting_mutex (g_thread_table s ! i))"
      if "i < length (g_thread_table s)" for i
      using that s1(2,4) fr(5,6) by (cases "i = c") simp_all
    have "wq_wf s (m_waiters mx)" using mok by (simp add: mutex_ok_def)
    note enq = wq_enqueue [OF this s1(3,2)]
    have notin: "c \<notin> set (wq_list (m_waiters mx))"
      using mok idle s1(2) by (auto simp: mutex_ok_def)
    have "mutex_ok s' k kx" if "get_mutex k s' = Inr kx" for k kx
    proof (cases "k = m")
      case True
      with that mm(1) enq mok notin ow wait len show ?thesis
        by (auto simp: mutex_ok_def wq_wf_cong [OF len])
    next
      case False
      with that mm(2) have "get_mutex k s = Inr kx" by simp
      with mutex_wfD [OF wf this] wait len False idle s1(2) show ?thesis
        by (auto simp: mutex_ok_def wq_wf_cong [OF len])
    qed
    then show ?thesis by (simp add: mutex_wf_def)
  qed
qed

lemma AcquireMutex_inherit:
  assumes ok: "AcquireMutex m s = Inr s'" and c: "current_thread s = Some c"
    and wf: "mutex_wf s" "inherit_ok s"
  shows "inherit_ok s'"
proof -
  from ok obtain mx where m: "get_mutex m s = Inr mx"
    by (auto simp: AcquireMutex_def bnd_eq_Inr split: if_splits)
  note mok = mutex_wfD [OF wf(1) m]
  show ?thesis
  proof (cases "m_owner mx")
    case (Some ow)
    from AcquireMutex_inherit_blocked [OF ok m Some c wf] show ?thesis by blast
  next
    case None
    with mok have free: "\<not> m_locked mx" "wq_list (m_waiters mx) = []" by (auto simp: mutex_ok_def)
    from AcquireMutex_free [OF ok m free(1)] c have cl: "c < length (g_thread_table s)"
      and s': "s' = upd_thread c (\<lambda>th. th\<lparr>t_owned_mutex := Some m\<rparr>)
           (upd_mutex m (\<lambda>mx. mx\<lparr>m_locked := True, m_owner := Some c\<rparr>) s)"
      by auto
    have wait: "t_waiting_mutex (g_thread_table s' ! i) = t_waiting_mutex (g_thread_table s ! i)"
      and pr: "prio s' i = prio s i" for i
      using s' cl by (cases "i = c"; simp add: prio_def)+
    have "waits_for s' i o' \<Longrightarrow> waits_for s i o'" for i o'
      using s' wait mok free(2) m by (auto simp: waits_for_def mutex_ok_def split: if_splits)
    then show ?thesis using wf(2) by (simp add: inherit_ok_def pr)
  qed
qed

section \<open>Giving a mutex up\<close>

lemma ReleaseMutex_free:
  assumes ok: "ReleaseMutex m s = Inr s'" and m: "get_mutex m s = Inr mx"
    and none: "wq_count (m_waiters mx) = 0"
  obtains c where "current_thread s = Some c" "m_owner mx = Some c" "c < length (g_thread_table s)"
    "s' = upd_mutex m (\<lambda>mx. mx\<lparr>m_locked := False, m_owner := None\<rparr>)
       (upd_thread c (\<lambda>th. th\<lparr>t_priority := t_base_priority th, t_owned_mutex := None\<rparr>) s)"
  using ok m none by (auto simp: ReleaseMutex_def Let_def res_simps split: option.splits if_splits)

lemma CheckPreemption_frame:
  "CheckPreemption t s = Inr s' \<Longrightarrow> s' = s\<lparr>reschedule_requested := reschedule_requested s'\<rparr>"
  by (auto simp: CheckPreemption_def res_simps split: option.splits if_splits)

lemma CheckPreemption_same:
  assumes "CheckPreemption t s = Inr s'"
  shows "g_thread_table s' = g_thread_table s" "get_mutex m s' = get_mutex m s"
    "ready_list s' = ready_list s" "ready_wf s' = ready_wf s" "current_thread s' = current_thread s"
  by (subst CheckPreemption_frame [OF assms];
      simp add: get_mutex_def ready_list_def ready_wf_def fun_eq_iff)+

lemma ReadyThread_same:
  assumes "ReadyThread t s = Inr s'"
  shows "g_thread_table s' = g_thread_table s" "get_mutex m s' = get_mutex m s"
    "current_thread s' = current_thread s"
  using ReadyThread_frame [OF assms] by auto

lemma ObDereference_kept:
  assumes "ObDereferenceObject (MutexObj m) s = Inr s'" "get_mutex m s' = Inr kx"
    and "get_mutex m s = Inr mx"
  shows "s' = upd_mutex m (\<lambda>mx. mx\<lparr>m_header := (m_header mx)\<lparr>ref_count := ref_count (m_header mx) - 1\<rparr>\<rparr>) s"
proof -
  have "ref_count (m_header mx) \<noteq> 1"
    using assms by (auto simp: ObDereferenceObject_def Let_def res_simps)
  with assms show ?thesis
    by (auto simp: ObDereferenceObject_def Let_def upd_mutex_def res_simps)
qed

text \<open>The hand-over: the best waiter leaves the queue, becomes owner and becomes ready.\<close>

lemma ReleaseMutex_hands_over:
  assumes ok: "ReleaseMutex m s = Inr s'" and m: "get_mutex m s = Inr mx"
    and wf: "wq_wf s (m_waiters mx)" and ne: "wq_list (m_waiters mx) \<noteq> []"
    and rw: "ready_wf s"
  obtains c b n w' t1 p where "current_thread s = Some c" "m_owner mx = Some c"
    "t1 = (g_thread_table s)[c := (g_thread_table s ! c)\<lparr>t_priority := t_base_priority (g_thread_table s ! c),
       t_owned_mutex := None\<rparr>]"
    "c < length (g_thread_table s)"
    "n = wq_list (m_waiters mx) ! b"
    "first_max (\<lambda>t. t_priority (t1 ! t)) (wq_list (m_waiters mx)) b"
    "wq_wf s w'" "wq_list w' = take b (wq_list (m_waiters mx)) @ drop (Suc b) (wq_list (m_waiters mx))"
    "g_thread_table s' = t1[n := (t1 ! n)\<lparr>t_waiting_mutex := None, t_owned_mutex := Some m,
       t_state := THREAD_READY\<rparr>]"
    "get_mutex m s' = Inr (mx\<lparr>m_header := (m_header mx)\<lparr>ref_count := ref_count (m_header mx) - 1\<rparr>,
       m_waiters := w', m_owner := Some n\<rparr>)"
    "\<And>m'. m' \<noteq> m \<Longrightarrow> get_mutex m' s' = get_mutex m' s"
    "ready_wf s'" "t_priority (t1 ! n) = int p"
    "ready_list s' = (ready_list s)(p := ready_list s p @ [n])"
proof -
  let ?w = "m_waiters mx"
  have cnt: "wq_count ?w \<noteq> 0" using ne wq_list_length [OF wf] by (metis length_0_conv)
  from ok m obtain c where c: "current_thread s = Some c" "m_owner mx = Some c"
    by (auto simp: ReleaseMutex_def split: option.splits if_splits)
  define s1 where "s1 = upd_thread c (\<lambda>th. th\<lparr>t_priority := t_base_priority th, t_owned_mutex := None\<rparr>) s"
  have cl: "c < length (g_thread_table s)"
    using ok m c by (auto simp: ReleaseMutex_def res_simps split: option.splits if_splits)
  have q1: "get_wq (MutexWaiters m) s1 = Inr ?w" using m by (simp add: s1_def)
  have wf1: "wq_wf s1 ?w" using wf by (simp add: wq_wf_def s1_def)
  from DequeueHighestPriority_best [OF q1 wf1 ne] obtain b w' where
    b: "first_max (prio s1) (wq_list ?w) b"
      "DequeueHighestPriority (MutexWaiters m) s1 = Inr (Some (wq_list ?w ! b), set_wq (MutexWaiters m) w' s1)"
      "wq_wf s1 w'" "wq_list w' = take b (wq_list ?w) @ drop (Suc b) (wq_list ?w)" by blast
  let ?n = "wq_list ?w ! b"
  let ?s2 = "upd_thread ?n (\<lambda>th. th\<lparr>t_waiting_mutex := None\<rparr>) (set_wq (MutexWaiters m) w' s1)"
  from ok m c cnt cl b(2) obtain s3 kx s4 where
    s3: "ObDereferenceObject (MutexObj m) ?s2 = Inr s3" "get_mutex m s3 = Inr kx"
    and s4: "ReadyThread ?n (upd_thread ?n (\<lambda>th. th\<lparr>t_owned_mutex := Some m, t_state := THREAD_READY\<rparr>)
               (upd_mutex m (\<lambda>mx. mx\<lparr>m_owner := Some ?n\<rparr>) s3)) = Inr s4"
    and s5: "CheckPreemption ?n s4 = Inr s'"
    unfolding ReleaseMutex_def Let_def s1_def
    by (simp add: get_thread_def) (elim bnd_InrE; simp; elim bnd_InrE; blast)
  have m2: "get_mutex m ?s2 = Inr (mx\<lparr>m_waiters := w'\<rparr>)" using m by (simp add: s1_def)
  note s3' = ObDereference_kept [OF s3 m2]
  let ?s3 = "upd_thread ?n (\<lambda>th. th\<lparr>t_owned_mutex := Some m, t_state := THREAD_READY\<rparr>)
               (upd_mutex m (\<lambda>mx. mx\<lparr>m_owner := Some ?n\<rparr>) s3)"
  have r3: "ready_list ?s3 = ready_list s" "ready_wf ?s3"
    using rw unfolding s3' s1_def
    by (simp_all add: ready_list_def ready_wf_def upd_thread_def upd_mutex_def fun_eq_iff)
  have nl: "?n < length (g_thread_table s)"
    using b(1) wf wq_list_length [OF wf] by (auto simp: first_max_def wq_wf_def)
  from ReadyThread_ok [OF r3(2) s4] obtain p where
    p: "prio ?s3 ?n = int p" "ready_wf s4" "ready_list s4 = (ready_list s)(p := ready_list s p @ [?n])"
    unfolding r3(1) by blast
  note same = CheckPreemption_same [OF s5] ReadyThread_same [OF s4]
  let ?t1 = "(g_thread_table s)[c := (g_thread_table s ! c)\<lparr>t_priority := t_base_priority (g_thread_table s ! c),
       t_owned_mutex := None\<rparr>]"
  show thesis
  proof (rule that [OF c refl cl refl])
    show "first_max (\<lambda>t. t_priority (?t1 ! t)) (wq_list ?w) b"
      using b(1) by (simp add: prio_def [abs_def] s1_def)
    show "wq_wf s w'" using b(3) by (simp add: wq_wf_def s1_def)
    show "wq_list w' = take b (wq_list ?w) @ drop (Suc b) (wq_list ?w)" by fact
    show "g_thread_table s' = ?t1[?n := (?t1 ! ?n)\<lparr>t_waiting_mutex := None, t_owned_mutex := Some m,
       t_state := THREAD_READY\<rparr>]"
      unfolding same s3' using nl by (simp add: s1_def)
    show "get_mutex m s' = Inr (mx\<lparr>m_header := (m_header mx)\<lparr>ref_count := ref_count (m_header mx) - 1\<rparr>,
       m_waiters := w', m_owner := Some ?n\<rparr>)"
      unfolding same s3' using m by (simp add: s1_def)
    show "get_mutex m' s' = get_mutex m' s" if "m' \<noteq> m" for m'
      unfolding same s3' using that by (simp add: s1_def)
    show "ready_wf s'" using p(2) same by simp
    show "t_priority (?t1 ! ?n) = int p"
      using p(1) nl unfolding s3' by (simp add: prio_def s1_def)
    show "ready_list s' = (ready_list s)(p := ready_list s p @ [?n])"
      using p(3) same by simp
  qed
qed

text \<open>
  \<open>ReleaseMutex\<close> puts the thread back to its base priority: right only when no other mutex of
  the thread still has waiters, as the source's own comment says.
\<close>

definition single_owner :: "kernel \<Rightarrow> nat \<Rightarrow> nat \<Rightarrow> bool" where
  "single_owner s c m \<longleftrightarrow> (\<forall>k kx. k \<noteq> m \<longrightarrow> get_mutex k s = Inr kx \<longrightarrow> m_owner kx = Some c
     \<longrightarrow> wq_list (m_waiters kx) = [])"

lemma first_maxD: "first_max f xs b \<Longrightarrow> x \<in> set xs \<Longrightarrow> f x \<le> f (xs ! b)"
  by (auto simp: first_max_def in_set_conv_nth)

lemma set_take_drop_distinct:
  "distinct xs \<Longrightarrow> b < length xs \<Longrightarrow> set (take b xs @ drop (Suc b) xs) = set xs - {xs ! b}"
proof -
  assume d: "distinct xs" and b: "b < length xs"
  then have xs: "xs = take b xs @ xs ! b # drop (Suc b) xs" by (simp add: id_take_nth_drop)
  with d have "distinct (take b xs @ xs ! b # drop (Suc b) xs)" by simp
  then have "xs ! b \<notin> set (take b xs @ drop (Suc b) xs)" by auto
  moreover have "set xs = insert (xs ! b) (set (take b xs @ drop (Suc b) xs))"
    using arg_cong [OF xs, of set] by auto
  ultimately show ?thesis by auto
qed

lemma ReleaseMutex_keeps_free:
  assumes ok: "ReleaseMutex m s = Inr s'" and wf: "mutex_wf s" "inherit_ok s"
    and c: "current_thread s = Some c" "t_waiting_mutex (g_thread_table s ! c) = None"
    and single: "single_owner s c m"
    and m: "get_mutex m s = Inr mx" and none: "wq_list (m_waiters mx) = []"
  shows "mutex_wf s' \<and> inherit_ok s'"
proof -
  note mok = mutex_wfD [OF wf(1) m]
  have "wq_count (m_waiters mx) = 0" using wq_list_length [of s "m_waiters mx"] none mok
    by (simp add: mutex_ok_def)
  from ReleaseMutex_free [OF ok m this] c(1) have cl: "c < length (g_thread_table s)"
    and s': "s' = upd_mutex m (\<lambda>mx. mx\<lparr>m_locked := False, m_owner := None\<rparr>)
     (upd_thread c (\<lambda>th. th\<lparr>t_priority := t_base_priority th, t_owned_mutex := None\<rparr>) s)"
    by auto
  have table: "length (g_thread_table s') = length (g_thread_table s)"
    "t_waiting_mutex (g_thread_table s' ! i) = t_waiting_mutex (g_thread_table s ! i)"
    "i \<noteq> c \<Longrightarrow> prio s' i = prio s i" for i
    using s' cl by (cases "i = c"; simp add: prio_def)+
  have mm: "get_mutex m s' = Inr (mx\<lparr>m_locked := False, m_owner := None\<rparr>)"
    "\<And>k. k \<noteq> m \<Longrightarrow> get_mutex k s' = get_mutex k s" using m s' by simp_all
  have "mutex_ok s' k kx" if "get_mutex k s' = Inr kx" for k kx
  proof (cases "k = m")
    case True
    with that mm(1) mok none table show ?thesis
      by (auto simp: mutex_ok_def wq_wf_cong [OF table(1)])
  next
    case False
    with that mm(2) mutex_wfD [OF wf(1)] table show ?thesis
      by (simp add: mutex_ok_def wq_wf_cong [OF table(1)])
  qed
  moreover have "prio s' i \<le> prio s' o'" if w: "waits_for s' i o'" for i o'
  proof -
    obtain k kx where k: "i < length (g_thread_table s)" "t_waiting_mutex (g_thread_table s ! i) = Some k"
        "get_mutex k s = Inr kx" "m_owner kx = Some o'" "k \<noteq> m"
      using w table mm by (cases "t_waiting_mutex (g_thread_table s ! i) = Some m")
        (auto simp: waits_for_def)
    have "i \<noteq> c" using k(2) c(2) by auto
    moreover have "o' \<noteq> c"
      using single k mutex_wfD [OF wf(1) k(3)] by (auto simp: single_owner_def mutex_ok_def)
    moreover have "waits_for s i o'" using k by (auto simp: waits_for_def)
    ultimately show ?thesis using wf(2) table(3) by (simp add: inherit_ok_def)
  qed
  ultimately show ?thesis by (simp add: mutex_wf_def inherit_ok_def)
qed

text \<open>The hand-over seen through the invariant.\<close>

lemma ReleaseMutex_handover_view:
  assumes ok: "ReleaseMutex m s = Inr s'" and wf: "mutex_wf s" "ready_wf s"
    and c: "current_thread s = Some c" "t_waiting_mutex (g_thread_table s ! c) = None"
    and m: "get_mutex m s = Inr mx" and ne: "wq_list (m_waiters mx) \<noteq> []"
  obtains n mx' where "n \<in> set (wq_list (m_waiters mx))" "n < length (g_thread_table s)" "n \<noteq> c"
    "get_mutex m s' = Inr mx'" "m_owner mx' = Some n" "m_locked mx'" "wq_wf s (m_waiters mx')"
    "set (wq_list (m_waiters mx')) = set (wq_list (m_waiters mx)) - {n}"
    "distinct (wq_list (m_waiters mx'))"
    "\<And>k. k \<noteq> m \<Longrightarrow> get_mutex k s' = get_mutex k s"
    "length (g_thread_table s') = length (g_thread_table s)"
    "\<And>i. t_waiting_mutex (g_thread_table s' ! i) =
       (if i = n then None else t_waiting_mutex (g_thread_table s ! i))"
    "\<And>i. i \<noteq> c \<Longrightarrow> prio s' i = prio s i"
    "\<And>i. i \<in> set (wq_list (m_waiters mx)) \<Longrightarrow> prio s' i \<le> prio s' n"
proof -
  let ?ws = "wq_list (m_waiters mx)"
  note mok = mutex_wfD [OF wf(1) m]
  have wqw: "wq_wf s (m_waiters mx)" using mok by (simp add: mutex_ok_def)
  from ReleaseMutex_hands_over [OF ok m wqw ne wf(2)] c obtain b n w' t1 where
    own: "m_owner mx = Some c"
    and t1: "t1 = (g_thread_table s)[c := (g_thread_table s ! c)\<lparr>t_priority := t_base_priority (g_thread_table s ! c),
       t_owned_mutex := None\<rparr>]" and cl: "c < length (g_thread_table s)"
    and n: "n = ?ws ! b" and fm: "first_max (\<lambda>t. t_priority (t1 ! t)) ?ws b"
    and w': "wq_wf s w'" "wq_list w' = take b ?ws @ drop (Suc b) ?ws"
    and tbl: "g_thread_table s' = t1[n := (t1 ! n)\<lparr>t_waiting_mutex := None, t_owned_mutex := Some m,
       t_state := THREAD_READY\<rparr>]"
    and mm: "get_mutex m s' = Inr (mx\<lparr>m_header := (m_header mx)\<lparr>ref_count := ref_count (m_header mx) - 1\<rparr>,
       m_waiters := w', m_owner := Some n\<rparr>)"
    "\<And>m'. m' \<noteq> m \<Longrightarrow> get_mutex m' s' = get_mutex m' s"
    by (metis option.sel)
  have b: "b < length ?ws" using fm by (simp add: first_max_def)
  then have nw: "n \<in> set ?ws" using n by simp
  then have nl: "n < length (g_thread_table s)" using wqw by (simp add: wq_wf_def)
  have nm: "t_waiting_mutex (g_thread_table s ! n) = Some m" using mok nw nl by (simp add: mutex_ok_def)
  then have nc: "n \<noteq> c" using c(2) by auto
  have setw': "set (wq_list w') = set ?ws - {n}"
    unfolding w'(2) n using mok b by (intro set_take_drop_distinct) (simp_all add: mutex_ok_def)
  have dw': "distinct (wq_list w')"
    unfolding w'(2) using mok set_take_disj_set_drop_if_distinct [of ?ws b "Suc b"]
    by (simp add: mutex_ok_def)
  have table: "length (g_thread_table s') = length (g_thread_table s)"
    "t_waiting_mutex (g_thread_table s' ! i) = (if i = n then None else t_waiting_mutex (g_thread_table s ! i))"
    "i \<noteq> c \<Longrightarrow> prio s' i = prio s i" "t_priority (t1 ! i) = prio s' i" for i
    using tbl t1 cl nl nc by (cases "i = c"; cases "i = n"; simp add: prio_def)+
  have best: "prio s' i \<le> prio s' n" if "i \<in> set ?ws" for i
    using first_maxD [OF fm that] table(4) n by simp
  show thesis
    using that [OF nw nl nc mm(1) _ _ _ _ _ mm(2) table(1,2,3) best] w'(1) setw' dw' mok own
    by (simp add: mutex_ok_def)
qed

lemma ReleaseMutex_keeps_handover:
  assumes ok: "ReleaseMutex m s = Inr s'" and wf: "mutex_wf s" "ready_wf s" "inherit_ok s"
    and c: "current_thread s = Some c" "t_waiting_mutex (g_thread_table s ! c) = None"
    and single: "single_owner s c m"
    and m: "get_mutex m s = Inr mx" and ne: "wq_list (m_waiters mx) \<noteq> []"
  shows "mutex_wf s' \<and> inherit_ok s'"
proof -
  let ?ws = "wq_list (m_waiters mx)"
  note mok = mutex_wfD [OF wf(1) m]
  obtain n mx' where n: "n \<in> set ?ws" "n < length (g_thread_table s)" "n \<noteq> c"
    and mx': "get_mutex m s' = Inr mx'" "m_owner mx' = Some n" "m_locked mx'" "wq_wf s (m_waiters mx')"
      "set (wq_list (m_waiters mx')) = set ?ws - {n}" "distinct (wq_list (m_waiters mx'))"
    and other: "\<And>k. k \<noteq> m \<Longrightarrow> get_mutex k s' = get_mutex k s"
    and len: "length (g_thread_table s') = length (g_thread_table s)"
    and wait: "\<And>i. t_waiting_mutex (g_thread_table s' ! i) =
       (if i = n then None else t_waiting_mutex (g_thread_table s ! i))"
    and pr: "\<And>i. i \<noteq> c \<Longrightarrow> prio s' i = prio s i" "\<And>i. i \<in> set ?ws \<Longrightarrow> prio s' i \<le> prio s' n"
    by (rule ReleaseMutex_handover_view [OF ok wf(1,2) c m ne]) (rule that; assumption)
  have nm: "t_waiting_mutex (g_thread_table s ! n) = Some m" using mok n by (simp add: mutex_ok_def)
  have "mutex_ok s' k kx" if "get_mutex k s' = Inr kx" for k kx
  proof (cases "k = m")
    case True
    with that mx' have "kx = mx'" by simp
    with True mx' mok n wait show ?thesis
      by (auto simp: mutex_ok_def wq_wf_cong [OF len] len)
  next
    case False
    with that other have k: "get_mutex k s = Inr kx" by simp
    from mutex_wfD [OF wf(1) k] wait nm False show ?thesis
      by (auto simp: mutex_ok_def wq_wf_cong [OF len] len)
  qed
  moreover have "prio s' i \<le> prio s' o'" if w: "waits_for s' i o'" for i o'
  proof -
    obtain k kx where k: "i < length (g_thread_table s)" "t_waiting_mutex (g_thread_table s ! i) = Some k"
        "get_mutex k s' = Inr kx" "m_owner kx = Some o'"
      using w len wait by (auto simp: waits_for_def split: if_splits)
    show ?thesis
    proof (cases "k = m")
      case True
      then have "i \<in> set ?ws" using k mok by (simp add: mutex_ok_def)
      with pr(2) True k(3,4) mx'(1,2) show ?thesis by auto
    next
      case False
      with k other have ks: "get_mutex k s = Inr kx" by simp
      have "i \<noteq> c" using k(2) c(2) by auto
      moreover have "o' \<noteq> c"
        using single k ks False mutex_wfD [OF wf(1) ks] by (auto simp: single_owner_def mutex_ok_def)
      moreover have "waits_for s i o'" using k ks by (auto simp: waits_for_def)
      ultimately show ?thesis using wf(3) pr(1) by (simp add: inherit_ok_def)
    qed
  qed
  ultimately show ?thesis by (simp add: mutex_wf_def inherit_ok_def)
qed

lemma ReleaseMutex_keeps:
  assumes ok: "ReleaseMutex m s = Inr s'" and wf: "mutex_wf s" "ready_wf s" "inherit_ok s"
    and c: "current_thread s = Some c" "t_waiting_mutex (g_thread_table s ! c) = None"
    and single: "single_owner s c m"
  shows "mutex_wf s' \<and> inherit_ok s'"
proof -
  from ok c(1) obtain mx where m: "get_mutex m s = Inr mx"
    by (auto simp: ReleaseMutex_def bnd_eq_Inr)
  from ReleaseMutex_keeps_free [OF ok wf(1,3) c single m]
    ReleaseMutex_keeps_handover [OF ok wf c single m]
  show ?thesis by (cases "wq_list (m_waiters mx) = []") simp_all
qed

end
