(* ===== verification/BK_Interrupt.thy ===== *)
theory BK_Interrupt
  imports BK_Sync
begin

text \<open>
  DPC routines, the drain loop, \<open>PopIrql\<close> and interrupts of
  \<^verbatim>\<open>BLUE_KERNEL/BlueKernel_lvl3.c\<close>. The routines never touch the interrupt levels or the DPC
  ring (\<open>io_frame\<close>), which is why the drain loop ends and runs the queued routines oldest
  first (interpretation of \<open>work_queue\<close>), and why a handled interrupt leaves the level stack as
  it found it.
\<close>

section \<open>What the DPC routines leave alone\<close>

definition io_frame :: "kernel \<Rightarrow> IRQL list \<times> int \<times> IRQL \<times> DPC_ROUTINE option list \<times> nat \<times> nat \<times> nat" where
  "io_frame s = (irql_stack s, irql_top s, current_irql s, dpc_queue s, dpc_head s, dpc_tail s,
     dpc_count s)"

lemma io_frame_upd [simp]:
  "io_frame (upd_thread t f s) = io_frame s"
  "io_frame (upd_mutex m g s) = io_frame s"
  "io_frame (upd_event e h s) = io_frame s"
  "io_frame (upd_process p k s) = io_frame s"
  "io_frame (set_ready q r b s) = io_frame s"
  "io_frame (set_state t st s) = io_frame s"
  "io_frame (set_priority t pr s) = io_frame s"
  "io_frame (s\<lparr>reschedule_requested := x\<rparr>) = io_frame s"
  "io_frame (s\<lparr>current_thread := y\<rparr>) = io_frame s"
  "io_frame (s\<lparr>g_mutexes := ms\<rparr>) = io_frame s"
  by (simp_all add: io_frame_def upd_thread_def upd_mutex_def upd_event_def upd_process_def
      set_ready_def set_state_def set_priority_def)

lemma io_frame_set_wq [simp]: "io_frame (set_wq q w s) = io_frame s"
  by (cases q) simp_all

lemma io_frame_set_count [simp]: "io_frame (ob_set_count ob n s) = io_frame s"
  by (cases ob) simp_all

named_theorems io_frames \<open>operations that leave levels and DPC ring alone\<close>

lemma ReadyThread_io [io_frames]: "ReadyThread t s = Inr s' \<Longrightarrow> io_frame s' = io_frame s"
  by (auto dest!: ReadyThread_frame)

lemma CheckPreemption_io [io_frames]:
  "CheckPreemption t s = Inr s' \<Longrightarrow> io_frame s' = io_frame s"
  by (auto simp: CheckPreemption_def res_simps split: option.splits if_splits)

lemma TimerDPC_io [io_frames]: "TimerDPC s = Inr s' \<Longrightarrow> io_frame s' = io_frame s"
  by (auto simp: TimerDPC_def Let_def res_simps dest!: ReadyThread_io
      split: option.splits if_splits)

lemma Dequeue_io [io_frames]:
  "DequeueHighestPriority q s = Inr (t, s') \<Longrightarrow> io_frame s' = io_frame s"
  by (auto simp: DequeueHighestPriority_def res_simps split: if_splits)

lemma WakeOne_io [io_frames]: "WakeOne q s = Inr s' \<Longrightarrow> io_frame s' = io_frame s"
  by (auto simp: WakeOne_def res_simps dest!: io_frames split: if_splits)

lemma SignalEvent_io [io_frames]: "SignalEvent e s = Inr s' \<Longrightarrow> io_frame s' = io_frame s"
  by (auto simp: SignalEvent_def Let_def res_simps dest!: WakeOne_io split: if_splits)

section \<open>DPC routines\<close>

definition DeviceDpc :: "kernel \<Rightarrow> kernel res" where
  "DeviceDpc s = AccessMemory 2 s"

definition HighDpc :: "kernel \<Rightarrow> kernel res" where
  "HighDpc s = Inr s"

definition IoCompletionDpc :: "kernel \<Rightarrow> kernel res" where
  "IoCompletionDpc s = SignalEvent io_event s"

fun run_dpc :: "DPC_ROUTINE \<Rightarrow> kernel \<Rightarrow> kernel res" where
  "run_dpc DeviceDpc_fn s = DeviceDpc s"
| "run_dpc HighDpc_fn s = HighDpc s"
| "run_dpc TimerDPC_fn s = TimerDPC s"
| "run_dpc IoCompletionDpc_fn s = IoCompletionDpc s"

lemma run_dpc_io: "run_dpc r s = Inr s' \<Longrightarrow> io_frame s' = io_frame s"
  by (cases r) (auto simp: DeviceDpc_def HighDpc_def IoCompletionDpc_def AccessMemory_def
      dest: TimerDPC_io SignalEvent_io split: if_splits)

lemma io_frame_dpc:
  "io_frame s' = io_frame s \<Longrightarrow> dpc_wf s' = dpc_wf s \<and> dpc_pending s' = dpc_pending s
     \<and> dpc_count s' = dpc_count s"
  by (simp add: io_frame_def dpc_wf_def dpc_pending_def)

lemma io_frame_irql:
  "io_frame s' = io_frame s \<Longrightarrow> irql_wf s' = irql_wf s \<and> irql_held s' = irql_held s
     \<and> current_irql s' = current_irql s"
  by (simp add: io_frame_def irql_wf_def irql_held_def)

section \<open>Draining the queue\<close>

function drain_loop :: "kernel \<Rightarrow> kernel res" where
  "drain_loop s =
     (if dpc_count s > 0
      then bnd (deref (fst (TakeDpc s))) (\<lambda>r.
           bnd (run_dpc r (snd (TakeDpc s))) (\<lambda>s'. drain_loop s'))
      else Inr s)"
  by pat_completeness auto
termination
proof (relation "measure dpc_count")
  fix s r s'
  assume "0 < dpc_count s" "run_dpc r (snd (TakeDpc s)) = Inr s'"
  then show "(s', s) \<in> measure dpc_count"
    using io_frame_dpc [OF run_dpc_io, of r "snd (TakeDpc s)" s'] by (simp add: TakeDpc_def)
qed simp

declare drain_loop.simps [simp del]

definition DrainDpcQueue :: "kernel \<Rightarrow> kernel res" where
  "DrainDpcQueue s = (if current_irql s \<noteq> DISPATCH_LEVEL then Inr s else drain_loop s)"

interpretation dpcs: work_queue dpc_wf dpc_pending MAX_QUEUE QueueDpc TakeDpc run_dpc drain_loop
proof
  show "dpc_wf s' \<and> dpc_pending s' = dpc_pending s" if "dpc_wf s" "run_dpc r s = Inr s'" for s r s'
    using that io_frame_dpc [OF run_dpc_io [OF that(2)]] by simp
  show "drain_loop s = (case TakeDpc s of (None, s') \<Rightarrow> Inr s'
      | (Some r, s') \<Rightarrow> bnd (run_dpc r s') drain_loop)" if "dpc_wf s" for s
  proof (cases "dpc_pending s")
    case Nil
    then have "dpc_count s = 0" by (metis dpc_pending_length list.size(3))
    with dpcq.pop_Nil [OF that Nil] show ?thesis by (simp add: drain_loop.simps)
  next
    case (Cons r rs)
    then have "0 < dpc_count s" by (metis dpc_pending_length length_greater_0_conv list.distinct(1))
    with TakeDpc_pending [OF that Cons] show ?thesis
      by (subst drain_loop.simps) auto
  qed
qed

lemma drain_loop_io:
  "drain_loop s = Inr s' \<Longrightarrow> irql_stack s' = irql_stack s \<and> irql_top s' = irql_top s
     \<and> current_irql s' = current_irql s"
proof (induction s arbitrary: s' rule: drain_loop.induct)
  case (1 s)
  show ?case
  proof (cases "0 < dpc_count s")
    case True
    with "1.prems" obtain r s1 where
      r: "fst (TakeDpc s) = Some r" "run_dpc r (snd (TakeDpc s)) = Inr s1" "drain_loop s1 = Inr s'"
      by (subst (asm) drain_loop.simps) (auto simp: res_simps)
    have "deref (fst (TakeDpc s)) = Inr r" using r(1) by simp
    from "1.IH" [OF True this r(2,3)] run_dpc_io [OF r(2)] show ?thesis
      by (simp add: io_frame_def TakeDpc_def split: if_splits)
  next
    case False
    with "1.prems" show ?thesis by (simp add: drain_loop.simps)
  qed
qed


section \<open>Lowering the level\<close>

definition PopIrql :: "kernel \<Rightarrow> kernel res" where
  "PopIrql s =
     (if irql_top s < 0 then Inl (Bugcheck ''IRQL stack underflow'')
      else let old_level = current_irql s;
               new_level = (if irql_top s - 1 \<ge> 0 then irql_stack s ! nat (irql_top s - 1)
                            else PASSIVE_LEVEL);
               s1 = s\<lparr>irql_top := irql_top s - 1, current_irql := new_level\<rparr>
           in if old_level > DISPATCH_LEVEL \<and> new_level < DISPATCH_LEVEL
              then bnd (DrainDpcQueue (s1\<lparr>current_irql := DISPATCH_LEVEL\<rparr>))
                     (\<lambda>s2. Inr (s2\<lparr>current_irql := new_level\<rparr>))
              else Inr s1)"

lemma irql_held_snoc:
  assumes "irql_wf s" "0 \<le> irql_top s"
  defines "new_level \<equiv> (if irql_top s - 1 \<ge> 0 then irql_stack s ! nat (irql_top s - 1)
      else PASSIVE_LEVEL)"
  shows "irql_held s = butlast (irql_held s) @ [current_irql s]"
    and "butlast (irql_held s) = take (nat (irql_top s)) (irql_stack s)"
    and "new_level = (if butlast (irql_held s) = [] then PASSIVE_LEVEL
      else last (butlast (irql_held s)))"
proof -
  let ?n = "nat (irql_top s)"
  have n: "nat (irql_top s + 1) = Suc ?n" "?n < length (irql_stack s)"
    using assms(1,2) by (auto simp: irql_wf_def nat_add_distrib)
  show b: "butlast (irql_held s) = take ?n (irql_stack s)"
    using n by (simp add: irql_held_def take_Suc_conv_app_nth)
  have "irql_held s \<noteq> []" "last (irql_held s) = current_irql s"
    using irql_held_last [OF assms(1,2)] assms(1) by (auto simp: irql_wf_def)
  then show "irql_held s = butlast (irql_held s) @ [current_irql s]"
    by (metis append_butlast_last_id)
  show "new_level = (if butlast (irql_held s) = [] then PASSIVE_LEVEL
      else last (butlast (irql_held s)))"
  proof (cases "irql_top s = 0")
    case True
    with b show ?thesis by (simp add: new_level_def)
  next
    case False
    then have k: "?n = Suc (nat (irql_top s - 1))" using assms(2) by simp
    with b n have "last (butlast (irql_held s)) = irql_stack s ! nat (irql_top s - 1)"
      by (simp add: take_Suc_conv_app_nth)
    with False b k n assms(2) show ?thesis by (auto simp: new_level_def)
  qed
qed

lemma PopIrql_held:
  assumes wf: "irql_wf s" "dpc_wf s" and ok: "PopIrql s = Inr s'"
  shows "irql_held s' = butlast (irql_held s)" "irql_wf s'" "dpc_wf s'"
    "dpc_pending s' = (if current_irql s > DISPATCH_LEVEL \<and> current_irql s' < DISPATCH_LEVEL
       then [] else dpc_pending s)"
proof -
  have top: "0 \<le> irql_top s" using ok by (auto simp: PopIrql_def split: if_splits)
  define new_level where "new_level = (if irql_top s - 1 \<ge> 0
    then irql_stack s ! nat (irql_top s - 1) else PASSIVE_LEVEL)"
  define s1 where "s1 = s\<lparr>irql_top := irql_top s - 1, current_irql := new_level\<rparr>"
  let ?drains = "current_irql s > DISPATCH_LEVEL \<and> new_level < DISPATCH_LEVEL"
  note held = irql_held_snoc [OF wf(1) top, folded new_level_def]
  have ok': "(if ?drains then bnd (drain_loop (s1\<lparr>current_irql := DISPATCH_LEVEL\<rparr>))
      (\<lambda>s2. Inr (s2\<lparr>current_irql := new_level\<rparr>)) else Inr s1) = Inr s'"
    using ok top unfolding PopIrql_def Let_def new_level_def [symmetric] s1_def [symmetric]
    by (auto simp: DrainDpcQueue_def split: if_splits)
  have dpc1: "dpc_wf (s1\<lparr>current_irql := l\<rparr>)" "dpc_wf s1" "dpc_pending s1 = dpc_pending s" for l
    using wf(2) by (simp_all add: s1_def dpc_wf_def dpc_pending_def)
  have levels: "irql_stack s' = irql_stack s" "irql_top s' = irql_top s - 1"
      "current_irql s' = new_level"
    using ok' by (auto simp: s1_def res_simps dest!: drain_loop_io split: if_splits)
  show h: "irql_held s' = butlast (irql_held s)"
    using levels held(2) by (simp add: irql_held_def)
  have "sorted_wrt (<) (butlast (irql_held s))"
    using wf(1) held(1) by (metis irql_wf_def sorted_wrt_append)
  then show "irql_wf s'"
    using wf(1) h levels held(3) top by (auto simp: irql_wf_def)
  have "dpc_wf s' \<and> dpc_pending s' = (if ?drains then [] else dpc_pending s)"
  proof (cases ?drains)
    case True
    with ok' obtain s2 where "drain_loop (s1\<lparr>current_irql := DISPATCH_LEVEL\<rparr>) = Inr s2"
        "s' = s2\<lparr>current_irql := new_level\<rparr>" by (auto simp: res_simps)
    with dpcs.drain_empties [OF dpc1(1)] True show ?thesis
      by (auto simp: dpc_wf_def dpc_pending_def)
  qed (use ok' dpc1 in auto)
  then show "dpc_wf s'" "dpc_pending s' = (if current_irql s > DISPATCH_LEVEL
      \<and> current_irql s' < DISPATCH_LEVEL then [] else dpc_pending s)"
    using levels(3) by simp_all
qed

section \<open>Interrupts\<close>

definition DeviceIsr :: "kernel \<Rightarrow> kernel res" where
  "DeviceIsr s = QueueDpc DeviceDpc_fn s"

definition HighIsr :: "kernel \<Rightarrow> kernel res" where
  "HighIsr s = QueueDpc HighDpc_fn s"

definition TimerIsr :: "kernel \<Rightarrow> kernel res" where
  "TimerIsr s = QueueDpc TimerDPC_fn s"

text \<open>
  \<open>LowIsr\<close> raises an interrupt of its own. A nested interrupt runs only above the current
  level, and there are six levels: that bounds the nesting.
\<close>

function (sequential) TriggerInterrupt :: "INTERRUPT \<Rightarrow> kernel \<Rightarrow> kernel res"
  and run_isr :: "ISR_ROUTINE \<Rightarrow> kernel \<Rightarrow> kernel res"
  and LowIsr :: "kernel \<Rightarrow> kernel res" where
  "TriggerInterrupt i s =
     (if irql i \<le> current_irql s then Inr s
      else bnd (PushIrql (irql i) s) (\<lambda>s1. bnd (run_isr (isr i) s1) (\<lambda>s2. PopIrql s2)))"
| "run_isr DeviceIsr_fn s = DeviceIsr s"
| "run_isr HighIsr_fn s = HighIsr s"
| "run_isr TimerIsr_fn s = TimerIsr s"
| "run_isr LowIsr_fn s = LowIsr s"
| "LowIsr s = bnd (TriggerInterrupt \<lparr>irql = MACHINE_CHECK, isr = HighIsr_fn\<rparr> s)
     (\<lambda>s1. QueueDpc DeviceDpc_fn s1)"
  by pat_completeness auto
termination
proof (relation "measure (\<lambda>x. case x of
    Inl (i, s) \<Rightarrow> 3 * (5 - irql_num (current_irql s))
  | Inr (Inl (r, s)) \<Rightarrow> 3 * (5 - irql_num (current_irql s)) + 2
  | Inr (Inr s) \<Rightarrow> 3 * (5 - irql_num (current_irql s)) + 1)")
  fix i s s1
  assume "\<not> irql i \<le> current_irql s" and "PushIrql (irql i) s = Inr s1"
  then have "irql_num (current_irql s) < irql_num (current_irql s1)"
    by (auto simp: PushIrql_def IRQL_order split: if_splits)
  with irql_num_le [of "current_irql s1"]
  have "3 * (5 - irql_num (current_irql s1)) + 2 < 3 * (5 - irql_num (current_irql s))"
    by simp
  then show "(Inr (Inl (isr i, s1)), Inl (i, s)) \<in> measure (\<lambda>x. case x of
    Inl (i, s) \<Rightarrow> 3 * (5 - irql_num (current_irql s))
  | Inr (Inl (r, s)) \<Rightarrow> 3 * (5 - irql_num (current_irql s)) + 2
  | Inr (Inr s) \<Rightarrow> 3 * (5 - irql_num (current_irql s)) + 1)"
    by simp
qed simp_all

declare TriggerInterrupt.simps [simp del]

definition StartIoOperation :: "kernel \<Rightarrow> kernel res" where
  "StartIoOperation s =
     bnd (PushIrql DIRQL s) (\<lambda>s1. bnd (QueueDpc IoCompletionDpc_fn s1) PopIrql)"


section \<open>Interrupts are balanced\<close>

lemma irql_wf_current: "irql_wf s \<Longrightarrow> irql_held s \<noteq> [] \<Longrightarrow> current_irql s = last (irql_held s)"
  by (simp add: irql_wf_def)

lemma irql_held_current:
  "irql_wf s \<Longrightarrow> irql_wf s' \<Longrightarrow> irql_held s' = irql_held s \<Longrightarrow> current_irql s' = current_irql s"
  by (simp add: irql_wf_def)

lemma UNIV_IRQL:
  "UNIV = {PASSIVE_LEVEL, APC_LEVEL, DISPATCH_LEVEL, DIRQL, KEYBOARD, MACHINE_CHECK}"
  by (auto intro: IRQL.exhaust)

lemma finite_IRQL: "finite (UNIV :: IRQL set)"
  by (simp add: UNIV_IRQL)

lemma irql_held_small: "irql_wf s \<Longrightarrow> length (irql_held s) \<le> 6"
proof -
  assume "irql_wf s"
  then have "sorted_wrt (<) (irql_held s)" by (simp add: irql_wf_def)
  then have "card (set (irql_held s)) = length (irql_held s)"
    by (simp add: distinct_card strict_sorted_iff)
  moreover have "card (set (irql_held s)) \<le> card (UNIV :: IRQL set)"
    by (intro card_mono finite_IRQL subset_UNIV)
  ultimately show ?thesis by (simp add: UNIV_IRQL)
qed

lemma PushIrql_above:
  "irql_wf s \<Longrightarrow> current_irql s < l \<Longrightarrow> \<exists>s'. PushIrql l s = Inr s'"
  using irql_held_small [of s] irql_wf_current [of s]
  by (subst PushIrql_accepts) auto

lemma QueueDpc_levels:
  "QueueDpc r s = Inr s' \<Longrightarrow> irql_wf s' = irql_wf s \<and> irql_held s' = irql_held s
     \<and> current_irql s' = current_irql s"
  by (auto simp: QueueDpc_def irql_wf_def irql_held_def split: if_splits)

lemma PushIrql_dpc:
  "PushIrql l s = Inr s' \<Longrightarrow> dpc_wf s' = dpc_wf s \<and> dpc_pending s' = dpc_pending s"
  by (auto simp: PushIrql_def dpc_wf_def dpc_pending_def split: if_splits)

text \<open>What an interrupt and a service routine both keep.\<close>

definition irq_kept :: "kernel \<Rightarrow> kernel \<Rightarrow> bool" where
  "irq_kept s s' \<longleftrightarrow> (irql_wf s \<and> dpc_wf s \<longrightarrow>
     irql_wf s' \<and> dpc_wf s' \<and> irql_held s' = irql_held s)"

lemma irq_kept_refl [wf_intros]: "irq_kept s s"
  by (simp add: irq_kept_def)

lemma irq_kept_trans: "irq_kept s s1 \<Longrightarrow> irq_kept s1 s2 \<Longrightarrow> irq_kept s s2"
  by (simp add: irq_kept_def)

lemma QueueDpc_kept: "QueueDpc r s = Inr s' \<Longrightarrow> irq_kept s s'"
  using QueueDpc_pending(1) [of s r s'] QueueDpc_levels [of r s s'] by (auto simp: irq_kept_def)

lemma push_isr_pop_kept:
  assumes "PushIrql l s = Inr s1" "irq_kept s1 s2" "PopIrql s2 = Inr s'"
  shows "irq_kept s s'"
  unfolding irq_kept_def
proof (intro impI)
  assume wf: "irql_wf s \<and> dpc_wf s"
  with assms(1) PushIrql_held [of s l s1] PushIrql_dpc have s1: "irql_wf s1" "dpc_wf s1" "irql_held s1 = irql_held s @ [l]"
    by auto
  with assms(2) have s2: "irql_wf s2" "dpc_wf s2" "irql_held s2 = irql_held s @ [l]"
    by (auto simp: irq_kept_def)
  from PopIrql_held(1-3) [OF s2(1,2) assms(3)] s2(3)
  show "irql_wf s' \<and> dpc_wf s' \<and> irql_held s' = irql_held s" by simp
qed

lemma interrupt_kept:
  "TriggerInterrupt i s = Inr s' \<Longrightarrow> irq_kept s s'"
  "run_isr r s = Inr s' \<Longrightarrow> irq_kept s s'"
  "LowIsr s = Inr s' \<Longrightarrow> irq_kept s s'"
proof (induction i s and r s and s arbitrary: s' and s' and s'
    rule: TriggerInterrupt_run_isr_LowIsr.induct)
  case (1 i s)
  then show ?case
    by (subst (asm) TriggerInterrupt.simps)
      (auto simp: res_simps intro: wf_intros push_isr_pop_kept split: if_splits)
next
  case (6 s)
  from "6.prems" obtain s1 where
    s1: "TriggerInterrupt \<lparr>irql = MACHINE_CHECK, isr = HighIsr_fn\<rparr> s = Inr s1"
      "QueueDpc DeviceDpc_fn s1 = Inr s'"
    by (auto simp: res_simps)
  then show ?case using "6.IH" QueueDpc_kept irq_kept_trans by blast
qed (auto simp: DeviceIsr_def HighIsr_def TimerIsr_def intro: QueueDpc_kept)

lemma TriggerInterrupt_masked: "irql i \<le> current_irql s \<Longrightarrow> TriggerInterrupt i s = Inr s"
  by (subst TriggerInterrupt.simps) simp

lemma TriggerInterrupt_cases:
  assumes "TriggerInterrupt i s = Inr s'" "current_irql s < irql i"
  obtains s1 s2 where "PushIrql (irql i) s = Inr s1" "run_isr (isr i) s1 = Inr s2"
    "PopIrql s2 = Inr s'"
  using assms by (subst (asm) TriggerInterrupt.simps) (auto simp: res_simps split: if_splits)

lemma TriggerInterrupt_drains:
  assumes wf: "irql_wf s" "dpc_wf s" and ok: "TriggerInterrupt i s = Inr s'"
    and levels: "current_irql s < DISPATCH_LEVEL" "DISPATCH_LEVEL < irql i"
  shows "dpc_pending s' = []"
proof -
  have "current_irql s < irql i" using levels by simp
  with ok obtain s1 s2 where s: "PushIrql (irql i) s = Inr s1" "run_isr (isr i) s1 = Inr s2"
    "PopIrql s2 = Inr s'" by (rule TriggerInterrupt_cases)
  from s(1) wf PushIrql_held PushIrql_dpc have s1: "irql_wf s1" "dpc_wf s1"
      "irql_held s1 = irql_held s @ [irql i]"
    by auto
  with interrupt_kept(2) [OF s(2)] have s2: "irql_wf s2" "dpc_wf s2"
      "irql_held s2 = irql_held s @ [irql i]"
    by (auto simp: irq_kept_def)
  then have "current_irql s2 = irql i" by (simp add: irql_wf_current)
  moreover have "current_irql s' = current_irql s"
    using interrupt_kept(1) [OF ok] wf by (auto simp: irq_kept_def intro: irql_held_current)
  ultimately show ?thesis
    using PopIrql_held(4) [OF s2(1,2) s(3)] levels by simp
qed

end
