(* ===== verification/BK_Main.thy ===== *)
theory BK_Main
  imports BK_Interrupt
begin

text \<open>
  Processes, threads, the demonstration threads and \<open>main\<close> of
  \<^verbatim>\<open>BLUE_KERNEL/BlueKernel_lvl3.c\<close>. A run of \<open>kernel_main\<close> is \<open>None\<close> when the scheduler's search
  never ends. \<^verbatim>\<open>printf\<close> output is not part of the state.
\<close>

section \<open>Processes and threads\<close>

definition CreateProcess :: "kernel \<Rightarrow> (nat \<times> kernel) res" where
  "CreateProcess s =
     (if process_count s \<ge> MAX_PROCESSES then Inl (Bugcheck ''Process table is overflow'')
      else let p = process_count s
           in Inr (p, upd_process p (\<lambda>pr. pr\<lparr>p_pid := int (process_count s + 1), p_exist := True,
                  p_thread_count := 0, p_handle_table := replicate MAX_HANDLES None\<rparr>)
                (s\<lparr>process_count := process_count s + 1\<rparr>)))"

fun live_scan :: "kernel \<Rightarrow> PROCESS \<Rightarrow> nat list \<Rightarrow> bool res" where
  "live_scan s pr [] = Inr False"
| "live_scan s pr (i # is) =
     bnd (aread (p_threads pr) i) (\<lambda>t. bnd (deref t) (\<lambda>t. bnd (get_thread t s) (\<lambda>th.
       if t_state th \<noteq> THREAD_TERMINATED then Inr True else live_scan s pr is)))"

definition ProcessHasLiveThreads :: "nat \<Rightarrow> kernel \<Rightarrow> bool res" where
  "ProcessHasLiveThreads p s = bnd (get_process p s) (\<lambda>pr. live_scan s pr [0..<p_thread_count pr])"

definition CreateThread :: "nat \<Rightarrow> ThreadRoutine \<Rightarrow> int \<Rightarrow> kernel \<Rightarrow> kernel res" where
  "CreateThread process tdR priority s =
     (if g_thread_count s \<ge> MAX_THREADS then Inl (Bugcheck ''Thread Table overflow'')
      else let t = g_thread_count s;
               s1 = upd_thread t (\<lambda>th. th\<lparr>t_id := int (g_thread_count s + 1), t_pc := 0,
                      t_priority := priority, t_base_priority := priority, t_quantum := 3,
                      t_state := THREAD_READY, t_tRoutine := Some tdR, t_owner := Some process\<rparr>)
                    (s\<lparr>g_thread_count := g_thread_count s + 1\<rparr>)
           in bnd (if tdR \<noteq> IdleThread_fn then ReadyThread t s1 else Inr s1) (\<lambda>s2.
              bnd (get_process process s2) (\<lambda>pr.
              bnd (aread (p_threads pr) (p_thread_count pr)) (\<lambda>_.
                CheckPreemption t (upd_process process (\<lambda>pr.
                  pr\<lparr>p_threads := (p_threads pr)[p_thread_count pr := Some t],
                     p_thread_count := p_thread_count pr + 1\<rparr>) s2)))))"

section \<open>The demonstration threads\<close>

definition IdleThread :: "nat \<Rightarrow> kernel \<Rightarrow> kernel res" where
  "IdleThread t s = Inr s"

definition set_pc :: "nat \<Rightarrow> int \<Rightarrow> kernel \<Rightarrow> kernel" where
  "set_pc t pc = upd_thread t (\<lambda>th. th\<lparr>t_pc := pc\<rparr>)"

text \<open>The last step of every thread: terminate and ask for a new schedule.\<close>

definition finish_thread :: "nat \<Rightarrow> kernel \<Rightarrow> kernel res" where
  "finish_thread t s = bnd (TerminateThread t s) (\<lambda>s1. Inr (s1\<lparr>reschedule_requested := True\<rparr>))"

definition Thread_A :: "nat \<Rightarrow> kernel \<Rightarrow> kernel res" where
  "Thread_A t s = bnd (get_thread t s) (\<lambda>th.
     if t_pc th = 0 then Inr (set_pc t 1 s)
     else if t_pc th = 1 then Inr (set_pc t 2 s)
     else if t_pc th = 2 then finish_thread t s
     else Inr s)"

definition Thread_B :: "nat \<Rightarrow> kernel \<Rightarrow> kernel res" where
  "Thread_B t s = bnd (get_thread t s) (\<lambda>th.
     if t_pc th = 0 then Inr (set_pc t 1 s)
     else if t_pc th = 1 then bnd (StartIoOperation (set_pc t 2 s)) (WaitEvent io_event)
     else if t_pc th = 2 then finish_thread t s
     else Inr s)"

text \<open>The cast of an object pointer to \<^verbatim>\<open>MUTEX*\<close>.\<close>

fun as_mutex :: "KOBJECT_PTR \<Rightarrow> nat res" where
  "as_mutex (MutexObj m) = Inr m"
| "as_mutex (EventObj e) = Inl (Undefined ''event used as a mutex'')"

definition handle_object :: "nat \<Rightarrow> int \<Rightarrow> kernel \<Rightarrow> (KOBJECT_PTR option \<times> kernel) res" where
  "handle_object t h s = bnd (get_thread t s) (\<lambda>th. bnd (deref (t_owner th)) (\<lambda>p.
     ObReferenceObjectByHandle p h s))"

definition Thread_L :: "nat \<Rightarrow> kernel \<Rightarrow> kernel res" where
  "Thread_L t s = bnd (handle_object t (g_hMutex1 s) s) (\<lambda>(obj, s).
     case obj of None \<Rightarrow> Inl (Bugcheck ''Invalid handle'')
     | Some obj \<Rightarrow> bnd (as_mutex obj) (\<lambda>m1. bnd (get_thread t s) (\<lambda>th.
         if t_pc th = 0
         then bnd (AcquireMutex m1 s) (\<lambda>s1. ObDereferenceObject obj (set_pc t 1 s1))
         else if t_pc th = 1 then Inr (set_pc t 2 s)
         else if t_pc th = 2
         then bnd (ReleaseMutex m1 s) (\<lambda>s1. bnd (finish_thread t s1) (ObDereferenceObject obj))
         else Inr s)))"

definition Thread_M :: "nat \<Rightarrow> kernel \<Rightarrow> kernel res" where
  "Thread_M t s =
     bnd (handle_object t (g_hMutex1 s) s) (\<lambda>(obj1, s).
     bnd (handle_object t (g_hMutex2 s) s) (\<lambda>(obj2, s).
       case (obj1, obj2) of
         (Some obj1, Some obj2) \<Rightarrow>
           bnd (as_mutex obj1) (\<lambda>m1. bnd (as_mutex obj2) (\<lambda>m2. bnd (get_thread t s) (\<lambda>th.
           bnd (if t_pc th = 0 then bnd (AcquireMutex m2 s) (\<lambda>s1. Inr (set_pc t 1 s1))
                else if t_pc th = 1 then bnd (AcquireMutex m1 s) (\<lambda>s1. Inr (set_pc t 2 s1))
                else if t_pc th = 2 then bnd (ReleaseMutex m2 s) (finish_thread t)
                else Inr s) (\<lambda>s1.
           bnd (ObDereferenceObject obj1 s1) (ObDereferenceObject obj2)))))
       | _ \<Rightarrow> Inl (Bugcheck ''Invalid handle'')))"

definition Thread_H :: "nat \<Rightarrow> kernel \<Rightarrow> kernel res" where
  "Thread_H t s = bnd (handle_object t (g_hMutex2 s) s) (\<lambda>(obj, s).
     case obj of None \<Rightarrow> Inl (Bugcheck ''Invalid handle'')
     | Some obj \<Rightarrow> bnd (as_mutex obj) (\<lambda>m2. bnd (get_thread t s) (\<lambda>th.
         if t_pc th = 0
         then bnd (AcquireMutex m2 s) (\<lambda>s1. ObDereferenceObject obj (set_pc t 1 s1))
         else if t_pc th = 1
         then bnd (ReleaseMutex m2 s) (\<lambda>s1. bnd (finish_thread t s1) (ObDereferenceObject obj))
         else Inr s)))"

fun run_routine :: "ThreadRoutine \<Rightarrow> nat \<Rightarrow> kernel \<Rightarrow> kernel res" where
  "run_routine IdleThread_fn t s = IdleThread t s"
| "run_routine Thread_A_fn t s = Thread_A t s"
| "run_routine Thread_B_fn t s = Thread_B t s"
| "run_routine Thread_L_fn t s = Thread_L t s"
| "run_routine Thread_M_fn t s = Thread_M t s"
| "run_routine Thread_H_fn t s = Thread_H t s"

definition run_current :: "kernel \<Rightarrow> kernel res" where
  "run_current s = bnd (deref (current_thread s)) (\<lambda>c. bnd (get_thread c s) (\<lambda>ct.
     bnd (deref (t_tRoutine ct)) (\<lambda>r. run_routine r c s)))"

section \<open>The main program\<close>

text \<open>One turn of the loop of \<^verbatim>\<open>main\<close>; \<open>m1\<close>, \<open>m2\<close> and \<open>user\<close> are its local variables.\<close>

definition timer_tick :: "nat \<Rightarrow> nat \<Rightarrow> nat \<Rightarrow> kernel \<Rightarrow> kernel res option" where
  "timer_tick m1 m2 user s =
     obnd (Some (TriggerInterrupt \<lparr>irql = DIRQL, isr = TimerIsr_fn\<rparr> s)) (\<lambda>s1.
     obnd (if current_irql s1 < DISPATCH_LEVEL
           then obnd (if reschedule_requested s1
                      then obnd (Schedule s1) (\<lambda>s2. Some (Inr (s2\<lparr>reschedule_requested := False\<rparr>)))
                      else Some (Inr s1)) (\<lambda>s2.
                Some (bnd (DetectPriorityInversion m1 s2) (\<lambda>_.
                      bnd (DetectPriorityInversion m2 s2) (\<lambda>_. Inr s2))))
           else Some (Inr s1)) (\<lambda>s3.
     obnd (Some (case current_thread s3 of
             None \<Rightarrow> Inr s3
           | Some c \<Rightarrow> bnd (get_thread c s3) (\<lambda>ct.
               if t_state ct = THREAD_RUNNING then run_current s3 else Inr s3))) (\<lambda>s4.
     Some (bnd (get_process user s4) (\<lambda>pr.
       if p_exist pr
       then bnd (ProcessHasLiveThreads user s4)
              (\<lambda>live. if \<not> live then DestroyProcess user s4 else Inr s4)
       else Inr s4)))))"

fun timer_ticks :: "nat \<Rightarrow> nat \<Rightarrow> nat \<Rightarrow> nat \<Rightarrow> kernel \<Rightarrow> kernel res option" where
  "timer_ticks m1 m2 user 0 s = Some (Inr s)"
| "timer_ticks m1 m2 user (Suc n) s = obnd (timer_tick m1 m2 user s) (timer_ticks m1 m2 user n)"

text \<open>
  \<^verbatim>\<open>main\<close> up to its loop. \<open>ok1\<close> and \<open>ok2\<close> say whether the two \<^verbatim>\<open>malloc\<close> calls succeed. The result
  is the first mutex, the second, the user process and the state.
\<close>

definition main_setup :: "bool \<Rightarrow> bool \<Rightarrow> kernel \<Rightarrow> ((nat \<times> nat \<times> nat) \<times> kernel) res option" where
  "main_setup ok1 ok2 s =
     (let s = InitDispatcher (BuildDeBurijnTable s) in
      obnd (Some (bnd (KernelWait s) (TriggerInterrupt \<lparr>irql = DIRQL, isr = LowIsr_fn\<rparr>))) (\<lambda>s.
      obnd (Some (CreateProcess s)) (\<lambda>(user, s).
      obnd (Some (CreateProcess s)) (\<lambda>(sys, s).
      obnd (Some (CreateMutexObject ok1 s)) (\<lambda>(m1, s).
      obnd (Some (CreateMutexObject ok2 s)) (\<lambda>(m2, s).
      obnd (Some (ObInsertHandle user (MutexObj m1) s)) (\<lambda>(h1, s).
      obnd (Some (ObInsertHandle user (MutexObj m2) (s\<lparr>g_hMutex1 := h1\<rparr>))) (\<lambda>(h2, s).
      obnd (Some (CreateThread sys IdleThread_fn 1 (s\<lparr>g_hMutex2 := h2\<rparr>))) (\<lambda>s.
      obnd (Some (CreateThread user Thread_L_fn 1
             (s\<lparr>idle_thread := Some (g_thread_count s - 1)\<rparr>))) (\<lambda>s.
      obnd (Schedule s) (\<lambda>s.
      obnd (Some (bnd (run_current s) (CreateThread user Thread_M_fn 3))) (\<lambda>s.
      obnd (Schedule s) (\<lambda>s.
      Some (bnd (run_current s) (\<lambda>s. bnd (CreateThread user Thread_H_fn 5 s) (\<lambda>s.
        bnd (InitEvent io_event s) (\<lambda>s. Inr ((m1, m2, user), s))))))))))))))))))"

definition kernel_main :: "bool \<Rightarrow> bool \<Rightarrow> kernel \<Rightarrow> kernel res option" where
  "kernel_main ok1 ok2 s =
     obnd (main_setup ok1 ok2 s) (\<lambda>((m1, m2, user), s). timer_ticks m1 m2 user 11 s)"

end
