(* ===== verification/Samples.thy ===== *)
theory Samples
  imports BK_Mutex BK_Main
begin

text \<open>
  Concrete states of the kernel of \<^verbatim>\<open>BLUE_KERNEL/BlueKernel_lvl3.c\<close>, reached by its own operations
  from the initial one, at which the properties are instantiated, with the facts about them that
  the instances need. The invariants of the mutexes quantify over all pointers; they are given
  an executable form here.
\<close>

section \<open>Executable forms of the mutex invariants\<close>

lemma mutex_ok_code [code]:
  "mutex_ok s m mx \<longleftrightarrow> wq_wf s (m_waiters mx) \<and> distinct (wq_list (m_waiters mx))
     \<and> (m_locked mx \<longleftrightarrow> m_owner mx \<noteq> None)
     \<and> (case m_owner mx of None \<Rightarrow> wq_list (m_waiters mx) = []
        | Some ow \<Rightarrow> ow < length (g_thread_table s))
     \<and> (\<forall>i < length (g_thread_table s).
          t_waiting_mutex (g_thread_table s ! i) = Some m \<longleftrightarrow> i \<in> set (wq_list (m_waiters mx)))"
  by (auto simp: mutex_ok_def split: option.splits)

lemma mutex_wf_code [code]:
  "mutex_wf s \<longleftrightarrow> (\<forall>m < length (g_mutexes s).
     case g_mutexes s ! m of None \<Rightarrow> True | Some mx \<Rightarrow> mutex_ok s m mx)"
  by (auto simp: mutex_wf_def res_simps split: option.splits)

lemma inherit_ok_code [code]:
  "inherit_ok s \<longleftrightarrow> (\<forall>i < length (g_thread_table s).
     case t_waiting_mutex (g_thread_table s ! i) of None \<Rightarrow> True
     | Some m \<Rightarrow> (case get_mutex m s of Inl e \<Rightarrow> True
         | Inr mx \<Rightarrow> (case m_owner mx of None \<Rightarrow> True | Some ow \<Rightarrow> prio s i \<le> prio s ow)))"
  by (auto simp: inherit_ok_def waits_for_def split: option.splits sum.splits)

lemma single_owner_code [code]:
  "single_owner s c m \<longleftrightarrow> (\<forall>k < length (g_mutexes s). k \<noteq> m \<longrightarrow>
     (case g_mutexes s ! k of None \<Rightarrow> True
      | Some kx \<Rightarrow> m_owner kx = Some c \<longrightarrow> wq_list (m_waiters kx) = []))"
  by (auto simp: single_owner_def res_simps split: option.splits)

section \<open>Two ready threads\<close>

text \<open>The dispatcher initialised, and one process with two threads of priorities 3 and 5.\<close>

definition booted :: kernel where
  "booted = InitDispatcher (BuildDeBurijnTable initial_kernel)"

definition two_threads :: kernel where
  "two_threads = the_res initial_kernel
     (bnd (CreateProcess booted) (\<lambda>(p, s). bnd (CreateThread p Thread_A_fn 3 s)
        (CreateThread p Thread_B_fn 5)))"

lemma two_threads_wf: "sched_wf two_threads"
  by code_simp

lemma two_threads_ready:
  "dropWhile (\<lambda>t. terminated t two_threads) (ready_flat two_threads) = [1, 0]"
  by code_simp

text \<open>The first of them running: its own entry is taken out of the queue.\<close>

definition one_running :: kernel where
  "one_running = (set_state 0 THREAD_RUNNING
     (the_res initial_kernel (bnd (RemoveReadyThread 3 two_threads) (\<lambda>(t, s). Inr s))))
     \<lparr>current_thread := Some 0\<rparr>"

lemma one_running_facts:
  "sched_wf one_running" "current_irql one_running < DISPATCH_LEVEL"
  "dropWhile (\<lambda>u. terminated u one_running) (ready_flat one_running) = [1]"
  "current_thread one_running = Some 0" "0 < length (g_thread_table one_running)"
  "t_state (g_thread_table one_running ! 0) = THREAD_RUNNING"
  "t_priority (g_thread_table one_running ! 0) = int 3"
  "length (ready_flat one_running) \<le> MAX_THREADS"
  by code_simp+

text \<open>A thread of priority 31, the highest one.\<close>

definition top_priority :: kernel where
  "top_priority = the_res initial_kernel
     (bnd (CreateProcess booted) (\<lambda>(p, s). CreateThread p Thread_A_fn 31 s))"

lemma top_priority_facts:
  "ready_wf top_priority" "priority_table_ok top_priority"
  "ready_list top_priority 31 \<noteq> []" "ready_list top_priority 0 = []"
  by code_simp+

section \<open>A contended mutex\<close>

text \<open>Mutex 0 is held by thread 0 of priority 1; thread 1 of priority 3 runs and wants it.\<close>

definition contended :: kernel where
  "contended = the_res initial_kernel
     (bnd (CreateProcess booted) (\<lambda>(p, s). bnd (CreateMutexObject True s) (\<lambda>(m, s).
      bnd (CreateThread p Thread_L_fn 1 s) (\<lambda>s. bnd (CreateThread p Thread_M_fn 3 s) (\<lambda>s.
      bnd (AcquireMutex m (s\<lparr>current_thread := Some 0\<rparr>)) (\<lambda>s.
        Inr (s\<lparr>current_thread := Some 1\<rparr>)))))))"

definition waiting :: kernel where
  "waiting = the_res initial_kernel (AcquireMutex 0 contended)"

definition releasing :: kernel where
  "releasing = waiting\<lparr>current_thread := Some 0\<rparr>"

definition released_to :: kernel where
  "released_to = the_res initial_kernel (ReleaseMutex 0 releasing)"

lemma contended_facts:
  "AcquireMutex 0 contended = Inr waiting" "mutex_wf contended" "inherit_ok contended"
  "current_thread contended = Some 1" "t_waiting_mutex (g_thread_table contended ! 1) = None"
  by code_simp+

lemma releasing_facts:
  "ReleaseMutex 0 releasing = Inr released_to" "mutex_wf releasing" "inherit_ok releasing"
  "ready_wf releasing" "current_thread releasing = Some 0"
  "t_waiting_mutex (g_thread_table releasing ! 0) = None" "single_owner releasing 0 0"
  by code_simp+

section \<open>Levels, deferred calls and handles\<close>

text \<open>Thread 1 waits for the event; the level is raised to \<open>DISPATCH_LEVEL\<close>.\<close>

definition signalling :: kernel where
  "signalling = the_res initial_kernel
     (bnd (InitEvent io_event two_threads) (\<lambda>s.
      bnd (WaitEvent io_event (s\<lparr>current_thread := Some 1\<rparr>)) (PushIrql DISPATCH_LEVEL)))"

definition dispatching :: kernel where
  "dispatching = the_res initial_kernel (bnd (PushIrql DISPATCH_LEVEL booted) (\<lambda>s.
     bnd (QueueDpc HighDpc_fn s) (QueueDpc DeviceDpc_fn)))"

text \<open>A process with one handle to a mutex.\<close>

definition with_handle :: kernel where
  "with_handle = the_res initial_kernel (bnd (CreateProcess booted) (\<lambda>(p, s).
     bnd (CreateMutexObject True s) (\<lambda>(m, s). bnd (ObInsertHandle p (MutexObj m) s)
       (\<lambda>(h, s). Inr s))))"

lemma refs_cover_code [code]:
  "refs_cover p is s \<longleftrightarrow> (\<forall>i \<in> set is. case handle_slot p i s of None \<Rightarrow> True
     | Some obj \<Rightarrow> (case ob_count obj s of None \<Rightarrow> False
         | Some n \<Rightarrow> handle_count p is obj s \<le> n \<and> (is_variable obj \<longrightarrow> handle_count p is obj s < n)))"
proof -
  have "handle_count p is obj s > 0 \<longleftrightarrow> (\<exists>i \<in> set is. handle_slot p i s = Some obj)" for obj
    by (auto simp: handle_count_def filter_empty_conv)
  then show ?thesis unfolding refs_cover_def by (fastforce split: option.splits)
qed

end
