(* ===== verification/BK_Props.thy ===== *)
theory BK_Props
  imports Samples
begin

text \<open>
  The properties of the kernel simulator \<^verbatim>\<open>BLUE_KERNEL/BlueKernel_lvl3.c\<close>: scheduling, mutexes
  with priority inheritance, events, interrupts, deferred calls, objects and handles. Each is
  instantiated at a state of \<open>Samples\<close>.
\<close>

section \<open>Scheduling\<close>

text \<open>
  C2: While no thread of priority 31 is ready, the search for the next thread ends and finds the
  first thread that is not terminated, in order of falling priority and, within a priority, in
  order of arrival; it drops the terminated threads before it, takes it out of its queue and
  keeps the invariant of the queues. With nothing to run it answers the idle thread.
\<close>

theorem PickNextThread_first:
  assumes "sched_wf s"
  shows "\<exists>s'. PickNextThread s
      = Some (Inr (case dropWhile (\<lambda>t. terminated t s) (ready_flat s) of
                     [] \<Rightarrow> idle_thread s | t # ts \<Rightarrow> Some t, s'))
    \<and> sched_wf s' \<and> ready_flat s' = tl (dropWhile (\<lambda>t. terminated t s) (ready_flat s))"
  using ready.pick_first [OF assms refl] .

theorem PickNextThread_first_witness:
  "\<exists>s'. PickNextThread two_threads = Some (Inr (Some 1, s')) \<and> sched_wf s' \<and> ready_flat s' = [0]"
  using PickNextThread_first [OF two_threads_wf] by (simp add: two_threads_ready)

text \<open>
  C3: The bit search returns the number of the highest set bit of a word that is not zero, but 0
  when that bit is bit 31: the increment after the or-shifts wraps to zero.
\<close>

theorem FindHighestSetBit_result:
  assumes "x \<noteq> 0" "length (g_priorityTable s) = MAX_PRIORITY"
  shows "FindHighestSetBit x (BuildDeBurijnTable s) = (if bit x 31 then 0 else int (highest_bit x))"
  using assms by (simp add: FindHighestSetBit_eq BuildDeBurijnTable_ok)

theorem FindHighestSetBit_result_witness:
  "FindHighestSetBit 40 booted = 5 \<and> FindHighestSetBit 0x80000000 booted = 0"
proof -
  have "length (g_priorityTable initial_kernel) = MAX_PRIORITY" by (simp add: initial_kernel_def)
  from FindHighestSetBit_result [OF _ this, of 40] FindHighestSetBit_result [OF _ this, of "0x80000000"]
  have "FindHighestSetBit 40 (BuildDeBurijnTable initial_kernel) = int (highest_bit 40)"
    "FindHighestSetBit 0x80000000 (BuildDeBurijnTable initial_kernel) = 0" by simp_all
  moreover have "highest_bit 40 = 5" by code_simp
  moreover have "FindHighestSetBit x booted = FindHighestSetBit x (BuildDeBurijnTable initial_kernel)" for x
    by (simp add: FindHighestSetBit_def booted_def InitDispatcher_def)
  ultimately show ?thesis by simp
qed

text \<open>
  C4: A ready thread of priority 31 stops the scheduler: the search never ends when queue 31 is
  not empty and queue 0 is, because it keeps looking into queue 0.
\<close>

theorem PickNextThread_diverges:
  assumes "ready_wf s" "priority_table_ok s" "ready_list s 31 \<noteq> []" "ready_list s 0 = []"
  shows "PickNextThread s = None"
  using assms by (rule PickNextThread_stuck)

theorem PickNextThread_diverges_witness: "PickNextThread top_priority = None"
  using PickNextThread_diverges [OF top_priority_facts] .

text \<open>
  C5: When no thread of priority 31 is ready, at most \<open>MAX_THREADS\<close> threads are ready and the
  current thread is running with a priority from 0 to 30, a schedule below \<open>DISPATCH_LEVEL\<close> gives
  the processor to the best ready thread that is not terminated, when there is one and it is not
  the current thread: it becomes current and running, the thread it replaces becomes ready and goes
  to the end of the queue of its priority, no other thread changes, and the queues stay well formed
  with queue 31 empty.
\<close>

theorem Schedule_switches:
  assumes "sched_wf s" "current_irql s < DISPATCH_LEVEL"
    and "dropWhile (\<lambda>u. terminated u s) (ready_flat s) = t # ts" "t \<noteq> c"
    and "current_thread s = Some c" "c < length (g_thread_table s)"
      "t_state (g_thread_table s ! c) = THREAD_RUNNING"
    and "t_priority (g_thread_table s ! c) = int p" "p < 31"
    and "length (ready_flat s) \<le> MAX_THREADS"
  shows "\<exists>s1 s'. Schedule s = Some (Inr s') \<and> current_thread s' = Some t
    \<and> g_thread_table s' = (g_thread_table s)
        [c := (g_thread_table s ! c)\<lparr>t_state := THREAD_READY\<rparr>,
         t := (g_thread_table s ! t)\<lparr>t_state := THREAD_RUNNING\<rparr>]
    \<and> ready_flat s1 = ts \<and> ready_list s' = (ready_list s1)(p := ready_list s1 p @ [c])
    \<and> sched_wf s'"
  by (rule Schedule_preempts [OF assms]) blast

theorem Schedule_switches_witness:
  "\<exists>s1 s'. Schedule one_running = Some (Inr s') \<and> current_thread s' = Some 1
    \<and> ready_list s' = (ready_list s1)(3 := ready_list s1 3 @ [0]) \<and> ready_flat s1 = []"
  using Schedule_switches [OF one_running_facts(1-3) _ one_running_facts(4-7) _ one_running_facts(8)]
  by auto

text \<open>
  C7: When no thread of priority 31 is ready and no thread is queued twice, a schedule below
  \<open>DISPATCH_LEVEL\<close> whose best ready thread that is not terminated is the current thread itself, in
  state ready, takes it out of its queue and returns without running it: the thread that was made
  ready again while it was still current is lost, in state ready but in none of the ready queues.
\<close>

theorem Schedule_loses_current:
  assumes "sched_wf s" "current_irql s < DISPATCH_LEVEL" "current_thread s = Some c"
    and "dropWhile (\<lambda>u. terminated u s) (ready_flat s) = c # ts"
    and "distinct (ready_flat s)" "t_state (g_thread_table s ! c) = THREAD_READY"
  shows "\<exists>s'. Schedule s = Some (Inr s') \<and> ready_flat s' = ts
    \<and> g_thread_table s' = g_thread_table s \<and> current_thread s' = Some c
    \<and> t_state (g_thread_table s' ! c) = THREAD_READY \<and> (\<forall>p < MAX_PRIORITY. c \<notin> set (ready_list s' p))"
proof -
  from ready.pick_first [OF assms(1) refl] assms(4) obtain s' where
    s': "PickNextThread s = Some (Inr (Some c, s'))" "ready_flat s' = ts" by auto
  have "\<not> DISPATCH_LEVEL \<le> current_irql s" using assms(2) by simp
  moreover have "c \<notin> set ts" using distinct_dropWhile [OF assms(5)] assms(4) by (metis distinct.simps(2))
  then have "\<forall>p < MAX_PRIORITY. c \<notin> set (ready_list s' p)" using s'(2) by (auto simp: ready_flat_def)
  ultimately show ?thesis
    using s' assms(3,6) only_ready_same [OF PickNextThread_only [OF s'(1)]]
    by (simp add: Schedule_def Let_def)
qed

theorem Schedule_loses_current_witness:
  "\<exists>s'. Schedule (two_threads\<lparr>current_thread := Some 1\<rparr>) = Some (Inr s') \<and> ready_flat s' = [0]
    \<and> t_state (g_thread_table s' ! 1) = THREAD_READY \<and> current_thread s' = Some 1"
proof -
  have "current_irql two_threads < DISPATCH_LEVEL" "distinct (ready_flat two_threads)"
    "t_state (g_thread_table two_threads ! 1) = THREAD_READY" by code_simp+
  moreover have "ready_flat (two_threads\<lparr>current_thread := Some 1\<rparr>) = ready_flat two_threads"
    "terminated u (two_threads\<lparr>current_thread := Some 1\<rparr>) = terminated u two_threads" for u
    by (simp_all add: ready_flat_def terminated_def)
  ultimately show ?thesis
    using Schedule_loses_current [of "two_threads\<lparr>current_thread := Some 1\<rparr>" 1 "[0]"]
      two_threads_wf two_threads_ready by auto
qed

text \<open>
  C8: Making a thread ready appends it to the queue of its priority and taking it out of that
  queue again removes its first entry and says whether there was one; both keep the queues, the
  bitmap and the invariant between them, and a full queue is a bugcheck.
\<close>

theorem ready_queue_operations:
  assumes "ready_wf s" "t < length (g_thread_table s)"
    and "t_priority (g_thread_table s ! t) = int p" "p < MAX_PRIORITY"
  shows "(if length (ready_list s p) < MAX_THREADS
      then \<exists>s'. ReadyThread t s = Inr s' \<and> ready_wf s'
        \<and> ready_list s' = (ready_list s)(p := ready_list s p @ [t])
      else ReadyThread t s = Inl (Bugcheck ''Ready queue overflow''))
    \<and> (\<exists>s'. RemoveFromReadyQueue t (int p) s = Inr (t \<in> set (ready_list s p), s') \<and> ready_wf s'
        \<and> ready_list s' = (ready_list s)(p := remove1 t (ready_list s p)))"
proof -
  have th: "get_thread t s = Inr (g_thread_table s ! t)" using assms(2) by (simp add: get_thread_def)
  have "\<exists>s'. ReadyThread t s = Inr s' \<and> ready_wf s'
      \<and> ready_list s' = (ready_list s)(p := ready_list s p @ [t])" if "length (ready_list s p) < MAX_THREADS"
    by (rule ReadyThread_append [OF assms(1) th assms(3,4) that]) blast
  moreover have "\<exists>s'. RemoveFromReadyQueue t (int p) s = Inr (t \<in> set (ready_list s p), s') \<and> ready_wf s'
      \<and> ready_list s' = (ready_list s)(p := remove1 t (ready_list s p))"
    by (rule RemoveFromReadyQueue_remove1 [where t = t, OF assms(1,4)]) blast
  ultimately show ?thesis using ReadyThread_overflow [OF th assms(3,4)] by simp
qed

theorem ready_queue_operations_witness:
  "\<exists>s'. RemoveFromReadyQueue 0 3 two_threads = Inr (True, s') \<and> ready_list s' 3 = []"
proof -
  have "ready_list two_threads 3 = [0]" "0 < length (g_thread_table two_threads)"
    "t_priority (g_thread_table two_threads ! 0) = int 3" by code_simp+
  moreover have "ready_wf two_threads" using two_threads_wf by (simp add: sched_wf_def)
  ultimately show ?thesis using ready_queue_operations [of two_threads 0 3] by force
qed

section \<open>Mutexes and priority inheritance\<close>

text \<open>
  C9: Acquiring a mutex, blocking on it or not, keeps the mutexes well formed (an owner exactly
  when locked, the waiters of each exactly the threads that wait for it) and keeps priority
  inheritance: no thread waits for an owner of lower priority.
\<close>

theorem AcquireMutex_keeps_invariants:
  assumes "AcquireMutex m s = Inr s'" "mutex_wf s" "inherit_ok s"
    and "current_thread s = Some c" "t_waiting_mutex (g_thread_table s ! c) = None"
  shows "mutex_wf s' \<and> inherit_ok s'"
  using AcquireMutex_mutex_wf [OF assms(1,2,4,5)] AcquireMutex_inherit [OF assms(1,4,2,3)] by blast

theorem AcquireMutex_keeps_invariants_witness: "mutex_wf waiting \<and> inherit_ok waiting"
  using AcquireMutex_keeps_invariants [OF contended_facts] .

text \<open>
  C10: A thread that blocks on a held mutex hands its priority to the owner: afterwards the thread
  is blocked and queued last, the mutex has one more reference, and the owner's priority is at
  least that of the blocked thread.
\<close>

theorem AcquireMutex_donates:
  assumes "AcquireMutex m s = Inr s'" "get_mutex m s = Inr mx" "m_owner mx = Some ow"
    and "current_thread s = Some c" "mutex_wf s" "inherit_ok s"
  shows "prio s' c \<le> prio s' ow \<and> t_state (g_thread_table s' ! c) = THREAD_BLOCKED
    \<and> (\<exists>mx'. get_mutex m s' = Inr mx' \<and> wq_list (m_waiters mx') = wq_list (m_waiters mx) @ [c]
         \<and> ref_count (m_header mx') = ref_count (m_header mx) + 1 \<and> m_owner mx' = Some ow)"
proof -
  have mo: "mutex_ok s m mx" by (rule mutex_wfD [OF assms(5,2)])
  then have "m_locked mx" using assms(3) by (simp add: mutex_ok_def)
  from AcquireMutex_blocks [OF assms(1,2) this assms(4)] have
    b: "c < length (g_thread_table s)" "wq_count (m_waiters mx) < MAX_THREADS"
    "get_mutex m s' = Inr (mx\<lparr>m_header := (m_header mx)\<lparr>ref_count := ref_count (m_header mx) + 1\<rparr>,
       m_waiters := (m_waiters mx)\<lparr>wq_threads := (wq_threads (m_waiters mx))[wq_count (m_waiters mx) := Some c],
                                   wq_count := wq_count (m_waiters mx) + 1\<rparr>\<rparr>)" by blast+
  have "wq_wf s (m_waiters mx)" using mo by (simp add: mutex_ok_def)
  from wq_enqueue(2) [OF this b(2,1)] b(3) assms(3)
    AcquireMutex_inherit_blocked [OF assms(1-6)] show ?thesis by simp
qed

theorem AcquireMutex_donates_witness:
  "prio waiting 1 \<le> prio waiting 0 \<and> t_state (g_thread_table waiting ! 1) = THREAD_BLOCKED"
proof -
  have "case get_mutex 0 contended of Inl e \<Rightarrow> False | Inr mx \<Rightarrow> m_owner mx = Some 0" by code_simp
  then obtain mx where "get_mutex 0 contended = Inr mx" "m_owner mx = Some 0"
    by (auto split: sum.splits)
  with AcquireMutex_donates [OF contended_facts(1) this contended_facts(4,2,3)] show ?thesis by blast
qed

text \<open>
  C22: Boosting the chain of owners raises priorities to the new one and nothing else: every
  thread keeps its priority or had a lower one and now has exactly the new one, the thread
  itself ends at least there, and no other field of any thread changes.
\<close>

theorem BoostPriorityChain_raises:
  assumes "BoostPriorityChain (Some i) p s = Inr s'"
  shows "p \<le> prio s' i \<and> (\<forall>j. prio s' j = prio s j \<or> prio s j < p \<and> prio s' j = p)
    \<and> only_priorities s s'"
  using Boost_prio [OF assms refl] Boost_only [OF assms refl] by blast

theorem BoostPriorityChain_raises_witness:
  "\<exists>s'. BoostPriorityChain (Some 0) 7 waiting = Inr s' \<and> 7 \<le> prio s' 0 \<and> prio s' 1 = 3"
proof -
  have "(case BoostPriorityChain (Some 0) 7 waiting of Inl e \<Rightarrow> False | Inr s' \<Rightarrow> prio s' 1 = 3)"
    by code_simp
  then obtain s' where "BoostPriorityChain (Some 0) 7 waiting = Inr s'" "prio s' 1 = 3"
    by (auto split: sum.splits)
  with BoostPriorityChain_raises [OF this(1)] show ?thesis by blast
qed

text \<open>
  C23: Releasing a mutex keeps the mutexes well formed and priority inheritance, provided the
  thread is not itself waiting and owns no other mutex that is waited for: the release resets
  its priority to the base priority whatever else it holds.
\<close>

theorem ReleaseMutex_keeps_invariants:
  assumes "ReleaseMutex m s = Inr s'" "mutex_wf s" "inherit_ok s" "ready_wf s"
    and "current_thread s = Some c" "t_waiting_mutex (g_thread_table s ! c) = None"
    and "single_owner s c m"
  shows "mutex_wf s' \<and> inherit_ok s'"
  using ReleaseMutex_keeps [OF assms(1,2,4,3,5-7)] .

theorem ReleaseMutex_keeps_invariants_witness: "mutex_wf released_to \<and> inherit_ok released_to"
  using ReleaseMutex_keeps_invariants [OF releasing_facts] .

text \<open>
  C24: Releasing a mutex with waiters hands it to a waiter of highest priority: that thread owns
  the mutex, is ready at the end of the queue of its priority and no longer waits, and the
  releasing thread is back at its base priority.
\<close>

theorem ReleaseMutex_hands_to_best:
  assumes "ReleaseMutex m s = Inr s'" "get_mutex m s = Inr mx" "mutex_wf s" "ready_wf s"
    and "current_thread s = Some c" "t_waiting_mutex (g_thread_table s ! c) = None"
    and "wq_list (m_waiters mx) \<noteq> []"
  shows "\<exists>n mx' p. n \<in> set (wq_list (m_waiters mx))
    \<and> (\<forall>i \<in> set (wq_list (m_waiters mx)). prio s i \<le> prio s n)
    \<and> get_mutex m s' = Inr mx' \<and> m_owner mx' = Some n
    \<and> t_waiting_mutex (g_thread_table s' ! n) = None
    \<and> t_state (g_thread_table s' ! n) = THREAD_READY \<and> prio s' n = int p
    \<and> ready_list s' = (ready_list s)(p := ready_list s p @ [n])
    \<and> prio s' c = t_base_priority (g_thread_table s ! c)"
proof -
  have mo: "mutex_ok s m mx" by (rule mutex_wfD [OF assms(3,2)])
  have wf: "wq_wf s (m_waiters mx)" using mo by (simp add: mutex_ok_def)
  from ReleaseMutex_hands_over [OF assms(1,2) wf assms(7,4)] obtain c' b n w' t1 p where
    h: "current_thread s = Some c'"
    "t1 = (g_thread_table s)[c' := (g_thread_table s ! c')\<lparr>t_priority := t_base_priority (g_thread_table s ! c'),
       t_owned_mutex := None\<rparr>]" "c' < length (g_thread_table s)"
    "n = wq_list (m_waiters mx) ! b"
    "first_max (\<lambda>t. t_priority (t1 ! t)) (wq_list (m_waiters mx)) b"
    "g_thread_table s' = t1[n := (t1 ! n)\<lparr>t_waiting_mutex := None, t_owned_mutex := Some m,
       t_state := THREAD_READY\<rparr>]"
    "get_mutex m s' = Inr (mx\<lparr>m_header := (m_header mx)\<lparr>ref_count := ref_count (m_header mx) - 1\<rparr>,
       m_waiters := w', m_owner := Some n\<rparr>)"
    "t_priority (t1 ! n) = int p" "ready_list s' = (ready_list s)(p := ready_list s p @ [n])" by metis
  have c: "c' = c" using h(1) assms(5) by simp
  have n: "n \<in> set (wq_list (m_waiters mx))" using h(4,5) by (simp add: first_max_def)
  have other: "i \<noteq> c" "t1 ! i = g_thread_table s ! i" if "i \<in> set (wq_list (m_waiters mx))" for i
  proof -
    have "i < length (g_thread_table s)" using wf that by (simp add: wq_wf_def)
    then have "t_waiting_mutex (g_thread_table s ! i) = Some m" using mo that by (simp add: mutex_ok_def)
    then show "i \<noteq> c" using assms(6) by auto
    then show "t1 ! i = g_thread_table s ! i" using h(2) c by simp
  qed
  have "prio s i \<le> prio s n" if i: "i \<in> set (wq_list (m_waiters mx))" for i
    using first_maxD [OF h(5) i] other(2) [OF i] other(2) [OF n] h(4) by (simp add: prio_def)
  moreover have "n < length t1" "n \<noteq> c" using n wf other(1) h(2) by (auto simp: wq_wf_def)
  ultimately show ?thesis
    using h n c by (intro exI [of _ n] exI [of _ p]) (simp add: prio_def)
qed

theorem ReleaseMutex_hands_to_best_witness:
  "\<exists>mx'. get_mutex 0 released_to = Inr mx' \<and> m_owner mx' = Some 1 \<and> prio released_to 0 = 1"
proof -
  have f: "case get_mutex 0 releasing of Inl e \<Rightarrow> False | Inr mx \<Rightarrow> wq_list (m_waiters mx) = [1]"
    "t_base_priority (g_thread_table releasing ! 0) = 1" by code_simp+
  then obtain mx where "get_mutex 0 releasing = Inr mx" "wq_list (m_waiters mx) = [1]"
    by (auto split: sum.splits)
  with ReleaseMutex_hands_to_best [OF releasing_facts(1) this(1) releasing_facts(2,4,5,6)] f(2)
  show ?thesis by auto
qed

text \<open>
  C25: Signalling an event with waiters succeeds only at \<open>DISPATCH_LEVEL\<close>. It wakes a waiter of
  highest priority, which becomes ready at the end of the queue of its priority, and leaves the
  event unsignalled.
\<close>

theorem SignalEvent_wakes_best:
  assumes "SignalEvent e s = Inr s'" "get_event e s = Inr ev" "wq_wf s (e_waiters ev)"
    and "wq_list (e_waiters ev) \<noteq> []" "ready_wf s"
  shows "current_irql s = DISPATCH_LEVEL \<and> (\<exists>n p. n \<in> set (wq_list (e_waiters ev))
    \<and> (\<forall>i \<in> set (wq_list (e_waiters ev)). prio s i \<le> prio s n)
    \<and> t_state (g_thread_table s' ! n) = THREAD_READY \<and> prio s n = int p
    \<and> ready_list s' = (ready_list s)(p := ready_list s p @ [n])
    \<and> \<not> e_signaled (g_events s' ! e))"
proof -
  let ?w = "e_waiters ev"
  define s1 where "s1 = upd_event e (\<lambda>ev. ev\<lparr>e_signaled := True\<rparr>) s"
  have e: "e < length (g_events s)" "g_events s ! e = ev" using assms(2) by (simp_all add: res_simps)
  have cnt: "0 < wq_count ?w" using assms(4) wq_list_length [OF assms(3)] by (cases "wq_list ?w") auto
  have w1: "get_wq (EventWaiters e) s1 = Inr ?w" and t1: "g_thread_table s1 = g_thread_table s"
    and r1: "ready_list s1 = ready_list s" "ready_wf s1 = ready_wf s" "current_irql s1 = current_irql s"
    using e by (auto simp: s1_def upd_event_def get_event_def ready_list_def ready_wf_def fun_eq_iff)
  obtain s2 where s2: "WakeOne (EventWaiters e) s1 = Inr s2"
    "s' = upd_event e (\<lambda>ev. ev\<lparr>e_signaled := False\<rparr>) s2"
    using assms(1,2) cnt by (auto simp: SignalEvent_def s1_def Let_def res_simps split: if_splits)
  have d: "current_irql s = DISPATCH_LEVEL"
    using s2(1) r1(3) by (auto simp: WakeOne_def split: if_splits)
  have wf1: "wq_wf s1 ?w" using assms(3) t1 by (simp add: wq_wf_def)
  from DequeueHighestPriority_best [OF w1 wf1 assms(4)] obtain b w' where
    b: "first_max (prio s1) (wq_list ?w) b"
    "DequeueHighestPriority (EventWaiters e) s1 = Inr (Some (wq_list ?w ! b), set_wq (EventWaiters e) w' s1)"
    by metis
  define n where "n = wq_list ?w ! b"
  define s3 where "s3 = set_state n THREAD_READY (set_wq (EventWaiters e) w' s1)"
  have s3t: "g_thread_table s3 = (g_thread_table s)[n := (g_thread_table s ! n)\<lparr>t_state := THREAD_READY\<rparr>]"
    and s3r: "ready_list s3 = ready_list s" "ready_wf s3"
    using assms(5) t1 r1 by (simp_all add: s3_def set_state_def upd_event_def ready_list_def
        ready_wf_def fun_eq_iff upd_thread_def)
  from s2(1) d r1(3) w1 cnt b(2) obtain s4 where
    s4: "ReadyThread n s3 = Inr s4" "CheckPreemption n s4 = Inr s2" "n < length (g_thread_table s)"
    by (auto simp: WakeOne_def res_simps n_def s3_def t1 upd_event_def)
  from ReadyThread_ok [OF s3r(2) s4(1)] obtain p where
    p: "prio s3 n = int p" "ready_list s4 = (ready_list s3)(p := ready_list s3 p @ [n])" by metis
  have t2: "g_thread_table s2 = g_thread_table s3"
    using ReadyThread_same(1) [OF s4(1)] CheckPreemption_same(1) [OF s4(2)] by simp
  have "g_events s4 = g_events s3" using ReadyThread_frame [OF s4(1)] by auto
  moreover have "g_events s2 = g_events s4"
    using arg_cong [OF CheckPreemption_frame [OF s4(2)], of g_events] by simp
  ultimately have "g_events s2 = g_events s3" by simp
  then have "e < length (g_events s2)" using e by (simp add: s3_def set_state_def upd_thread_def upd_event_def s1_def)
  then have ne: "\<not> e_signaled (g_events s' ! e)" using s2(2) by (simp add: upd_event_def)
  have fin: "g_thread_table s' = g_thread_table s3" "ready_list s' = ready_list s4"
    using s2(2) t2 CheckPreemption_same(3) [OF s4(2)] by (simp_all add: upd_event_def ready_list_def fun_eq_iff)
  have best: "n \<in> set (wq_list ?w)" "\<forall>i \<in> set (wq_list ?w). prio s i \<le> prio s n"
    using b(1) first_maxD [OF b(1)] t1 by (simp_all add: n_def first_max_def prio_def)
  have "prio s n = int p" using p(1) s3t s4(3) by (simp add: prio_def)
  with d best ne fin p(2) s3r s3t s4(3) show ?thesis by (intro conjI exI [of _ n] exI [of _ p]) simp_all
qed

theorem SignalEvent_wakes_best_witness:
  "\<exists>s'. SignalEvent io_event signalling = Inr s' \<and> t_state (g_thread_table s' ! 1) = THREAD_READY"
proof -
  have f: "case get_event io_event signalling of Inl e \<Rightarrow> False
      | Inr ev \<Rightarrow> wq_wf signalling (e_waiters ev) \<and> wq_list (e_waiters ev) = [1]"
    "case SignalEvent io_event signalling of Inl e \<Rightarrow> False | Inr s' \<Rightarrow> True"
    "ready_wf signalling" by code_simp+
  from f(1) obtain ev where ev: "get_event io_event signalling = Inr ev" "wq_wf signalling (e_waiters ev)"
    "wq_list (e_waiters ev) = [1]" by (auto split: sum.splits)
  from f(2) obtain s' where s': "SignalEvent io_event signalling = Inr s'" by (auto split: sum.splits)
  from SignalEvent_wakes_best [OF s' ev(1,2) _ f(3)] ev(3) s' show ?thesis by auto
qed

section \<open>Interrupts and deferred calls\<close>

text \<open>
  C28: An interrupt of a level above the current one is always accepted, the level stack never
  overflows, and the raise pushes exactly that level.
\<close>

theorem PushIrql_total:
  assumes "irql_wf s" "current_irql s < l"
  shows "\<exists>s'. PushIrql l s = Inr s' \<and> irql_wf s' \<and> irql_held s' = irql_held s @ [l]
    \<and> current_irql s' = l \<and> length (irql_held s') < MAX_NESTING"
proof -
  obtain s' where s': "PushIrql l s = Inr s'" using PushIrql_above [OF assms] by blast
  note h = PushIrql_held [OF assms(1) s']
  with s' irql_held_small [OF h(3)] show ?thesis by auto
qed

theorem PushIrql_total_witness: "\<exists>s'. PushIrql KEYBOARD booted = Inr s' \<and> irql_held s' = [KEYBOARD]"
proof -
  have "irql_wf booted" "current_irql booted < KEYBOARD" "irql_held booted = []" by code_simp+
  with PushIrql_total [OF this(1,2)] show ?thesis by auto
qed

text \<open>
  C29: An interrupt that is handled returns to the level it came from: the level stack and the
  current level are as before, a masked interrupt changes nothing, and a return from above
  \<open>DISPATCH_LEVEL\<close> to below it leaves no deferred call behind.
\<close>

theorem TriggerInterrupt_balanced:
  assumes "irql_wf s" "dpc_wf s" "TriggerInterrupt i s = Inr s'"
  shows "irql_wf s' \<and> dpc_wf s' \<and> irql_held s' = irql_held s \<and> current_irql s' = current_irql s
    \<and> (irql i \<le> current_irql s \<longrightarrow> s' = s)
    \<and> (current_irql s < DISPATCH_LEVEL \<and> DISPATCH_LEVEL < irql i \<longrightarrow> dpc_pending s' = [])"
proof -
  have k: "irql_wf s'" "dpc_wf s'" "irql_held s' = irql_held s"
    using interrupt_kept(1) [OF assms(3)] assms(1,2) by (simp_all add: irq_kept_def)
  moreover have "current_irql s' = current_irql s" by (rule irql_held_current [OF assms(1) k(1,3)])
  moreover have "irql i \<le> current_irql s \<longrightarrow> s' = s"
    using TriggerInterrupt_masked [of i s] assms(3) by auto
  ultimately show ?thesis using TriggerInterrupt_drains [OF assms] by blast
qed

theorem TriggerInterrupt_balanced_witness:
  "\<exists>s'. TriggerInterrupt \<lparr>irql = DIRQL, isr = LowIsr_fn\<rparr> booted = Inr s'
    \<and> irql_held s' = [] \<and> dpc_pending s' = []"
proof -
  have b: "irql_wf booted" "dpc_wf booted" "irql_held booted = []" "current_irql booted < DISPATCH_LEVEL"
    "DISPATCH_LEVEL < DIRQL"
    "case TriggerInterrupt \<lparr>irql = DIRQL, isr = LowIsr_fn\<rparr> booted of Inl e \<Rightarrow> False | Inr s' \<Rightarrow> True"
    by code_simp+
  then obtain s' where "TriggerInterrupt \<lparr>irql = DIRQL, isr = LowIsr_fn\<rparr> booted = Inr s'"
    by (auto split: sum.splits)
  with TriggerInterrupt_balanced [OF b(1,2) this] b show ?thesis by auto
qed

text \<open>
  C30: The queue of deferred calls refines a bounded first-in first-out queue: any sequence of
  calls of \<open>QueueDpc\<close> and of taking the oldest entry behaves as on a list of at most 16 entries.
\<close>

theorem dpc_queue_refines_fifo:
  assumes "dpc_wf s" "spec_qops MAX_QUEUE ops (dpc_pending s) = Some (outs, ys)"
  shows "\<exists>s'. run_qops QueueDpc TakeDpc ops s = Inr (outs, s') \<and> dpc_wf s' \<and> dpc_pending s' = ys"
  using dpcq.script_refines [OF assms] .

theorem dpc_queue_refines_fifo_witness:
  "\<exists>s'. run_qops QueueDpc TakeDpc [QPush HighDpc_fn, QPush DeviceDpc_fn, QPop] booted
    = Inr ([Some HighDpc_fn], s') \<and> dpc_pending s' = [DeviceDpc_fn]"
proof -
  have "dpc_wf booted" "spec_qops MAX_QUEUE [QPush HighDpc_fn, QPush DeviceDpc_fn, QPop] (dpc_pending booted)
      = Some ([Some HighDpc_fn], [DeviceDpc_fn])" by code_simp+
  from dpc_queue_refines_fifo [OF this] show ?thesis by blast
qed

text \<open>
  C31: Draining at \<open>DISPATCH_LEVEL\<close> runs exactly the deferred calls that are pending, oldest
  first, and if none of them fails the queue is empty afterwards.
\<close>

theorem DrainDpcQueue_in_order:
  assumes "dpc_wf s" "current_irql s = DISPATCH_LEVEL"
  shows "DrainDpcQueue s = run_seq (\<lambda>r s. run_dpc r (snd (TakeDpc s))) (dpc_pending s) s
    \<and> (\<forall>s'. DrainDpcQueue s = Inr s' \<longrightarrow> dpc_wf s' \<and> dpc_pending s' = [])"
  using dpcs.drain_run_seq [OF assms(1) refl] dpcs.drain_empties [OF assms(1)] assms(2)
  by (auto simp: DrainDpcQueue_def)

theorem DrainDpcQueue_in_order_witness:
  "DrainDpcQueue dispatching = run_seq (\<lambda>r s. run_dpc r (snd (TakeDpc s))) [HighDpc_fn, DeviceDpc_fn] dispatching"
proof -
  have "dpc_wf dispatching" "current_irql dispatching = DISPATCH_LEVEL"
    "dpc_pending dispatching = [HighDpc_fn, DeviceDpc_fn]" by code_simp+
  with DrainDpcQueue_in_order [OF this(1,2)] show ?thesis by simp
qed

section \<open>Objects and handles\<close>

text \<open>
  C32: A handle is a round trip: when the insertion of a live object into the table of a process,
  which has all its slots, returns a handle, it is the index of the first free slot, looking that handle up gives the object
  back, and closing it restores the state before the insertion.
\<close>

theorem handle_roundtrip:
  assumes "handles_wf p s" "ob_header obj s = Inr h" "ref_count h \<noteq> 0"
    and "ObInsertHandle p obj s = Inr (hnd, s1)"
  shows "0 \<le> hnd \<and> hnd < int MAX_HANDLES
    \<and> handle_slot p (nat hnd) s = None \<and> (\<forall>j < nat hnd. handle_slot p j s \<noteq> None)
    \<and> (\<exists>s2. ObReferenceObjectByHandle p hnd s1 = Inr (Some obj, s2)) \<and> ObCloseHandle p hnd s1 = Inr s"
proof -
  from ObInsertHandle_fresh [OF assms(1,2,4)] obtain i where
    i: "hnd = int i" "i < MAX_HANDLES" "handle_slot p i s = None"
    "s1 = set_handle p i (Some obj) (ob_set_count obj (ref_count h + 1) s)" "\<forall>j < i. handle_slot p j s \<noteq> None" by metis
  have wf: "handles_wf p s1" "handle_slot p i s1 = Some obj"
    using assms(1) i by (simp_all add: handle_slot_set)
  have "ob_header obj s1 = Inr (h\<lparr>ref_count := ref_count h + 1\<rparr>)"
    using assms(2) i(4) by (simp add: ob_header_set)
  then have look: "\<exists>s2. ObReferenceObjectByHandle p hnd s1 = Inr (Some obj, s2)"
    using ObReferenceObjectByHandle_eq [OF wf(1) i(2)] wf(2) i(1) by (simp add: ObReferenceObject_def)
  have "set_handle p i None s1 = set_handle p i None (ob_set_count obj (ref_count h + 1) s)"
    by (simp add: i(4) set_handle_twice)
  then have "ObCloseHandle p hnd s1 = Inr (set_handle p i None s)"
    using ObCloseHandle_eq [OF wf(1) i(2)] wf(2) i(1) set_handle_dereference [OF assms(2,3)] by simp
  with look i set_handle_id [OF assms(1) i(3,2)] show ?thesis by simp
qed

theorem handle_roundtrip_witness:
  "\<exists>s1. ObInsertHandle 0 (MutexObj 0) waiting = Inr (0, s1) \<and> ObCloseHandle 0 0 s1 = Inr waiting"
proof -
  have f: "handles_wf 0 waiting" "case ob_header (MutexObj 0) waiting of Inl e \<Rightarrow> False | Inr h \<Rightarrow> ref_count h \<noteq> 0"
    "case ObInsertHandle 0 (MutexObj 0) waiting of Inl e \<Rightarrow> False | Inr (h, s1) \<Rightarrow> h = 0"
    by code_simp+
  from f(2) obtain h where h: "ob_header (MutexObj 0) waiting = Inr h" "ref_count h \<noteq> 0"
    by (cases "ob_header (MutexObj 0) waiting") auto
  from f(3) obtain s1 where s1: "ObInsertHandle 0 (MutexObj 0) waiting = Inr (0, s1)"
    by (auto split: sum.splits prod.splits)
  from handle_roundtrip [OF f(1) h s1] s1 show ?thesis by blast
qed

text \<open>
  C33: Destroying a process closes every handle it holds: each object loses as many references
  as the process has handles to it and is freed when those were its last ones, other objects
  keep their counts, and the process no longer exists.
\<close>

theorem DestroyProcess_releases:
  assumes "handles_wf p s" "refs_cover p [0..<MAX_HANDLES] s"
  shows "\<exists>s'. DestroyProcess p s = Inr s' \<and> \<not> p_exist (process_table s' ! p)
    \<and> (\<forall>i < MAX_HANDLES. handle_slot p i s' = None)
    \<and> (\<forall>obj. ob_count obj s' = released p [0..<MAX_HANDLES] s obj)"
proof -
  obtain s1 where s1: "destroy_handles p [0..<MAX_HANDLES] s = Inr s1" "handles_wf p s1"
    "\<forall>i. handle_slot p i s1 = (if i \<in> set [0..<MAX_HANDLES] then None else handle_slot p i s)"
    "\<forall>obj. ob_count obj s1 = released p [0..<MAX_HANDLES] s obj"
    using destroy_handles_release [OF assms(1) _ _ assms(2)] by (auto simp: lessThan_atLeast0)
  let ?s' = "upd_process p (\<lambda>pr. pr\<lparr>p_exist := False\<rparr>) s1"
  have "ob_count obj ?s' = ob_count obj s1" for obj
    by (cases obj) (simp_all add: ob_counts upd_process_def)
  moreover have "handle_slot p i ?s' = handle_slot p i s1" "\<not> p_exist (process_table ?s' ! p)" for i
    using s1(2) by (simp_all add: handle_slot_def handles_wf_def upd_process_def)
  ultimately show ?thesis using s1 by (auto simp: DestroyProcess_def)
qed

theorem DestroyProcess_releases_witness:
  "\<exists>s'. DestroyProcess 0 with_handle = Inr s' \<and> \<not> p_exist (process_table s' ! 0)
    \<and> ob_count (MutexObj 0) s' = Some 1"
proof -
  have "handles_wf 0 with_handle" "refs_cover 0 [0..<MAX_HANDLES] with_handle"
    "released 0 [0..<MAX_HANDLES] with_handle (MutexObj 0) = Some 1" by code_simp+
  with DestroyProcess_releases [OF this(1,2)] show ?thesis by auto
qed

end
