(* ===== verification/BK_Run.thy ===== *)
theory BK_Run
  imports BK_Main BK_Mutex
begin

text \<open>
  Invariants of the whole kernel simulator \<^verbatim>\<open>BLUE_KERNEL/BlueKernel_lvl3.c\<close> along its runs: at most
  the current thread is running, ready queues and bitmap agree, levels and DPC queue are well
  formed. An operation is \<open>mild\<close> when it leaves levels and DPC queue alone and keeps the scheduler's
  part; \<open>mild_run\<close> says so of a computation and has one rule for each construct of the model, so
  that a proof follows the text of the operation. Interrupts are treated apart. The last section
  is on the state in which only the idle thread is left: a timer tick returns and keeps it.
\<close>

section \<open>The invariant of the scheduler\<close>

definition only_current_runs :: "kernel \<Rightarrow> bool" where
  "only_current_runs s \<longleftrightarrow> (\<forall>i < length (g_thread_table s).
     t_state (g_thread_table s ! i) = THREAD_RUNNING \<longrightarrow> current_thread s = Some i)"

definition sched_ok :: "kernel \<Rightarrow> bool" where
  "sched_ok s \<longleftrightarrow> ready_wf s \<and> only_current_runs s"

definition mild :: "kernel \<Rightarrow> kernel \<Rightarrow> bool" where
  "mild s s' \<longleftrightarrow> io_frame s' = io_frame s \<and> (sched_ok s \<longrightarrow> sched_ok s')"

named_theorems mild_intros \<open>rules that show a computation mild\<close>

lemma mild_refl [mild_intros]: "mild s s"
  by (simp add: mild_def)

lemma mild_trans: "mild s s1 \<Longrightarrow> mild s1 s2 \<Longrightarrow> mild s s2"
  by (simp add: mild_def)

lemma mild_same:
  assumes "mild s u" "io_frame v = io_frame u" "g_thread_table v = g_thread_table u" "current_thread v = current_thread u"
    and "g_ready_queues v = g_ready_queues u" "g_ready_bitmap v = g_ready_bitmap u"
  shows "mild s v"
proof -
  have "ready_list v = ready_list u" using assms(5) by (simp add: ready_list_def fun_eq_iff)
  then have "sched_ok v = sched_ok u" using assms(3-6) by (simp add: sched_ok_def ready_wf_def only_current_runs_def)
  then show ?thesis using assms(1,2) by (simp add: mild_def)
qed

lemma mild_updates [mild_intros]:
  assumes "mild s u"
  shows "mild s (upd_mutex m mf u)" "mild s (upd_event e ef u)" "mild s (upd_process p pf u)"
    "mild s (set_handle p h ob u)" "mild s (ob_set_count obj n u)" "mild s (set_wq q w u)"
    "mild s (u\<lparr>reschedule_requested := b\<rparr>)" "mild s (u\<lparr>g_mutexes := ms\<rparr>)" "mild s (u\<lparr>process_count := pc\<rparr>)"
    "mild s (u\<lparr>g_thread_count := tc\<rparr>)" "mild s (u\<lparr>g_hMutex1 := h1\<rparr>)" "mild s (u\<lparr>g_hMutex2 := h2\<rparr>)"
    "mild s (u\<lparr>idle_thread := it\<rparr>)"
  by (rule mild_same [OF assms];
      (cases q)?; (cases obj)?; simp add: upd_mutex_def upd_event_def upd_process_def set_handle_def io_frame_def)+

lemma only_current_runs_upd:
  assumes "only_current_runs u" "\<And>th. t_state (f th) = THREAD_RUNNING \<Longrightarrow> t_state th = THREAD_RUNNING"
  shows "only_current_runs (upd_thread t f u)"
proof -
  have "t_state (g_thread_table u ! i) = THREAD_RUNNING"
    if "i < length (g_thread_table u)" "t_state (g_thread_table (upd_thread t f u) ! i) = THREAD_RUNNING" for i
    using that assms(2) by (cases "i = t") simp_all
  then show ?thesis using assms(1) by (simp add: only_current_runs_def)
qed

lemma mild_upd_thread [mild_intros]:
  assumes "mild s u" "\<And>th. t_state (f th) = THREAD_RUNNING \<Longrightarrow> t_state th = THREAD_RUNNING"
  shows "mild s (upd_thread t f u)"
  using assms only_current_runs_upd [of u f t] by (simp add: mild_def sched_ok_def)

lemma mild_set_state [mild_intros]:
  "mild s u \<Longrightarrow> st \<noteq> THREAD_RUNNING \<Longrightarrow> mild s (set_state t st u)"
  unfolding set_state_def by (intro mild_intros) simp_all

lemma mild_set_pc [mild_intros]: "mild s u \<Longrightarrow> mild s (set_pc t pc u)"
  unfolding set_pc_def by (intro mild_intros) simp_all

section \<open>Computations\<close>

definition mild_run :: "kernel \<Rightarrow> kernel res \<Rightarrow> bool" where
  "mild_run s r \<longleftrightarrow> (\<forall>s'. r = Inr s' \<longrightarrow> mild s s')"

definition mild_eval :: "kernel \<Rightarrow> ('a \<times> kernel) res \<Rightarrow> bool" where
  "mild_eval s r \<longleftrightarrow> (\<forall>x s'. r = Inr (x, s') \<longrightarrow> mild s s')"

lemma mild_run_D: "mild_run s r \<Longrightarrow> r = Inr s' \<Longrightarrow> mild s s'"
  by (simp add: mild_run_def)

lemma mild_eval_D: "mild_eval s r \<Longrightarrow> r = Inr (x, s') \<Longrightarrow> mild s s'"
  by (simp add: mild_eval_def)

lemma mild_ends [mild_intros]:
  "mild_run s (Inl e)" "mild s u \<Longrightarrow> mild_run s (Inr u)"
  "mild_eval s (Inl e)" "mild s u \<Longrightarrow> mild_eval s (Inr (x, u))"
  by (simp_all add: mild_run_def mild_eval_def)

lemma mild_bnd_state [mild_intros]:
  "mild_run s m \<Longrightarrow> (\<And>u. mild s u \<Longrightarrow> mild_run s (f u)) \<Longrightarrow> mild_run s (bnd m f)"
  "mild_run s m \<Longrightarrow> (\<And>u. mild s u \<Longrightarrow> mild_eval s (g u)) \<Longrightarrow> mild_eval s (bnd m g)"
  by (auto simp: mild_run_def mild_eval_def res_simps)

lemma mild_bnd_eval [mild_intros]:
  "mild_eval s m \<Longrightarrow> (\<And>x u. mild s u \<Longrightarrow> mild_run s (f x u)) \<Longrightarrow> mild_run s (bnd m (\<lambda>(x, u). f x u))"
  "mild_eval s m \<Longrightarrow> (\<And>x u. mild s u \<Longrightarrow> mild_eval s (g x u)) \<Longrightarrow> mild_eval s (bnd m (\<lambda>(x, u). g x u))"
  by (auto simp: mild_run_def mild_eval_def res_simps)

text \<open>A value that is read, of any type.\<close>

lemma mild_read:
  "(\<And>x. m = Inr x \<Longrightarrow> mild_run s (f x)) \<Longrightarrow> mild_run s (bnd m f)"
  "(\<And>x. m = Inr x \<Longrightarrow> mild_eval s (g x)) \<Longrightarrow> mild_eval s (bnd m g)"
  by (auto simp: mild_run_def mild_eval_def res_simps)

lemmas [mild_intros] = mild_read [where ?'a = THREAD] mild_read [where ?'a = MUTEX] mild_read [where ?'a = EVENT]
  mild_read [where ?'a = PROCESS] mild_read [where ?'a = nat] mild_read [where ?'a = "nat option"]
  mild_read [where ?'a = KOBJECT] mild_read [where ?'a = bool] mild_read [where ?'a = WAIT_QUEUE]
  mild_read [where ?'a = ThreadRoutine]

lemma mild_if [mild_intros]:
  "(c \<Longrightarrow> mild_run s x) \<Longrightarrow> (\<not> c \<Longrightarrow> mild_run s y) \<Longrightarrow> mild_run s (if c then x else y)"
  "(c \<Longrightarrow> mild_eval s v) \<Longrightarrow> (\<not> c \<Longrightarrow> mild_eval s w) \<Longrightarrow> mild_eval s (if c then v else w)"
  "(c \<Longrightarrow> mild s t) \<Longrightarrow> (\<not> c \<Longrightarrow> mild s u) \<Longrightarrow> mild s (if c then t else u)"
  by simp_all

lemma mild_option [mild_intros]:
  "(p = None \<Longrightarrow> mild_run s x) \<Longrightarrow> (\<And>y. p = Some y \<Longrightarrow> mild_run s (f y)) \<Longrightarrow>
     mild_run s (case p of None \<Rightarrow> x | Some y \<Rightarrow> f y)"
  "(p = None \<Longrightarrow> mild_eval s v) \<Longrightarrow> (\<And>y. p = Some y \<Longrightarrow> mild_eval s (g y)) \<Longrightarrow>
     mild_eval s (case p of None \<Rightarrow> v | Some y \<Rightarrow> g y)"
  by (simp_all split: option.split)

lemma mild_pair [mild_intros]: "mild_run s (f x y) \<Longrightarrow> mild_run s (case (x, y) of (x, y) \<Rightarrow> f x y)"
  by simp

section \<open>Queues\<close>

lemma mild_ready:
  assumes "mild s u" "only_ready u v" "ready_wf u \<Longrightarrow> ready_wf v"
  shows "mild s v"
proof -
  note o = assms(2) [unfolded only_ready_def]
  have "io_frame v = io_frame u" "only_current_runs v = only_current_runs u"
    by (subst o; simp add: io_frame_def only_current_runs_def)+
  with assms(1,3) show ?thesis by (auto simp: mild_def sched_ok_def)
qed

lemma set_ready_only: "only_ready u (set_ready p q b u)"
  by (simp add: only_ready_def set_ready_def)

lemma ReadyThread_mild [mild_intros]: "mild s u \<Longrightarrow> mild_run s (ReadyThread t u)"
  unfolding mild_run_def using ReadyThread_ok ReadyThread_frame set_ready_only by (metis mild_ready)

lemma Reinsert_mild [mild_intros]: "mild s u \<Longrightarrow> mild_run s (ReinsertReadyThread t p u)"
  unfolding mild_run_def
  using ReinsertReadyThread_wf ReinsertReadyThread_frame by (metis mild_ready only_ready_def)

lemma RemoveReadyThread_wf:
  assumes "ready_wf s" "RemoveReadyThread i s = Inr (t, s')"
  shows "ready_wf s'"
proof -
  obtain p where p: "i = int p" "p < MAX_PRIORITY"
    using assms(2) unfolding RemoveReadyThread_def
    by (elim bnd_InrE) (auto simp: ready_index_eq_Inr dest: zero_le_imp_eq_int)
  show ?thesis
  proof (cases "ready_list s p")
    case Nil
    then show ?thesis using RemoveReadyThread_empty [OF p(2)] assms p(1) by simp
  next
    case (Cons u us)
    from RemoveReadyThread_head [OF assms(1) p(2) this] show ?thesis using assms(2) p(1) by auto
  qed
qed

lemma PickNextThread_mild:
  assumes "PickNextThread s = Some (Inr (t, s'))"
  shows "mild s s'"
proof -
  have "ready_wf s \<longrightarrow> ready_wf s'"
    by (rule PickNextThread_steps [OF assms]) (auto intro: RemoveReadyThread_wf)
  then show ?thesis using mild_ready [OF mild_refl PickNextThread_only [OF assms]] by blast
qed

section \<open>The operations of the kernel\<close>

lemma Boost_mild [mild_intros]: "mild s u \<Longrightarrow> mild_run s (BoostPriorityChain t p u)"
proof -
  have "mild u v" if ok: "BoostPriorityChain t p u = Inr v" for v
  proof (cases t)
    case None
    then show ?thesis using ok by (simp add: BoostPriorityChain.simps mild_refl)
  next
    case (Some i)
    note o = Boost_only [OF ok Some, unfolded only_priorities_def]
    have "io_frame v = io_frame u" "current_thread v = current_thread u"
      by (subst conjunct1 [OF o]; simp add: io_frame_def)+
    moreover have "only_current_runs u \<Longrightarrow> only_current_runs v"
      using conjunct2 [OF o] calculation(2) by (simp add: only_current_runs_def)
    ultimately show ?thesis using Boost_ready_wf [OF ok Some] by (simp add: mild_def sched_ok_def)
  qed
  then show "mild s u \<Longrightarrow> mild_run s (BoostPriorityChain t p u)" unfolding mild_run_def using mild_trans by blast
qed

lemma CheckPreemption_mild [mild_intros]: "mild s u \<Longrightarrow> mild_run s (CheckPreemption t u)"
  unfolding CheckPreemption_def by (intro mild_intros)

lemma ObReference_mild [mild_intros]: "mild s u \<Longrightarrow> mild_run s (ObReferenceObject ob u)"
  unfolding ObReferenceObject_def by (intro mild_intros)

lemma ob_free_mild [mild_intros]: "mild s u \<Longrightarrow> mild_run s (ob_free ob u)"
  by (cases ob) (simp_all add: mild_intros)

lemma ObDereference_mild [mild_intros]: "mild s u \<Longrightarrow> mild_run s (ObDereferenceObject ob u)"
  unfolding ObDereferenceObject_def Let_def by (intro mild_intros)

lemma ByHandle_mild [mild_intros]: "mild s u \<Longrightarrow> mild_eval s (ObReferenceObjectByHandle p h u)"
  unfolding ObReferenceObjectByHandle_def by (intro mild_intros)

lemma InsertHandle_mild [mild_intros]: "mild s u \<Longrightarrow> mild_eval s (ObInsertHandle p ob u)"
  unfolding ObInsertHandle_def by (intro mild_intros)

lemma destroy_mild [mild_intros]: "mild s u \<Longrightarrow> mild_run s (destroy_handles p is u)"
proof (induction "is" arbitrary: u)
  case (Cons i "is")
  show ?case unfolding destroy_handles.simps by (intro mild_intros Cons)
qed (simp add: mild_intros)

lemma DestroyProcess_mild [mild_intros]: "mild s u \<Longrightarrow> mild_run s (DestroyProcess p u)"
  unfolding DestroyProcess_def by (intro mild_intros)

lemma EnqueueWaiter_mild [mild_intros]: "mild s u \<Longrightarrow> mild_run s (EnqueueWaiter q t u)"
  unfolding EnqueueWaiter_def by (intro mild_intros)

lemma Dequeue_mild [mild_intros]: "mild s u \<Longrightarrow> mild_eval s (DequeueHighestPriority q u)"
  unfolding DequeueHighestPriority_def by (intro mild_intros)

lemma Block_mild [mild_intros]: "mild s u \<Longrightarrow> mild_run s (BlockCurrentThread q u)"
  unfolding BlockCurrentThread_def by (intro mild_intros) simp_all

lemma mutexes_mild [mild_intros]:
  assumes "mild s u"
  shows "mild_eval s (CreateMutexObject ok u)" "mild_run s (AcquireMutex m u)"
  unfolding CreateMutexObject_def AcquireMutex_def by (intro mild_intros assms; simp)+

lemma ReleaseMutex_mild [mild_intros]: "mild s u \<Longrightarrow> mild_run s (ReleaseMutex m u)"
  unfolding ReleaseMutex_def Let_def by (intro mild_intros) simp_all

lemma TerminateThread_mild [mild_intros]: "mild s u \<Longrightarrow> mild_run s (TerminateThread t u)"
  unfolding TerminateThread_def Let_def by (intro mild_intros) simp_all

lemma WakeOne_mild [mild_intros]: "mild s u \<Longrightarrow> mild_run s (WakeOne q u)"
  unfolding WakeOne_def by (intro mild_intros) simp_all

lemma events_mild [mild_intros]:
  assumes "mild s u"
  shows "mild_run s (InitEvent e u)" "mild_run s (WaitEvent e u)" "mild_run s (SignalEvent e u)"
  unfolding InitEvent_def WaitEvent_def SignalEvent_def Let_def by (intro mild_intros assms)+

text \<open>The current thread may be taken away when it does not run.\<close>

lemma TimerDPC_mild [mild_intros]: "mild s u \<Longrightarrow> mild_run s (TimerDPC u)"
  unfolding mild_run_def
proof (intro allI impI)
  fix v
  assume u: "mild s u" and ok: "TimerDPC u = Inr v"
  consider "v = u" | c where "v = upd_thread c (\<lambda>th. th\<lparr>t_quantum := t_quantum th - 1\<rparr>) u"
    | c w where "current_thread u = Some c" "v = w\<lparr>current_thread := None, reschedule_requested := True\<rparr>"
      "ReadyThread c (upd_thread c (\<lambda>th. th\<lparr>t_quantum := 3, t_state := THREAD_READY\<rparr>)
         (upd_thread c (\<lambda>th. th\<lparr>t_quantum := t_quantum th - 1\<rparr>) u)) = Inr w"
    using ok by (auto simp: TimerDPC_def Let_def res_simps split: option.splits if_splits)
  then show "mild s v"
  proof cases
    case (3 c w)
    have w: "mild u w" by (rule mild_run_D [OF _ 3(3)]) (intro mild_intros; simp)
    have "g_thread_table w ! c = (g_thread_table u ! c)\<lparr>t_quantum := 3, t_state := THREAD_READY\<rparr>"
        "current_thread w = current_thread u"
      using ReadyThread_same [OF 3(3)] 3(3) by (auto simp: ReadyThread_def res_simps upd_thread_def)
    moreover have "ready_wf v = ready_wf w" using 3(2) by (simp add: ready_wf_def ready_list_def)
    moreover have "io_frame v = io_frame w" using 3(2) by (simp add: io_frame_def)
    moreover have "only_current_runs v" if "only_current_runs w" using that 3(1,2) calculation(1,2) by (auto simp: only_current_runs_def)
    ultimately show ?thesis using mild_trans [OF u w] by (auto simp: mild_def sched_ok_def)
  qed (auto intro!: mild_intros u)
qed

lemma run_dpc_mild: "mild s u \<Longrightarrow> mild_run s (run_dpc r u)"
  by (cases r) (auto simp: DeviceDpc_def HighDpc_def IoCompletionDpc_def AccessMemory_def intro!: mild_intros)

text \<open>A scheduling decision gives the processor to one thread and takes it from the other.\<close>

lemma Schedule_mild:
  assumes "Schedule s = Some (Inr s')"
  shows "mild s s'"
proof (cases "DISPATCH_LEVEL \<le> current_irql s")
  case True
  then show ?thesis using assms by (simp add: Schedule_def mild_refl)
next
  case False
  with assms obtain t s1 where s1: "PickNextThread s = Some (Inr (t, s1))"
    by (auto simp: Schedule_def res_simps)
  note c1 = PickNextThread_mild [OF s1]
  define nxt where "nxt = (case t of None \<Rightarrow> idle_thread s1 | Some t \<Rightarrow> Some t)"
  show ?thesis
  proof (cases "current_thread s1 = nxt")
    case True
    then show ?thesis using assms s1 c1 False by (simp add: Schedule_def nxt_def Let_def)
  next
    case other: False
    define step where "step = (case current_thread s1 of None \<Rightarrow> Inr s1
        | Some c \<Rightarrow> bnd (get_thread c s1) (\<lambda>ct. if t_state ct = THREAD_RUNNING
            then ReadyThread c (set_state c THREAD_READY s1) else Inr s1))"
    have "bnd step (\<lambda>s2. bnd (deref nxt) (\<lambda>n. bnd (get_thread n s2) (\<lambda>_.
        Inr ((set_state n THREAD_RUNNING s2)\<lparr>current_thread := Some n\<rparr>)))) = Inr s'"
      using assms s1 False other unfolding Schedule_def step_def by (simp add: Let_def flip: nxt_def)
    then obtain s2 n where s2: "step = Inr s2" "s' = (set_state n THREAD_RUNNING s2)\<lparr>current_thread := Some n\<rparr>"
      by (elim bnd_InrE) auto
    note run = s2(1) [unfolded step_def]
    have c2: "mild s1 s2" by (rule mild_run_D [OF _ run]) (intro mild_intros; simp)
    have "current_thread s2 = current_thread s1"
      using run by (auto simp: res_simps set_state_def dest!: ReadyThread_same(3) split: option.splits if_splits)
    moreover have "t_state (g_thread_table s2 ! c) \<noteq> THREAD_RUNNING" if "current_thread s1 = Some c" for c
      using run that by (auto simp: res_simps set_state_def upd_thread_def dest: ReadyThread_same(1) split: if_splits)
    ultimately have none: "t_state (g_thread_table s2 ! i) \<noteq> THREAD_RUNNING"
      if "only_current_runs s2" "i < length (g_thread_table s2)" for i
      using that unfolding only_current_runs_def by metis
    have table: "length (g_thread_table s') = length (g_thread_table s2)" "current_thread s' = Some n"
      "i \<noteq> n \<Longrightarrow> g_thread_table s' ! i = g_thread_table s2 ! i" for i
      using s2(2) by (simp_all add: set_state_def upd_thread_def)
    have "only_current_runs s'" if "only_current_runs s2"
      using none [OF that] table unfolding only_current_runs_def by metis
    moreover have "ready_wf s' = ready_wf s2" "io_frame s' = io_frame s2"
      using s2(2) by (simp_all add: ready_wf_def io_frame_def set_state_def upd_thread_def ready_list_def)
    ultimately show ?thesis using mild_trans [OF c1 c2] by (auto simp: mild_def sched_ok_def)
  qed
qed

section \<open>Interrupts\<close>

definition kept :: "kernel \<Rightarrow> kernel \<Rightarrow> bool" where
  "kept s s' \<longleftrightarrow> (sched_ok s \<longrightarrow> sched_ok s') \<and> irq_kept s s'"

definition drained :: "kernel \<Rightarrow> bool" where
  "drained s \<longleftrightarrow> (current_irql s < DISPATCH_LEVEL \<longrightarrow> dpc_pending s = [])"

text \<open>Everything but an interrupt also leaves the deferred calls drained.\<close>

definition settled :: "kernel \<Rightarrow> kernel \<Rightarrow> bool" where
  "settled s s' \<longleftrightarrow> kept s s' \<and> (irql_wf s \<and> dpc_wf s \<and> drained s \<longrightarrow> drained s')"

lemma settled_trans: "settled s s1 \<Longrightarrow> settled s1 s2 \<Longrightarrow> settled s s2"
  by (auto simp: settled_def kept_def irq_kept_def)

lemma kept_trans: "kept s s1 \<Longrightarrow> kept s1 s2 \<Longrightarrow> kept s s2"
  by (auto simp: kept_def irq_kept_def)

lemma mild_settled: "mild s s' \<Longrightarrow> settled s s'"
  using io_frame_dpc [of s' s] io_frame_irql [of s' s]
  by (auto simp: mild_def settled_def kept_def irq_kept_def drained_def)

lemma sched_ok_levels:
  assumes "g_thread_table s' = g_thread_table s" "current_thread s' = current_thread s"
    "g_ready_queues s' = g_ready_queues s" "g_ready_bitmap s' = g_ready_bitmap s"
  shows "sched_ok s' = sched_ok s"
  using assms by (simp add: sched_ok_def ready_wf_def ready_list_def only_current_runs_def)

lemma PushIrql_sched: "PushIrql l s = Inr s' \<Longrightarrow> sched_ok s' = sched_ok s"
  by (rule sched_ok_levels) (auto simp: PushIrql_def split: if_splits)

lemma QueueDpc_sched: "QueueDpc r s = Inr s' \<Longrightarrow> sched_ok s' = sched_ok s"
  by (rule sched_ok_levels) (auto simp: QueueDpc_def split: if_splits)

lemma TakeDpc_sched: "sched_ok (snd (TakeDpc s)) = sched_ok s"
  by (rule sched_ok_levels) (simp_all add: TakeDpc_def)

lemma drain_loop_sched: "drain_loop s = Inr s' \<Longrightarrow> sched_ok s \<Longrightarrow> sched_ok s'"
proof (induction s arbitrary: s' rule: drain_loop.induct)
  case (1 s)
  show ?case
  proof (cases "0 < dpc_count s")
    case True
    with "1.prems"(1) obtain r s1 where
      r: "fst (TakeDpc s) = Some r" "run_dpc r (snd (TakeDpc s)) = Inr s1" "drain_loop s1 = Inr s'"
      by (subst (asm) drain_loop.simps) (auto simp: res_simps)
    have "sched_ok s1"
      using mild_run_D [OF run_dpc_mild [OF mild_refl] r(2)] TakeDpc_sched "1.prems"(2) by (simp add: mild_def)
    then show ?thesis using "1.IH" [OF True _ r(2,3)] r(1) by simp
  next
    case False
    with "1.prems" show ?thesis by (simp add: drain_loop.simps)
  qed
qed

lemma PopIrql_sched: "PopIrql s = Inr s' \<Longrightarrow> sched_ok s \<Longrightarrow> sched_ok s'"
proof -
  assume ok: "PopIrql s = Inr s'" and wf: "sched_ok s"
  define s1 where "s1 = s\<lparr>irql_top := irql_top s - 1, current_irql := DISPATCH_LEVEL\<rparr>"
  have s1: "sched_ok s1" using wf by (subst sched_ok_levels [of s1 s]) (simp_all add: s1_def)
  consider l where "s' = s1\<lparr>current_irql := l\<rparr>" | l s2 where "drain_loop s1 = Inr s2" "s' = s2\<lparr>current_irql := l\<rparr>"
    using ok by (auto simp: PopIrql_def Let_def DrainDpcQueue_def s1_def res_simps split: if_splits)
  then show ?thesis
  proof cases
    case (1 l)
    then show ?thesis using s1 sched_ok_levels [of s' s1] by simp
  next
    case (2 l s2)
    then show ?thesis using drain_loop_sched [OF 2(1) s1] sched_ok_levels [of s' s2] by simp
  qed
qed

lemma interrupt_sched:
  "TriggerInterrupt i s = Inr s' \<Longrightarrow> sched_ok s \<Longrightarrow> sched_ok s'"
  "run_isr r s = Inr s' \<Longrightarrow> sched_ok s \<Longrightarrow> sched_ok s'"
  "LowIsr s = Inr s' \<Longrightarrow> sched_ok s \<Longrightarrow> sched_ok s'"
proof (induction i s and r s and s arbitrary: s' and s' and s'
    rule: TriggerInterrupt_run_isr_LowIsr.induct)
  case (1 i s)
  then show ?case
    by (subst (asm) TriggerInterrupt.simps)
      (auto simp: res_simps dest: PushIrql_sched PopIrql_sched split: if_splits)
qed (auto simp: DeviceIsr_def HighIsr_def TimerIsr_def res_simps dest: QueueDpc_sched)

lemma interrupt_settles:
  assumes "TriggerInterrupt i s = Inr s'" "DISPATCH_LEVEL < irql i"
  shows "kept s s'" "irql_wf s \<Longrightarrow> dpc_wf s \<Longrightarrow> drained s'"
proof -
  show k: "kept s s'" using interrupt_sched(1) interrupt_kept(1) assms(1) by (auto simp: kept_def)
  assume wf: "irql_wf s" "dpc_wf s"
  with k have "current_irql s' = current_irql s"
    by (auto simp: kept_def irq_kept_def intro: irql_held_current)
  then show "drained s'" using TriggerInterrupt_drains [OF wf assms(1) _ assms(2)] by (simp add: drained_def)
qed

lemma StartIoOperation_settled:
  assumes "StartIoOperation s = Inr s'"
  shows "settled s s'"
proof -
  obtain s1 s2 where s: "PushIrql DIRQL s = Inr s1" "QueueDpc IoCompletionDpc_fn s1 = Inr s2" "PopIrql s2 = Inr s'"
    using assms by (auto simp: StartIoOperation_def res_simps)
  have k: "irq_kept s s'" by (rule push_isr_pop_kept [OF s(1) QueueDpc_kept [OF s(2)] s(3)])
  have "drained s'" if wf: "irql_wf s" "dpc_wf s"
  proof -
    have s1: "irql_wf s1" "dpc_wf s1" "current_irql s1 = DIRQL"
      using PushIrql_held [OF wf(1) s(1)] PushIrql_dpc [OF s(1)] wf(2) by simp_all
    then have "irql_wf s2" "dpc_wf s2" "current_irql s2 = DIRQL"
      using QueueDpc_pending(1) [OF _ s(2)] QueueDpc_levels [OF s(2)] by simp_all
    from PopIrql_held(4) [OF this(1,2) s(3)] this(3) show ?thesis by (simp add: drained_def IRQL_order)
  qed
  moreover have "sched_ok s'" if "sched_ok s"
    using that PushIrql_sched [OF s(1)] QueueDpc_sched [OF s(2)] PopIrql_sched [OF s(3)] by simp
  ultimately show ?thesis using k by (simp add: settled_def kept_def)
qed

section \<open>Threads and the main program\<close>

lemma CreateProcess_mild [mild_intros]: "mild s u \<Longrightarrow> mild_eval s (CreateProcess u)"
  unfolding CreateProcess_def Let_def by (intro mild_intros)

lemma CreateThread_mild [mild_intros]: "mild s u \<Longrightarrow> mild_run s (CreateThread p r pr u)"
  unfolding CreateThread_def Let_def by (intro mild_intros) simp_all

lemma finish_mild [mild_intros]: "mild s u \<Longrightarrow> mild_run s (finish_thread t u)"
  unfolding finish_thread_def by (intro mild_intros)

lemma handle_object_mild [mild_intros]: "mild s u \<Longrightarrow> mild_eval s (handle_object t h u)"
  unfolding handle_object_def by (intro mild_intros)

lemma Thread_A_mild: "mild s u \<Longrightarrow> mild_run s (Thread_A t u)"
  unfolding Thread_A_def by (intro mild_intros)

lemma Thread_L_mild: "mild s u \<Longrightarrow> mild_run s (Thread_L t u)"
  unfolding Thread_L_def by (intro mild_intros)

lemma Thread_H_mild: "mild s u \<Longrightarrow> mild_run s (Thread_H t u)"
  unfolding Thread_H_def by (intro mild_intros)

lemma Thread_M_mild: "mild s u \<Longrightarrow> mild_run s (Thread_M t u)"
  unfolding Thread_M_def by (intro mild_intros)

lemma Thread_B_settled:
  assumes "Thread_B t s = Inr s'"
  shows "settled s s'"
proof (cases "t_pc (g_thread_table s ! t) = 1")
  case True
  with assms obtain s1 where s1: "StartIoOperation (set_pc t 2 s) = Inr s1" "WaitEvent io_event s1 = Inr s'"
    by (auto simp: Thread_B_def res_simps)
  have "mild s (set_pc t 2 s)" "mild s1 s'"
    by (intro mild_intros, rule mild_run_D [OF _ s1(2)], intro mild_intros)
  then show ?thesis using StartIoOperation_settled [OF s1(1)] by (metis mild_settled settled_trans)
next
  case False
  have "mild_run s (Thread_B t s)"
    unfolding Thread_B_def by (intro mild_intros) (use False in \<open>auto simp: res_simps\<close>)
  then show ?thesis using assms by (intro mild_settled) (rule mild_run_D)
qed

lemma run_routine_mild: "r \<noteq> Thread_B_fn \<Longrightarrow> mild_run s (run_routine r t s)"
  using mild_refl by (cases r) (auto simp: IdleThread_def intro: mild_ends Thread_A_mild Thread_L_mild Thread_M_mild Thread_H_mild)

lemma run_current_settled:
  assumes "run_current s = Inr s'"
  shows "settled s s'"
proof -
  obtain c r where r: "run_routine r c s = Inr s'" using assms by (auto simp: run_current_def res_simps)
  then show ?thesis
    using mild_run_D [OF run_routine_mild] by (cases "r = Thread_B_fn") (auto intro: Thread_B_settled mild_settled)
qed

lemma timer_tick_kept:
  assumes "timer_tick m1 m2 user s = Some (Inr s')"
  shows "kept s s'" "irql_wf s \<Longrightarrow> dpc_wf s \<Longrightarrow> drained s'"
proof -
  obtain s1 s3 s4 where run: "TriggerInterrupt \<lparr>irql = DIRQL, isr = TimerIsr_fn\<rparr> s = Inr s1"
    "(if current_irql s1 < DISPATCH_LEVEL
      then obnd (if reschedule_requested s1
                 then obnd (Schedule s1) (\<lambda>s2. Some (Inr (s2\<lparr>reschedule_requested := False\<rparr>)))
                 else Some (Inr s1)) (\<lambda>s2.
           Some (bnd (DetectPriorityInversion m1 s2) (\<lambda>_. bnd (DetectPriorityInversion m2 s2) (\<lambda>_. Inr s2))))
      else Some (Inr s1)) = Some (Inr s3)"
    "(case current_thread s3 of None \<Rightarrow> Inr s3
      | Some c \<Rightarrow> bnd (get_thread c s3) (\<lambda>ct. if t_state ct = THREAD_RUNNING then run_current s3 else Inr s3)) = Inr s4"
    "bnd (get_process user s4) (\<lambda>pr. if p_exist pr
       then bnd (ProcessHasLiveThreads user s4) (\<lambda>live. if \<not> live then DestroyProcess user s4 else Inr s4)
       else Inr s4) = Inr s'"
    using assms unfolding timer_tick_def by (simp only: obnd_eq_Some_Inr option.inject) blast
  have "mild s1 s3"
  proof -
    consider "s3 = s1" | s2 where "Schedule s1 = Some (Inr s2)" "s3 = s2\<lparr>reschedule_requested := False\<rparr>"
      using run(2) by (auto simp: res_simps split: if_splits)
    then show ?thesis by cases (auto intro: mild_intros Schedule_mild)
  qed
  moreover have "settled s3 s4"
    using run(3) by (auto simp: res_simps intro: run_current_settled mild_settled mild_refl split: option.splits if_splits)
  moreover have "mild s4 s'" by (rule mild_run_D [OF _ run(4)]) (intro mild_intros)
  ultimately have "settled s1 s'" using mild_settled settled_trans by blast
  moreover note t = interrupt_settles [OF run(1)]
  ultimately show "kept s s'" "irql_wf s \<Longrightarrow> dpc_wf s \<Longrightarrow> drained s'"
    using kept_trans [of s s1 s'] by (auto simp: settled_def kept_def irq_kept_def IRQL_order)
qed

lemma timer_ticks_kept:
  assumes "timer_ticks m1 m2 user n s = Some (Inr s')"
  shows "settled s s'"
  using assms
proof (induction n arbitrary: s)
  case (Suc n)
  then obtain s1 where s1: "timer_tick m1 m2 user s = Some (Inr s1)" "timer_ticks m1 m2 user n s1 = Some (Inr s')"
    by (auto simp: res_simps)
  have "settled s s1" using timer_tick_kept [OF s1(1)] by (simp add: settled_def)
  then show ?case using Suc.IH [OF s1(2)] settled_trans by blast
qed (simp add: mild_settled mild_refl)

text \<open>The rings of an array of ready queues have their size.\<close>

definition queues_sized :: "kernel \<Rightarrow> bool" where
  "queues_sized s \<longleftrightarrow> length (g_ready_queues s) = MAX_PRIORITY
     \<and> (\<forall>q \<in> set (g_ready_queues s). length (rq_threads q) = MAX_THREADS)"

lemma InitDispatcher_ready: "queues_sized s \<Longrightarrow> ready_wf (InitDispatcher s)"
  by (auto simp: queues_sized_def ready_wf_def InitDispatcher_def ready_list_def rq_list_def rq_wf_def ring_list_0)

section \<open>The start of the program\<close>

lemma settled_run: "settled s u \<Longrightarrow> mild_run u m \<Longrightarrow> m = Inr v \<Longrightarrow> settled s v"
  by (rule settled_trans [OF _ mild_settled [OF mild_run_D]])

lemma settled_eval: "settled s u \<Longrightarrow> mild_eval u m \<Longrightarrow> m = Inr (x, v) \<Longrightarrow> settled s v"
  by (rule settled_trans [OF _ mild_settled [OF mild_eval_D]])

lemma settled_step: "settled s u \<Longrightarrow> mild u v \<Longrightarrow> settled s v"
  by (rule settled_trans [OF _ mild_settled])

lemma main_setup_settled:
  assumes "main_setup ok1 ok2 s = Some (Inr (x, s'))"
  obtains s1 where "TriggerInterrupt \<lparr>irql = DIRQL, isr = LowIsr_fn\<rparr> (InitDispatcher (BuildDeBurijnTable s)) = Inr s1"
    "current_irql s = PASSIVE_LEVEL" "settled s1 s'"
proof -
  let ?s0 = "InitDispatcher (BuildDeBurijnTable s)"
  have kw: "KernelWait ?s0 = Inr t \<longleftrightarrow> t = ?s0 \<and> current_irql s = PASSIVE_LEVEL" for t
    by (auto simp: KernelWait_def InitDispatcher_def BuildDeBurijnTable_def IRQL_order) (metis irql_num.simps(1) irql_num_inj)
  obtain s1 user s2 sys s3 m1 s4 m2 s5 h1 s6 h2 s7 s8 s9 s10 s11 s12 s13 s14 s15 where run:
    "TriggerInterrupt \<lparr>irql = DIRQL, isr = LowIsr_fn\<rparr> ?s0 = Inr s1" "current_irql s = PASSIVE_LEVEL"
    "CreateProcess s1 = Inr (user, s2)" "CreateProcess s2 = Inr (sys, s3)"
    "CreateMutexObject ok1 s3 = Inr (m1, s4)" "CreateMutexObject ok2 s4 = Inr (m2, s5)"
    "ObInsertHandle user (MutexObj m1) s5 = Inr (h1, s6)"
    "ObInsertHandle user (MutexObj m2) (s6\<lparr>g_hMutex1 := h1\<rparr>) = Inr (h2, s7)"
    "CreateThread sys IdleThread_fn 1 (s7\<lparr>g_hMutex2 := h2\<rparr>) = Inr s8"
    "CreateThread user Thread_L_fn 1 (s8\<lparr>idle_thread := Some (g_thread_count s8 - 1)\<rparr>) = Inr s9"
    "Schedule s9 = Some (Inr s10)" "run_current s10 = Inr s11" "CreateThread user Thread_M_fn 3 s11 = Inr s12"
    "Schedule s12 = Some (Inr s13)" "run_current s13 = Inr s14" "CreateThread user Thread_H_fn 5 s14 = Inr s15"
    "InitEvent io_event s15 = Inr s'"
    using assms unfolding main_setup_def Let_def
    by (simp only: obnd_eq_Some_Inr bnd_eq_Inr option.inject kw split_paired_Ex prod.case sum.inject prod.inject)
      (clarify, rule that, assumption+)
  have "settled s1 s2" by (rule settled_eval [OF mild_settled [OF mild_refl] _ run(3)]) (intro mild_intros)
  then have "settled s1 s3" by (rule settled_eval [OF _ _ run(4)]) (intro mild_intros)
  then have "settled s1 s4" by (rule settled_eval [OF _ _ run(5)]) (intro mild_intros)
  then have "settled s1 s5" by (rule settled_eval [OF _ _ run(6)]) (intro mild_intros)
  then have "settled s1 s6" by (rule settled_eval [OF _ _ run(7)]) (intro mild_intros)
  then have "settled s1 s7" by (rule settled_eval [OF _ _ run(8)]) (intro mild_intros)
  then have "settled s1 s8" by (rule settled_run [OF _ _ run(9)]) (intro mild_intros)
  then have "settled s1 s9" by (rule settled_run [OF _ _ run(10)]) (intro mild_intros)
  then have "settled s1 s10" by (rule settled_step [OF _ Schedule_mild [OF run(11)]])
  then have "settled s1 s11" by (rule settled_trans [OF _ run_current_settled [OF run(12)]])
  then have "settled s1 s12" by (rule settled_run [OF _ _ run(13)]) (intro mild_intros)
  then have "settled s1 s13" by (rule settled_step [OF _ Schedule_mild [OF run(14)]])
  then have "settled s1 s14" by (rule settled_trans [OF _ run_current_settled [OF run(15)]])
  then have "settled s1 s15" by (rule settled_run [OF _ _ run(16)]) (intro mild_intros)
  then have "settled s1 s'" by (rule settled_run [OF _ _ run(17)]) (intro mild_intros)
  with that run(1,2) show thesis by blast
qed

lemma main_setup_kept:
  assumes "main_setup ok1 ok2 s = Some (Inr (x, s'))" "queues_sized s" "only_current_runs s" "irql_wf s" "dpc_wf s"
  shows "sched_ok s'" "irql_wf s'" "dpc_wf s'" "irql_held s' = irql_held s" "current_irql s' = PASSIVE_LEVEL" "drained s'"
proof -
  let ?s0 = "InitDispatcher (BuildDeBurijnTable s)"
  obtain s1 where run: "TriggerInterrupt \<lparr>irql = DIRQL, isr = LowIsr_fn\<rparr> ?s0 = Inr s1"
      "current_irql s = PASSIVE_LEVEL" "settled s1 s'"
    using main_setup_settled [OF assms(1)] by blast
  have io: "io_frame ?s0 = io_frame s" by (simp add: InitDispatcher_def BuildDeBurijnTable_def io_frame_def)
  have wf: "irql_wf ?s0" "dpc_wf ?s0" "irql_held ?s0 = irql_held s"
    using io_frame_dpc [OF io] io_frame_irql [OF io] assms(4,5) by simp_all
  have "queues_sized (BuildDeBurijnTable s)" using assms(2) by (simp add: queues_sized_def BuildDeBurijnTable_def)
  moreover have "only_current_runs ?s0"
    using assms(3) by (simp add: only_current_runs_def InitDispatcher_def BuildDeBurijnTable_def)
  ultimately have "sched_ok ?s0" by (simp add: sched_ok_def InitDispatcher_ready)
  moreover have "kept ?s0 s1" "drained s1"
    using interrupt_settles [OF run(1) _ ] wf(1,2) by (simp_all add: IRQL_order)
  ultimately show k: "sched_ok s'" "irql_wf s'" "dpc_wf s'" "irql_held s' = irql_held s" "drained s'"
    using run(3) wf by (auto simp: settled_def kept_def irq_kept_def)
  show "current_irql s' = PASSIVE_LEVEL" using irql_held_current [OF assms(4) k(2,4)] run(2) by simp
qed

section \<open>At rest\<close>

lemma inversion_scan_frame:
  "g_mutexes s' = g_mutexes s \<Longrightarrow> g_thread_table s' = g_thread_table s \<Longrightarrow> g_thread_count s' = g_thread_count s
    \<Longrightarrow> inversion_scan m s' is = inversion_scan m s is"
  by (induction "is") (simp_all add: get_mutex_def get_thread_def inversion_medium_def Let_def cong: option.case_cong if_cong)

text \<open>Nothing but the idle thread is left to run and no interrupt is in service.\<close>

definition resting :: "nat \<Rightarrow> nat \<Rightarrow> nat \<Rightarrow> kernel \<Rightarrow> bool" where
  "resting m1 m2 user s \<longleftrightarrow> length (irql_stack s) = MAX_NESTING \<and> irql_top s = -1 \<and> current_irql s = PASSIVE_LEVEL
     \<and> length (dpc_queue s) = MAX_QUEUE \<and> dpc_head s < MAX_QUEUE \<and> dpc_tail s = dpc_head s \<and> dpc_count s = 0
     \<and> \<not> reschedule_requested s \<and> current_thread s = idle_thread s
     \<and> (case current_thread s of None \<Rightarrow> False | Some c \<Rightarrow> (case get_thread c s of Inl e \<Rightarrow> False
         | Inr ct \<Rightarrow> t_state ct = THREAD_RUNNING \<and> t_tRoutine ct = Some IdleThread_fn))
     \<and> list_all (\<lambda>m. case DetectPriorityInversion m s of Inl e \<Rightarrow> False | Inr r \<Rightarrow> True) [m1, m2]
     \<and> (case get_process user s of Inl e \<Rightarrow> False | Inr pr \<Rightarrow> \<not> p_exist pr)"

lemma TimerInterrupt_idle:
  assumes "resting m1 m2 user s"
  shows "TriggerInterrupt \<lparr>irql = DIRQL, isr = TimerIsr_fn\<rparr> s
    = Inr (s\<lparr>irql_stack := (irql_stack s)[0 := DIRQL], dpc_queue := (dpc_queue s)[dpc_head s := Some TimerDPC_fn],
        dpc_head := (dpc_head s + 1) mod MAX_QUEUE, dpc_tail := (dpc_head s + 1) mod MAX_QUEUE\<rparr>)"
  using assms
  by (subst TriggerInterrupt.simps, cases "idle_thread s")
    (simp_all add: resting_def PushIrql_def TimerIsr_def QueueDpc_def PopIrql_def DrainDpcQueue_def drain_loop.simps
      TakeDpc_def TimerDPC_def IRQL_order MAX_NESTING_def MAX_QUEUE_def Let_def)

lemma resting_tick:
  assumes "resting m1 m2 user s"
  obtains s' where "timer_tick m1 m2 user s = Some (Inr s')" "resting m1 m2 user s'"
    "g_thread_table s' = g_thread_table s" "g_ready_queues s' = g_ready_queues s" "process_table s' = process_table s"
    "current_thread s' = current_thread s"
proof -
  let ?s = "s\<lparr>irql_stack := (irql_stack s)[0 := DIRQL], dpc_queue := (dpc_queue s)[dpc_head s := Some TimerDPC_fn],
        dpc_head := (dpc_head s + 1) mod MAX_QUEUE, dpc_tail := (dpc_head s + 1) mod MAX_QUEUE\<rparr>"
  obtain c ct where c: "current_thread s = Some c" "get_thread c s = Inr ct" "t_state ct = THREAD_RUNNING"
      "t_tRoutine ct = Some IdleThread_fn"
    using assms by (auto simp: resting_def split: option.splits sum.splits)
  have idle: "idle_thread s = Some c" using assms c(1) by (simp add: resting_def)
  obtain r1 r2 pr where r: "DetectPriorityInversion m1 s = Inr r1" "DetectPriorityInversion m2 s = Inr r2"
      "get_process user s = Inr pr" "\<not> p_exist pr"
    using assms by (auto simp: resting_def split: option.splits sum.splits)
  have frame: "DetectPriorityInversion m (s\<lparr>irql_stack := x, dpc_queue := q, dpc_head := h, dpc_tail := h'\<rparr>)
      = DetectPriorityInversion m s" for m x q h h'
    unfolding DetectPriorityInversion_def by (subst inversion_scan_frame [of _ s]) simp_all
  have rs: "resting m1 m2 user ?s"
    using assms by (simp add: resting_def frame get_thread_def get_process_def MAX_QUEUE_def split: option.splits)
  have "timer_tick m1 m2 user s = Some (Inr ?s)"
    using c idle r rs unfolding timer_tick_def TimerInterrupt_idle [OF assms]
    by (simp add: resting_def frame get_thread_def get_process_def run_current_def IdleThread_def IRQL_order)
  with rs show thesis by (intro that [of ?s]) simp_all
qed

lemma resting_ticks:
  assumes "resting m1 m2 user s"
  shows "\<exists>s'. timer_ticks m1 m2 user n s = Some (Inr s') \<and> resting m1 m2 user s'
    \<and> g_thread_table s' = g_thread_table s \<and> g_ready_queues s' = g_ready_queues s \<and> process_table s' = process_table s
    \<and> current_thread s' = current_thread s"
  using assms
proof (induction n arbitrary: s)
  case (Suc n)
  obtain s1 where "timer_tick m1 m2 user s = Some (Inr s1)" "resting m1 m2 user s1"
      "g_thread_table s1 = g_thread_table s" "g_ready_queues s1 = g_ready_queues s" "process_table s1 = process_table s"
      "current_thread s1 = current_thread s"
    using resting_tick [OF Suc.prems] by metis
  with Suc.IH [of s1] show ?case by simp
qed simp

lemma obnd_assoc: "obnd (obnd m f) g = obnd m (\<lambda>x. obnd (f x) g)"
  by (simp add: obnd_def split: option.splits sum.splits)

lemma case_returns: "(case r of Some (Inr x) \<Rightarrow> P x | _ \<Rightarrow> False) \<longleftrightarrow> (\<exists>x. r = Some (Inr x) \<and> P x)"
  by (simp split: option.splits sum.splits)

lemma timer_ticks_add:
  "timer_ticks m1 m2 user (n + k) s = obnd (timer_ticks m1 m2 user n s) (timer_ticks m1 m2 user k)"
proof (induction n arbitrary: s)
  case (Suc n)
  then have "timer_ticks m1 m2 user (n + k) = (\<lambda>s. obnd (timer_ticks m1 m2 user n s) (timer_ticks m1 m2 user k))"
    by (rule ext)
  then show ?case by (simp add: obnd_assoc)
qed simp

text \<open>A run that comes to rest returns after any number of ticks.\<close>

lemma rests_for_ever:
  assumes "timer_ticks m1 m2 user n s = Some (Inr s1)" "resting m1 m2 user s1"
  shows "\<exists>s'. timer_ticks m1 m2 user k s = Some (Inr s')"
proof (cases "n \<le> k")
  case True
  then show ?thesis
    using timer_ticks_add [of m1 m2 user n "k - n" s] assms(1) resting_ticks [OF assms(2), of "k - n"] by auto
next
  case False
  then have "obnd (timer_ticks m1 m2 user k s) (timer_ticks m1 m2 user (n - k)) = Some (Inr s1)"
    using timer_ticks_add [of m1 m2 user k "n - k" s] assms(1) by simp
  then show ?thesis by (auto simp: obnd_eq_Some_Inr)
qed

end
