(* ===== verification/IK_State.thy ===== *)
theory IK_State
  imports Prelude
begin

text \<open>
  Data and global state of the interrupt simulator \<^verbatim>\<open>BLUE_KERNEL/IRQ_KernelDeal.c\<close>. Pointers to
  CPUs, CPU contexts, devices and DPC nodes are indices into the objects allocated so far; a
  LAPIC is reachable only through its CPU and is kept in it, a null pointer is \<open>None\<close>. The
  linked DPC list keeps its nodes and links (\<open>h_dpc\<close>, \<open>None\<close> once freed); the linked ISR list of
  a vector, which is only ever pushed to, is a list. Whether the n-th allocation succeeds is up
  to the environment (\<open>alloc_ok\<close>). \<open>out\<close> collects the values that DPCs print.
\<close>

definition MAX_CPU :: nat where "MAX_CPU = 4"
definition MAX_DEVICES :: nat where "MAX_DEVICES = 8"
definition MAX_IRQ :: nat where "MAX_IRQ = 24"
definition MAX_VECTOR :: nat where "MAX_VECTOR = 256"
definition MAX_VECTOR_PRIORITY :: nat where "MAX_VECTOR_PRIORITY = 64"
definition LAPIC_BASE :: "32 word" where "LAPIC_BASE = 0xFEE00000"
definition DEBURIJN64 :: "64 word" where "DEBURIJN64 = 0x03F79D71B4CB0A89"
definition BUF_SIZE :: nat where "BUF_SIZE = 16"

lemmas IK_limits [simp] = MAX_CPU_def MAX_DEVICES_def MAX_IRQ_def MAX_VECTOR_def
  MAX_VECTOR_PRIORITY_def BUF_SIZE_def

section \<open>Interrupt levels\<close>

datatype IRQL_irq = PASSIVE_LVL | DISPATCH_LVL | DEVICE_LVL | HIGH_LVL

fun lvl_num :: "IRQL_irq \<Rightarrow> nat" where
  "lvl_num PASSIVE_LVL = 0"
| "lvl_num DISPATCH_LVL = 1"
| "lvl_num DEVICE_LVL = 2"
| "lvl_num HIGH_LVL = 3"

instantiation IRQL_irq :: linorder
begin

definition less_eq_IRQL_irq :: "IRQL_irq \<Rightarrow> IRQL_irq \<Rightarrow> bool" where
  "less_eq_IRQL_irq a b \<longleftrightarrow> lvl_num a \<le> lvl_num b"

definition less_IRQL_irq :: "IRQL_irq \<Rightarrow> IRQL_irq \<Rightarrow> bool" where
  "less_IRQL_irq a b \<longleftrightarrow> lvl_num a < lvl_num b"

instance
proof
  show "a = b" if "a \<le> b" "b \<le> a" for a b :: IRQL_irq
    using that by (cases a; cases b) (auto simp: less_eq_IRQL_irq_def)
qed (auto simp: less_eq_IRQL_irq_def less_IRQL_irq_def)

end

section \<open>Function pointers\<close>

datatype fDpcHandler = KeyboardDpc_fn | MouseDpc_fn | MicrophoneDpc_fn

datatype fIsrHandler = TimerIsr_irq_fn | KeyboardIsr_fn | MouseIsr_fn | MicrophoneIsr_fn

datatype fHandler = CommonInterruptEntry_fn

section \<open>Hardware\<close>

record LAPIC =
  l_id :: int
  pending_vectors :: "64 word"
  in_service_vector :: int
  owner_cpu :: "nat option"

record CPU =
  c_id :: int
  c_lapic :: "LAPIC option"
  c_running :: bool

record IOAPIC_ROUTE =
  r_irq :: int
  r_vector :: int
  r_target_cpu :: int

record MSI_CAP =
  supported :: int
  multi_msg :: int

record MSI_CONFIG =
  msi_address :: "32 word"
  msi_data :: "32 word"
  msi_enabled :: bool

record RING_BUFFER =
  rb_data :: "int list"
  rb_head :: nat
  rb_tail :: nat

record TIMER_EXT =
  te_interval :: int
  te_counter :: int

record DEVICE =
  d_name :: string
  d_msi_cap :: MSI_CAP
  d_msi :: MSI_CONFIG
  d_irq_line :: int
  d_use_msi :: bool
  d_ext :: "TIMER_EXT option"
  d_buffer :: RING_BUFFER

section \<open>Software\<close>

record DPC =
  dpc_func :: fDpcHandler
  dpc_ctx :: "nat option"
  dpc_next :: "nat option"

record CPU_CONTEXT =
  x_cpu :: nat
  x_irql :: IRQL_irq
  x_dpc_head :: "nat option"
  x_dpc_tail :: "nat option"

record ISR_NODE =
  n_handler :: fIsrHandler
  n_device :: "nat option"

record irqsys =
  g_cpus :: "nat option list"
  g_context :: "nat option list"
  c_count :: nat
  g_ioapic :: "IOAPIC_ROUTE list option"
  g_devices :: "nat option list"
  d_count :: nat
  g_system_ticks :: "64 word"
  g_vector_priority_Table :: "64 word list"
  g_idt :: "fHandler option list"
  g_isr_table :: "ISR_NODE list list"
  h_cpu :: "CPU list"
  h_ctx :: "CPU_CONTEXT list"
  h_dev :: "DEVICE list"
  h_dpc :: "DPC option list"
  alloc_ok :: "nat \<Rightarrow> bool"
  allocs :: nat
  out :: "(fDpcHandler \<times> int) list"

definition initial_irqsys :: "(nat \<Rightarrow> bool) \<Rightarrow> irqsys" where
  "initial_irqsys ok =
    \<lparr>g_cpus = replicate MAX_CPU None, g_context = replicate MAX_CPU None, c_count = 0,
     g_ioapic = None, g_devices = replicate MAX_DEVICES None, d_count = 0, g_system_ticks = 0,
     g_vector_priority_Table = replicate MAX_VECTOR_PRIORITY 0,
     g_idt = replicate MAX_VECTOR None, g_isr_table = replicate MAX_VECTOR [],
     h_cpu = [], h_ctx = [], h_dev = [], h_dpc = [], alloc_ok = ok, allocs = 0, out = []\<rparr>"

text \<open>One call of \<^verbatim>\<open>malloc\<close> or \<^verbatim>\<open>calloc\<close>.\<close>

definition alloc :: "irqsys \<Rightarrow> bool \<times> irqsys" where
  "alloc s = (alloc_ok s (allocs s), s\<lparr>allocs := allocs s + 1\<rparr>)"

definition upd_cpu :: "nat \<Rightarrow> (CPU \<Rightarrow> CPU) \<Rightarrow> irqsys \<Rightarrow> irqsys" where
  "upd_cpu c f s = s\<lparr>h_cpu := (h_cpu s)[c := f (h_cpu s ! c)]\<rparr>"

definition upd_ctx :: "nat \<Rightarrow> (CPU_CONTEXT \<Rightarrow> CPU_CONTEXT) \<Rightarrow> irqsys \<Rightarrow> irqsys" where
  "upd_ctx x f s = s\<lparr>h_ctx := (h_ctx s)[x := f (h_ctx s ! x)]\<rparr>"

definition upd_dev :: "nat \<Rightarrow> (DEVICE \<Rightarrow> DEVICE) \<Rightarrow> irqsys \<Rightarrow> irqsys" where
  "upd_dev d f s = s\<lparr>h_dev := (h_dev s)[d := f (h_dev s ! d)]\<rparr>"

definition get_cpu :: "nat \<Rightarrow> irqsys \<Rightarrow> CPU res" where
  "get_cpu c s = aread (h_cpu s) c"

definition get_ctx :: "nat \<Rightarrow> irqsys \<Rightarrow> CPU_CONTEXT res" where
  "get_ctx x s = aread (h_ctx s) x"

definition get_dev :: "nat \<Rightarrow> irqsys \<Rightarrow> DEVICE res" where
  "get_dev d s = aread (h_dev s) d"

definition get_dpc :: "nat \<Rightarrow> irqsys \<Rightarrow> DPC res" where
  "get_dpc n s = bnd (aread (h_dpc s) n)
     (\<lambda>c. case c of None \<Rightarrow> Inl (Undefined ''use after free'') | Some d \<Rightarrow> Inr d)"

definition get_lapic :: "nat \<Rightarrow> irqsys \<Rightarrow> LAPIC res" where
  "get_lapic c s = bnd (get_cpu c s) (\<lambda>cpu. deref (c_lapic cpu))"

definition upd_lapic :: "nat \<Rightarrow> (LAPIC \<Rightarrow> LAPIC) \<Rightarrow> irqsys \<Rightarrow> irqsys" where
  "upd_lapic c f = upd_cpu c (\<lambda>cpu. cpu\<lparr>c_lapic := map_option f (c_lapic cpu)\<rparr>)"

lemma get_IK_eq_Inr [res_simps]:
  "get_cpu c s = Inr cpu \<longleftrightarrow> c < length (h_cpu s) \<and> h_cpu s ! c = cpu"
  "get_ctx x s = Inr ctx \<longleftrightarrow> x < length (h_ctx s) \<and> h_ctx s ! x = ctx"
  "get_dev d s = Inr dev \<longleftrightarrow> d < length (h_dev s) \<and> h_dev s ! d = dev"
  "get_lapic c s = Inr l \<longleftrightarrow> c < length (h_cpu s) \<and> c_lapic (h_cpu s ! c) = Some l"
  by (auto simp: get_cpu_def get_ctx_def get_dev_def get_lapic_def res_simps)

lemma get_dpc_eq_Inr [res_simps]:
  "get_dpc n s = Inr d \<longleftrightarrow> n < length (h_dpc s) \<and> h_dpc s ! n = Some d"
  by (auto simp: get_dpc_def res_simps split: option.splits)

end
