(* ===== verification/IK_Ops.thy ===== *)
theory IK_Ops
  imports IK_State
begin

text \<open>
  The operations of \<^verbatim>\<open>BLUE_KERNEL/IRQ_KernelDeal.c\<close>: set-up of CPUs, devices and routes, raising
  and dispatching of interrupts, the DPC list and the device buffers, and the run of the
  simulation. Loops whose end depends on the data (draining a buffer, running the DPC list,
  serving pending vectors) return an option.
\<close>

section \<open>The vector search\<close>

definition BuildDeBurijnTable_irq :: "irqsys \<Rightarrow> irqsys" where
  "BuildDeBurijnTable_irq s = s\<lparr>g_vector_priority_Table :=
     foldl (\<lambda>tab v. let mV = push_bit v 1; idx = drop_bit 58 (mV * DEBURIJN64)
                    in tab[unat idx := word_of_nat v])
       (g_vector_priority_Table s) [0..<MAX_VECTOR_PRIORITY]\<rparr>"

definition FindLowestSetBit :: "64 word \<Rightarrow> irqsys \<Rightarrow> int \<times> irqsys" where
  "FindLowestSetBit bitmap s =
     (let s = (if g_vector_priority_Table s ! 0 \<noteq> 0 \<or> g_vector_priority_Table s ! 1 \<noteq> 1
               then BuildDeBurijnTable_irq s else s)
      in if bitmap = 0 then (-1, s)
         else let lowest = bitmap AND - bitmap;
                  idx = drop_bit 58 (lowest * DEBURIJN64)
              in (sint (ucast (g_vector_priority_Table s ! unat idx) :: 32 word), s))"

section \<open>Device buffers\<close>

definition RB_IsEmpty :: "RING_BUFFER \<Rightarrow> bool" where
  "RB_IsEmpty rb \<longleftrightarrow> rb_head rb = rb_tail rb"

definition RB_IsFull :: "RING_BUFFER \<Rightarrow> bool" where
  "RB_IsFull rb \<longleftrightarrow> (rb_tail rb + 1) mod BUF_SIZE = rb_head rb"

definition RB_Push :: "int \<Rightarrow> RING_BUFFER \<Rightarrow> RING_BUFFER" where
  "RB_Push val rb =
     (if RB_IsFull rb then rb
      else rb\<lparr>rb_data := (rb_data rb)[rb_tail rb := val],
              rb_tail := (rb_tail rb + 1) mod BUF_SIZE\<rparr>)"

definition RB_Pop :: "RING_BUFFER \<Rightarrow> int option \<times> RING_BUFFER" where
  "RB_Pop rb =
     (if RB_IsEmpty rb then (None, rb)
      else (Some (rb_data rb ! rb_head rb), rb\<lparr>rb_head := (rb_head rb + 1) mod BUF_SIZE\<rparr>))"

section \<open>Set-up\<close>

definition CreateLAPIC :: "int \<Rightarrow> nat option \<Rightarrow> irqsys \<Rightarrow> LAPIC option \<times> irqsys" where
  "CreateLAPIC ident owner s =
     (case owner of None \<Rightarrow> (None, s)
      | Some _ \<Rightarrow>
          if ident < 0 \<or> ident \<ge> int MAX_CPU then (None, s)
          else let (ok, s) = alloc s
               in if \<not> ok then (None, s)
                  else (Some \<lparr>l_id = ident, pending_vectors = 0, in_service_vector = -1,
                              owner_cpu = owner\<rparr>, s))"

definition CreateCPUCore :: "int \<Rightarrow> irqsys \<Rightarrow> nat option \<times> irqsys" where
  "CreateCPUCore cpu_id s =
     (if cpu_id < 0 \<or> cpu_id \<ge> int MAX_CPU then (None, s)
      else let (ok, s) = alloc s
           in if \<not> ok then (None, s)
              else let c = length (h_cpu s);
                       (lapic, s) = CreateLAPIC cpu_id (Some c) s
                   in case lapic of None \<Rightarrow> (None, s)
                      | Some l \<Rightarrow> (Some c, s\<lparr>h_cpu := h_cpu s @
                          [\<lparr>c_id = cpu_id, c_lapic = Some l, c_running = False\<rparr>]\<rparr>))"

text \<open>When the context cannot be allocated the new CPU is freed: it is the last one.\<close>

definition CreateCpuContext :: "int \<Rightarrow> irqsys \<Rightarrow> nat option \<times> irqsys" where
  "CreateCpuContext ident s =
     (if ident < 0 \<or> ident \<ge> int MAX_CPU then (None, s)
      else let (cpu, s) = CreateCPUCore ident s
           in case cpu of None \<Rightarrow> (None, s)
              | Some c \<Rightarrow>
                  let (ok, s) = alloc s
                  in if \<not> ok then (None, s\<lparr>h_cpu := butlast (h_cpu s)\<rparr>)
                     else (Some (length (h_ctx s)), s\<lparr>h_ctx := h_ctx s @
                       [\<lparr>x_cpu = c, x_irql = PASSIVE_LVL, x_dpc_head = None, x_dpc_tail = None\<rparr>]\<rparr>))"

definition msi_cap_1vec :: MSI_CAP where
  "msi_cap_1vec = \<lparr>supported = 1, multi_msg = 1\<rparr>"

definition msi_cap_none :: MSI_CAP where
  "msi_cap_none = \<lparr>supported = 0, multi_msg = 0\<rparr>"

definition CreateDevice :: "string option \<Rightarrow> MSI_CAP option \<Rightarrow> irqsys \<Rightarrow> nat option \<times> irqsys" where
  "CreateDevice name cap s =
     (case (name, cap) of
        (Some name, Some cap) \<Rightarrow>
          (let (ok, s) = alloc s
           in if \<not> ok then (None, s)
              else (Some (length (h_dev s)), s\<lparr>h_dev := h_dev s @
                [\<lparr>d_name = take 31 name, d_msi_cap = cap,
                  d_msi = \<lparr>msi_address = 0, msi_data = 0, msi_enabled = False\<rparr>,
                  d_irq_line = -1, d_use_msi = False, d_ext = None,
                  d_buffer = \<lparr>rb_data = replicate BUF_SIZE 0, rb_head = 0, rb_tail = 0\<rparr>\<rparr>]\<rparr>))
      | _ \<Rightarrow> (None, s))"

definition SetupIoApicRoute :: "int \<Rightarrow> int \<Rightarrow> int \<Rightarrow> irqsys \<Rightarrow> irqsys res" where
  "SetupIoApicRoute irq vector cpu_id s =
     (case g_ioapic s of None \<Rightarrow> Inr s
      | Some routes \<Rightarrow>
          if irq < 0 then Inl (Undefined ''array index'')
          else bnd (aread routes (nat irq)) (\<lambda>_.
            Inr (s\<lparr>g_ioapic := Some (routes[nat irq :=
                 \<lparr>r_irq = irq, r_vector = vector, r_target_cpu = cpu_id\<rparr>])\<rparr>)))"

definition ConfigureDevice :: "nat option \<Rightarrow> nat option \<Rightarrow> int \<Rightarrow> irqsys \<Rightarrow> irqsys res" where
  "ConfigureDevice device cpu vector s =
     (case (device, cpu) of
        (Some d, Some c) \<Rightarrow> bnd (get_cpu c s) (\<lambda>cp.
          if c_id cp < 0 \<or> c_id cp \<ge> int MAX_CPU then Inr s
          else bnd (get_dev d s) (\<lambda>dv.
            if supported (d_msi_cap dv) = 1
            then Inr (upd_dev d (\<lambda>dv. dv\<lparr>d_msi :=
                   \<lparr>msi_address = LAPIC_BASE + push_bit 12 (word_of_int (c_id cp)),
                    msi_data = word_of_int vector, msi_enabled = True\<rparr>,
                   d_use_msi := True, d_irq_line := -1\<rparr>) s)
            else SetupIoApicRoute 1 vector (c_id cp)
                   (upd_dev d (\<lambda>dv. dv\<lparr>d_irq_line := 1, d_use_msi := False,
                      d_msi := \<lparr>msi_address = 0, msi_data = 0, msi_enabled = False\<rparr>\<rparr>) s)))
      | _ \<Rightarrow> Inr s)"

section \<open>Raising interrupts\<close>

definition set_pending :: "nat \<Rightarrow> nat \<Rightarrow> irqsys \<Rightarrow> irqsys" where
  "set_pending c v = upd_lapic c (\<lambda>l. l\<lparr>pending_vectors := pending_vectors l OR push_bit v 1\<rparr>)"

definition IoApicHandleIRQ :: "int \<Rightarrow> irqsys \<Rightarrow> irqsys res" where
  "IoApicHandleIRQ irq s =
     (if irq < 0 \<or> irq \<ge> int MAX_IRQ then Inr s
      else bnd (deref (g_ioapic s)) (\<lambda>routes. bnd (aread routes (nat irq)) (\<lambda>rte.
        if r_target_cpu rte < 0 then Inl (Undefined ''array index'')
        else bnd (aread (g_cpus s) (nat (r_target_cpu rte))) (\<lambda>cpu.
          case cpu of None \<Rightarrow> Inr s
          | Some c \<Rightarrow> bnd (get_cpu c s) (\<lambda>cp.
              if c_lapic cp = None then Inr s
              else if r_vector rte < 0 \<or> r_vector rte \<ge> 64 then Inl (Undefined ''shift'')
              else Inr (set_pending c (nat (r_vector rte)) s))))))"

definition DeviceRaiseInterrupt :: "nat option \<Rightarrow> irqsys \<Rightarrow> irqsys res" where
  "DeviceRaiseInterrupt device s =
     (case device of None \<Rightarrow> Inr s
      | Some d \<Rightarrow> bnd (get_dev d s) (\<lambda>dv.
          if d_use_msi dv
          then let vector = sint (msi_data (d_msi dv))
               in if vector \<ge> 64 then Inr s
                  else let cpu_id = drop_bit 12 (msi_address (d_msi dv) - LAPIC_BASE)
                       in bnd (aread (g_cpus s) (unat cpu_id)) (\<lambda>cpu. bnd (deref cpu) (\<lambda>c.
                          bnd (get_lapic c s) (\<lambda>_.
                          if vector < 0 then Inl (Undefined ''shift'')
                          else Inr (set_pending c (nat vector) s))))
          else IoApicHandleIRQ (d_irq_line dv) s))"

definition DeviceGenerateEvent :: "nat option \<Rightarrow> int \<Rightarrow> irqsys \<Rightarrow> irqsys res" where
  "DeviceGenerateEvent device val s =
     (case device of None \<Rightarrow> Inr s
      | Some d \<Rightarrow> bnd (get_dev d s) (\<lambda>_.
          DeviceRaiseInterrupt (Some d) (upd_dev d (\<lambda>dv. dv\<lparr>d_buffer := RB_Push val (d_buffer dv)\<rparr>) s)))"

definition TimerStep :: "nat \<Rightarrow> irqsys \<Rightarrow> irqsys res" where
  "TimerStep timer s = bnd (get_dev timer s) (\<lambda>dv. bnd (deref (d_ext dv)) (\<lambda>time.
     let counter = te_counter time + 1
     in if counter \<ge> te_interval time
        then DeviceRaiseInterrupt (Some timer)
               (upd_dev timer (\<lambda>dv. dv\<lparr>d_ext := Some (time\<lparr>te_counter := 0\<rparr>)\<rparr>) s)
        else Inr (upd_dev timer (\<lambda>dv. dv\<lparr>d_ext := Some (time\<lparr>te_counter := counter\<rparr>)\<rparr>) s)))"

section \<open>The DPC list\<close>

definition QueueDpc_irq :: "nat \<Rightarrow> fDpcHandler \<Rightarrow> nat option \<Rightarrow> irqsys \<Rightarrow> irqsys res" where
  "QueueDpc_irq x func data s =
     (let (ok, s) = alloc s
      in if \<not> ok then Inr s
         else let n = length (h_dpc s);
                  s1 = s\<lparr>h_dpc := h_dpc s @
                         [Some \<lparr>dpc_func = func, dpc_ctx = data, dpc_next = None\<rparr>]\<rparr>
              in bnd (get_ctx x s1) (\<lambda>ctx.
                 bnd (case x_dpc_tail ctx of
                        Some t \<Rightarrow> bnd (get_dpc t s1) (\<lambda>td.
                          Inr (s1\<lparr>h_dpc := (h_dpc s1)[t := Some (td\<lparr>dpc_next := Some n\<rparr>)]\<rparr>))
                      | None \<Rightarrow> Inr (upd_ctx x (\<lambda>c. c\<lparr>x_dpc_head := Some n\<rparr>) s1))
                   (\<lambda>s2. Inr (upd_ctx x (\<lambda>c. c\<lparr>x_dpc_tail := Some n\<rparr>) s2))))"

definition RaiseIrql :: "nat \<Rightarrow> IRQL_irq \<Rightarrow> irqsys \<Rightarrow> (IRQL_irq \<times> irqsys) res" where
  "RaiseIrql x newIrql s = bnd (get_ctx x s) (\<lambda>ctx.
     Inr (x_irql ctx,
          if newIrql > x_irql ctx then upd_ctx x (\<lambda>c. c\<lparr>x_irql := newIrql\<rparr>) s else s))"

definition LowerIrql :: "nat \<Rightarrow> IRQL_irq \<Rightarrow> irqsys \<Rightarrow> irqsys res" where
  "LowerIrql x oldIrql s = bnd (get_ctx x s) (\<lambda>_.
     Inr (upd_ctx x (\<lambda>c. c\<lparr>x_irql := oldIrql\<rparr>) s))"

text \<open>
  The three DPC routines print every value in the buffer of their device. With indices outside
  the buffer the loop could run for ever.
\<close>

partial_function (option) drain_buffer :: "RING_BUFFER \<Rightarrow> (int list \<times> RING_BUFFER) option" where
  "drain_buffer rb =
     (case RB_Pop rb of
        (None, rb') \<Rightarrow> Some ([], rb')
      | (Some v, rb') \<Rightarrow>
          Option.bind (drain_buffer rb') (\<lambda>(vs, rb''). Some (v # vs, rb'')))"

lemmas drain_buffer_code [code] = drain_buffer.simps

definition process_buffer :: "fDpcHandler \<Rightarrow> nat option \<Rightarrow> irqsys \<Rightarrow> irqsys res option" where
  "process_buffer f data s =
     obnd (Some (bnd (deref data) (\<lambda>d. bnd (get_dev d s) (\<lambda>dv. Inr (d, dv))))) (\<lambda>(d, dv).
       case drain_buffer (d_buffer dv) of None \<Rightarrow> None
       | Some (vs, rb) \<Rightarrow> Some (Inr ((upd_dev d (\<lambda>dv. dv\<lparr>d_buffer := rb\<rparr>) s)
                                 \<lparr>out := out s @ map (Pair f) vs\<rparr>)))"

definition KeyboardDpc :: "nat option \<Rightarrow> irqsys \<Rightarrow> irqsys res option" where
  "KeyboardDpc data s = process_buffer KeyboardDpc_fn data s"

definition MicrophoneDpc :: "nat option \<Rightarrow> irqsys \<Rightarrow> irqsys res option" where
  "MicrophoneDpc data s = process_buffer MicrophoneDpc_fn data s"

definition MouseDpc :: "nat option \<Rightarrow> irqsys \<Rightarrow> irqsys res option" where
  "MouseDpc data s = process_buffer MouseDpc_fn data s"

fun run_dpc_irq :: "fDpcHandler \<Rightarrow> nat option \<Rightarrow> irqsys \<Rightarrow> irqsys res option" where
  "run_dpc_irq KeyboardDpc_fn data s = KeyboardDpc data s"
| "run_dpc_irq MicrophoneDpc_fn data s = MicrophoneDpc data s"
| "run_dpc_irq MouseDpc_fn data s = MouseDpc data s"

text \<open>One turn of the loop of \<open>ProcessDpcQueue\<close>, on the node at the head.\<close>

definition dpc_turn :: "nat \<Rightarrow> nat \<Rightarrow> irqsys \<Rightarrow> irqsys res option" where
  "dpc_turn x n s =
     obnd (Some (get_dpc n s)) (\<lambda>d.
     let s1 = upd_ctx x (\<lambda>c. c\<lparr>x_dpc_head := dpc_next d\<rparr>) s;
         s2 = (if dpc_next d = None then upd_ctx x (\<lambda>c. c\<lparr>x_dpc_tail := None\<rparr>) s1 else s1)
     in obnd (run_dpc_irq (dpc_func d) (dpc_ctx d) s2) (\<lambda>s3.
          Some (Inr (s3\<lparr>h_dpc := (h_dpc s3)[n := None]\<rparr>))))"

partial_function (option) dpc_loop :: "nat \<Rightarrow> irqsys \<Rightarrow> irqsys res option" where
  "dpc_loop x s =
     (case get_ctx x s of Inl e \<Rightarrow> Some (Inl e)
      | Inr ctx \<Rightarrow>
          (case x_dpc_head ctx of None \<Rightarrow> Some (Inr s)
           | Some n \<Rightarrow>
               (case dpc_turn x n s of None \<Rightarrow> None
                | Some r \<Rightarrow> (case r of Inl e \<Rightarrow> Some (Inl e) | Inr s' \<Rightarrow> dpc_loop x s'))))"

lemmas dpc_loop_code [code] = dpc_loop.simps

definition ProcessDpcQueue :: "nat \<Rightarrow> irqsys \<Rightarrow> irqsys res option" where
  "ProcessDpcQueue x s =
     obnd (Some (get_ctx x s)) (\<lambda>ctx.
     if x_dpc_head ctx = None then Some (Inr s)
     else obnd (Some (RaiseIrql x DISPATCH_LVL s)) (\<lambda>(oldIrql, s1).
          obnd (dpc_loop x s1) (\<lambda>s2. Some (LowerIrql x oldIrql s2))))"

section \<open>Service routines and dispatching\<close>

definition RegisterIsr :: "int \<Rightarrow> fIsrHandler option \<Rightarrow> nat option \<Rightarrow> irqsys \<Rightarrow> irqsys" where
  "RegisterIsr vector handler device s =
     (if vector < 0 \<or> vector \<ge> int MAX_VECTOR then s
      else case handler of None \<Rightarrow> s
      | Some h \<Rightarrow>
          (let (ok1, s) = alloc s; (ok2, s) = alloc s
           in if \<not> ok1 \<or> \<not> ok2 then s
              else s\<lparr>g_isr_table := (g_isr_table s)[nat vector :=
                   \<lparr>n_handler = h, n_device = device\<rparr> # g_isr_table s ! nat vector]\<rparr>))"

definition RegisterInterrupt :: "int \<Rightarrow> fHandler option \<Rightarrow> irqsys \<Rightarrow> irqsys res" where
  "RegisterInterrupt vector handler s =
     (if vector < 0 then Inl (Undefined ''array index'')
      else bnd (aread (g_idt s) (nat vector)) (\<lambda>_.
        Inr (s\<lparr>g_idt := (g_idt s)[nat vector := handler]\<rparr>)))"

definition LapicGetNextVector :: "nat \<Rightarrow> irqsys \<Rightarrow> (int \<times> irqsys) res" where
  "LapicGetNextVector c s = bnd (get_cpu c s) (\<lambda>cp.
     case c_lapic cp of None \<Rightarrow> Inr (-1, s)
     | Some l \<Rightarrow>
         if pending_vectors l = 0 then Inr (-1, s)
         else let (vector, s) = FindLowestSetBit (pending_vectors l) s
              in if vector < 0 \<or> vector \<ge> 64 then Inr (-1, s)
                 else Inr (vector, upd_lapic c (\<lambda>l. l\<lparr>
                   pending_vectors := pending_vectors l AND NOT (push_bit (nat vector) 1),
                   in_service_vector := vector\<rparr>) s))"

definition LapicSendEoi :: "nat \<Rightarrow> irqsys \<Rightarrow> irqsys res" where
  "LapicSendEoi c s = bnd (get_lapic c s) (\<lambda>_.
     Inr (upd_lapic c (\<lambda>l. l\<lparr>in_service_vector := -1\<rparr>) s))"

definition TimerIsr_irq :: "nat \<Rightarrow> nat option \<Rightarrow> irqsys \<Rightarrow> (bool \<times> irqsys) res" where
  "TimerIsr_irq x device s = Inr (True, s\<lparr>g_system_ticks := g_system_ticks s + 1\<rparr>)"

definition KeyboardIsr :: "nat \<Rightarrow> nat option \<Rightarrow> irqsys \<Rightarrow> (bool \<times> irqsys) res" where
  "KeyboardIsr x device s = bnd (QueueDpc_irq x KeyboardDpc_fn device s) (\<lambda>s1. Inr (True, s1))"

definition MouseIsr :: "nat \<Rightarrow> nat option \<Rightarrow> irqsys \<Rightarrow> (bool \<times> irqsys) res" where
  "MouseIsr x device s = bnd (QueueDpc_irq x MouseDpc_fn device s) (\<lambda>s1. Inr (True, s1))"

definition MicrophoneIsr :: "nat \<Rightarrow> nat option \<Rightarrow> irqsys \<Rightarrow> (bool \<times> irqsys) res" where
  "MicrophoneIsr x device s = bnd (QueueDpc_irq x MicrophoneDpc_fn device s) (\<lambda>s1. Inr (True, s1))"

text \<open>\<open>True\<close> is \<^verbatim>\<open>HANDLED\<close>.\<close>

fun run_isr_irq :: "fIsrHandler \<Rightarrow> nat \<Rightarrow> nat option \<Rightarrow> irqsys \<Rightarrow> (bool \<times> irqsys) res" where
  "run_isr_irq TimerIsr_irq_fn x device s = TimerIsr_irq x device s"
| "run_isr_irq KeyboardIsr_fn x device s = KeyboardIsr x device s"
| "run_isr_irq MouseIsr_fn x device s = MouseIsr x device s"
| "run_isr_irq MicrophoneIsr_fn x device s = MicrophoneIsr x device s"

fun isr_chain :: "ISR_NODE list \<Rightarrow> nat \<Rightarrow> irqsys \<Rightarrow> irqsys res" where
  "isr_chain [] x s = Inr s"
| "isr_chain (node # nodes) x s =
     bnd (run_isr_irq (n_handler node) x (n_device node) s) (\<lambda>(handled, s1).
       if handled then Inr s1 else isr_chain nodes x s1)"

definition CommonInterruptEntry :: "nat \<Rightarrow> irqsys \<Rightarrow> (int \<times> irqsys) res" where
  "CommonInterruptEntry x s = bnd (get_ctx x s) (\<lambda>ctx. bnd (get_lapic (x_cpu ctx) s) (\<lambda>l.
     if in_service_vector l < 0 then Inl (Undefined ''array index'')
     else bnd (aread (g_isr_table s) (nat (in_service_vector l))) (\<lambda>nodes.
       if nodes = [] then Inr (0, s)
       else bnd (isr_chain nodes x s) (\<lambda>s1. Inr (1, s1)))))"

fun run_handler :: "fHandler \<Rightarrow> nat \<Rightarrow> irqsys \<Rightarrow> (int \<times> irqsys) res" where
  "run_handler CommonInterruptEntry_fn x s = CommonInterruptEntry x s"

definition DispatchInterrupt :: "nat \<Rightarrow> int \<Rightarrow> irqsys \<Rightarrow> irqsys res" where
  "DispatchInterrupt x vector s =
     bnd (RaiseIrql x DEVICE_LVL s) (\<lambda>(oldIrql, s).
     bnd (get_ctx x s) (\<lambda>ctx. bnd (get_lapic (x_cpu ctx) s) (\<lambda>_.
     let s = upd_lapic (x_cpu ctx) (\<lambda>l. l\<lparr>in_service_vector := vector\<rparr>) s
     in if vector < 0 then Inl (Undefined ''array index'')
        else bnd (aread (g_idt s) (nat vector)) (\<lambda>handler.
        bnd (case handler of None \<Rightarrow> Inr s
             | Some h \<Rightarrow> bnd (run_handler h x s) (\<lambda>(_, s). Inr s)) (\<lambda>s.
        bnd (LapicSendEoi (x_cpu ctx) s) (LowerIrql x oldIrql))))))"

partial_function (option) vector_loop :: "nat \<Rightarrow> nat \<Rightarrow> irqsys \<Rightarrow> irqsys res option" where
  "vector_loop x c s =
     (case LapicGetNextVector c s of Inl e \<Rightarrow> Some (Inl e)
      | Inr r \<Rightarrow>
          if fst r = -1 then Some (Inr (snd r))
          else (case DispatchInterrupt x (fst r) (snd r) of Inl e \<Rightarrow> Some (Inl e)
                | Inr s' \<Rightarrow> vector_loop x c s'))"

lemmas vector_loop_code [code] = vector_loop.simps

definition CpuStep :: "nat option \<Rightarrow> irqsys \<Rightarrow> irqsys res option" where
  "CpuStep x s =
     (case x of None \<Rightarrow> Some (Inr s)
      | Some x \<Rightarrow> obnd (Some (get_ctx x s)) (\<lambda>ctx. obnd (Some (get_cpu (x_cpu ctx) s)) (\<lambda>cp.
          if c_lapic cp = None then Some (Inr s)
          else obnd (vector_loop x (x_cpu ctx) s) (ProcessDpcQueue x))))"

definition IsLapic_id_n_owner :: "nat \<Rightarrow> irqsys \<Rightarrow> int res" where
  "IsLapic_id_n_owner c s = bnd (get_cpu c s) (\<lambda>cp.
     case c_lapic cp of None \<Rightarrow> Inr 0
     | Some l \<Rightarrow>
         (case owner_cpu l of None \<Rightarrow> Inr 0
          | Some ow \<Rightarrow> bnd (get_cpu ow s) (\<lambda>oc.
              if c_id oc < 0 \<or> c_id oc > 4 then Inr 0 else Inr 1)))"

end
