(* ===== verification/IK_Main.thy ===== *)
theory IK_Main
  imports IK_Ops
begin

text \<open>
  \<open>DevicePool\<close>, \<open>SystemInit\<close> and the tick loop of \<^verbatim>\<open>BLUE_KERNEL/IRQ_KernelDeal.c\<close>.
\<close>

text \<open>\<^verbatim>\<open>g_sys.devices[g_sys.d_count++] = device\<close>.\<close>

definition add_device :: "nat option \<Rightarrow> irqsys \<Rightarrow> irqsys res" where
  "add_device device s =
     (if d_count s < MAX_DEVICES
      then Inr (s\<lparr>g_devices := (g_devices s)[d_count s := device], d_count := d_count s + 1\<rparr>)
      else Inl (Undefined ''array index''))"

definition pool_device :: "string \<Rightarrow> MSI_CAP \<Rightarrow> nat \<Rightarrow> int \<Rightarrow> irqsys \<Rightarrow> (nat option \<times> irqsys) res" where
  "pool_device name cap cpu vector s =
     (let (device, s) = CreateDevice (Some name) (Some cap) s
      in bnd (ConfigureDevice device (g_cpus s ! cpu) vector s) (\<lambda>s. Inr (device, s)))"

definition DevicePool :: "irqsys \<Rightarrow> irqsys res" where
  "DevicePool s =
     bnd (pool_device ''timer'' msi_cap_1vec 0 40 s) (\<lambda>(timer, s).
     let (ok, s) = alloc s
     in if \<not> ok then Inl (Undefined ''null pointer'')
        else bnd (deref timer) (\<lambda>t.
        bnd (add_device timer
              (upd_dev t (\<lambda>d. d\<lparr>d_ext := Some \<lparr>te_interval = 3, te_counter = 0\<rparr>\<rparr>) s)) (\<lambda>s.
        bnd (pool_device ''keyboard'' msi_cap_1vec 0 33 s) (\<lambda>(keyboard, s).
        bnd (add_device keyboard s) (\<lambda>s.
        bnd (pool_device ''mouse'' msi_cap_1vec 1 34 s) (\<lambda>(mouse, s).
        bnd (add_device mouse s) (\<lambda>s.
        bnd (pool_device ''microphone'' msi_cap_none 3 35 s) (\<lambda>(microphone, s).
        add_device microphone s))))))))"

fun create_contexts :: "nat \<Rightarrow> irqsys \<Rightarrow> irqsys res" where
  "create_contexts 0 s = Inr s"
| "create_contexts (Suc n) s =
     (let (ctx, s) = CreateCpuContext (int (c_count s)) s
      in bnd (deref ctx) (\<lambda>x. bnd (get_ctx x s) (\<lambda>cx.
         create_contexts n (s\<lparr>g_cpus := (g_cpus s)[c_count s := Some (x_cpu cx)],
                              g_context := (g_context s)[c_count s := Some x],
                              c_count := c_count s + 1\<rparr>))))"

fun cpu_steps :: "nat option list \<Rightarrow> irqsys \<Rightarrow> irqsys res option" where
  "cpu_steps [] s = Some (Inr s)"
| "cpu_steps (x # xs) s = obnd (CpuStep x s) (cpu_steps xs)"

definition event_at :: "nat \<Rightarrow> irqsys \<Rightarrow> irqsys res" where
  "event_at tick s =
     (if tick = 0 then DeviceGenerateEvent (g_devices s ! 1) 101 s
      else if tick = 3 then DeviceGenerateEvent (g_devices s ! 2) 102 s
      else if tick = 5 then DeviceGenerateEvent (g_devices s ! 3) 103 s
      else if tick = 8 then DeviceGenerateEvent (g_devices s ! 1) 106 s
      else Inr s)"

definition sim_tick :: "nat \<Rightarrow> irqsys \<Rightarrow> irqsys res option" where
  "sim_tick tick s =
     obnd (Some (bnd (deref (g_devices s ! 0)) (\<lambda>timer. bnd (TimerStep timer s) (event_at tick))))
       (\<lambda>s. cpu_steps (take (c_count s) (g_context s)) s)"

fun sim_ticks :: "nat list \<Rightarrow> irqsys \<Rightarrow> irqsys res option" where
  "sim_ticks [] s = Some (Inr s)"
| "sim_ticks (t # ts) s = obnd (sim_tick t s) (sim_ticks ts)"

text \<open>
  \<^verbatim>\<open>SystemInit\<close>: when the IO-APIC cannot be allocated it returns early; the debug output is left
  out, except that it reads every device.
\<close>

definition SystemInit :: "irqsys \<Rightarrow> irqsys res option" where
  "SystemInit s =
     obnd (Some (create_contexts MAX_CPU (BuildDeBurijnTable_irq s\<lparr>c_count := 0, d_count := 0\<rparr>))) (\<lambda>s.
     let (ok, s) = alloc s
     in if \<not> ok then Some (Inr (s\<lparr>g_ioapic := None\<rparr>))
        else obnd (Some (
          bnd (DevicePool (s\<lparr>g_ioapic :=
                 Some (replicate MAX_IRQ \<lparr>r_irq = 0, r_vector = 0, r_target_cpu = 0\<rparr>)\<rparr>)) (\<lambda>s.
          if None \<in> set (take (d_count s) (g_devices s)) then Inl (Undefined ''null pointer'') else
          bnd (RegisterInterrupt 40 (Some CommonInterruptEntry_fn) s) (\<lambda>s.
          bnd (RegisterInterrupt 33 (Some CommonInterruptEntry_fn) s) (\<lambda>s.
          bnd (RegisterInterrupt 34 (Some CommonInterruptEntry_fn) s) (\<lambda>s.
          bnd (RegisterInterrupt 35 (Some CommonInterruptEntry_fn) s) (\<lambda>s.
          let s = RegisterIsr 40 (Some TimerIsr_irq_fn) (g_devices s ! 0) s;
              s = RegisterIsr 33 (Some KeyboardIsr_fn) (g_devices s ! 1) s;
              s = RegisterIsr 34 (Some MouseIsr_fn) (g_devices s ! 2) s;
              s = RegisterIsr 35 (Some MicrophoneIsr_fn) (g_devices s ! 3) s
          in Inr s)))))))
          (sim_ticks [0..<10]))"

end
