(* ===== verification/IK_Buffers.thy ===== *)
theory IK_Buffers
  imports IK_Main
begin

text \<open>
  The vector search and the device buffers of \<^verbatim>\<open>BLUE_KERNEL/IRQ_KernelDeal.c\<close>: the search finds
  the lowest set bit whatever the table held before, a buffer is a FIFO of at most 15 values
  that loses what comes when it is full, and draining a buffer yields all of it.
\<close>

section \<open>The lowest set bit\<close>

definition vector_slot :: "nat \<Rightarrow> nat" where
  "vector_slot n = unat (drop_bit 58 (push_bit n 1 * DEBURIJN64))"

lemma vector_slots: "map vector_slot [0..<64] =
  [0, 1, 3, 7, 15, 31, 63, 62, 61, 59, 55, 47, 30, 60, 57, 51, 39, 14, 29,
   58, 53, 43, 23, 46, 28, 56, 49, 35, 6, 13, 27, 54, 45, 26, 52, 41, 19, 38,
   12, 25, 50, 37, 11, 22, 44, 24, 48, 33, 2, 5, 10, 21, 42, 20, 40, 17, 34,
   4, 9, 18, 36, 8, 16, 32]"
  by (simp add: vector_slot_def DEBURIJN64_def upt_conv_Cons push_bit_eq_mult drop_bit_eq_div)

lemma vector_slot_inj: "inj_on vector_slot (set [0..<64])"
proof -
  have "distinct (map vector_slot [0..<64])"
    unfolding vector_slots by simp
  then show ?thesis by (simp add: distinct_map)
qed

lemma vector_slot_less: "n < 64 \<Longrightarrow> vector_slot n < 64"
proof -
  assume "n < 64"
  then have "vector_slot n \<in> set (map vector_slot [0..<64])" by simp
  then show ?thesis unfolding vector_slots by auto
qed

definition vector_table_ok :: "irqsys \<Rightarrow> bool" where
  "vector_table_ok s \<longleftrightarrow> (\<forall>n < 64. g_vector_priority_Table s ! vector_slot n = word_of_nat n)"

lemma BuildDeBurijnTable_irq_ok:
  assumes "length (g_vector_priority_Table s) = MAX_VECTOR_PRIORITY"
  shows "vector_table_ok (BuildDeBurijnTable_irq s)"
proof -
  have "g_vector_priority_Table (BuildDeBurijnTable_irq s) =
      foldl (\<lambda>tab n. tab[vector_slot n := word_of_nat n]) (g_vector_priority_Table s) [0..<64]"
    by (simp add: BuildDeBurijnTable_irq_def vector_slot_def Let_def)
  then show ?thesis
    using assms vector_slot_less
    by (auto simp: vector_table_ok_def intro!: foldl_update_nth vector_slot_inj)
qed

definition lowest_bit :: "64 word \<Rightarrow> nat" where
  "lowest_bit x = hd (filter (bit x) [0..<64])"

lemma lowest_bit_props:
  assumes "x \<noteq> 0"
  shows "lowest_bit x < 64" "bit x (lowest_bit x)" "i < lowest_bit x \<Longrightarrow> \<not> bit x i"
proof -
  obtain k where "bit x k" using assms by (auto simp: bit_eq_iff)
  moreover from this have "k < 64" using bit_imp_le_length by fastforce
  ultimately have ne: "filter (bit x) [0..<64] \<noteq> []" by (auto simp: filter_empty_conv)
  then have "lowest_bit x \<in> set (filter (bit x) [0..<64])"
    unfolding lowest_bit_def by (rule hd_in_set)
  then show b: "lowest_bit x < 64" "bit x (lowest_bit x)" by auto
  assume i: "i < lowest_bit x"
  have "sorted (filter (bit x) [0..<64])" by (simp add: sorted_wrt_filter)
  then have "lowest_bit x \<le> i" if "i \<in> set (filter (bit x) [0..<64])"
    unfolding lowest_bit_def using ne that by (cases "filter (bit x) [0..<64]") auto
  with i b(1) show "\<not> bit x i" by auto
qed

text \<open>\<^verbatim>\<open>bitmap & -bitmap\<close> keeps the lowest set bit only.\<close>

lemma lowest_isolated:
  assumes "bit x n" "\<And>i. i < n \<Longrightarrow> \<not> bit (x :: 64 word) i"
  shows "x AND - x = push_bit n 1"
proof -
  let ?h = "x AND NOT (push_bit n 1)"
  have n: "n < 64" using assms(1) bit_imp_le_length by fastforce
  have p: "bit (push_bit n 1 :: 64 word) i \<longleftrightarrow> i = n" for i
    using n by (auto simp: bit_exp_iff)
  have m: "bit (mask n :: 64 word) i \<longleftrightarrow> i < n" for i
    using n by (auto simp: bit_mask_iff)
  have "x = ?h OR push_bit n 1"
    using assms(1) p by (intro bit_eqI) (auto simp: bit_or_iff bit_and_iff bit_not_iff)
  also have "\<dots> = ?h + push_bit n 1"
    by (rule disjunctive_add_eq_or [symmetric]) (simp add: bit_eq_iff bit_and_iff bit_not_iff p)
  finally have "x - 1 = ?h + mask n" by (simp add: mask_eq_exp_minus_1 push_bit_eq_mult)
  also have "\<dots> = ?h OR mask n"
    by (rule disjunctive_add_eq_or)
      (use assms(2) in \<open>auto simp: bit_eq_iff bit_and_iff bit_not_iff m\<close>)
  finally have "- x = NOT (?h OR mask n)" by (simp add: minus_eq_not_minus_1)
  then show ?thesis
    using assms p m n
    by (intro bit_eqI) (auto simp: bit_or_iff bit_and_iff bit_not_iff not_less)
qed

lemma vector_value: "n < 64 \<Longrightarrow> sint (ucast (word_of_nat n :: 64 word) :: 32 word) = int n"
proof -
  assume "n < 64"
  then have "signed_take_bit 31 (int n) = int n"
    by (intro signed_take_bit_int_eq_self) simp_all
  with \<open>n < 64\<close> show ?thesis
    by (simp add: unsigned_of_nat take_bit_nat_eq_self signed_of_nat)
qed

lemma vector_slot_01: "vector_slot 0 = 0" "vector_slot (Suc 0) = 1"
  by (simp_all add: vector_slot_def DEBURIJN64_def push_bit_eq_mult drop_bit_eq_div)

lemma FindLowestSetBit_eq:
  assumes ok: "vector_table_ok s \<or> length (g_vector_priority_Table s) = MAX_VECTOR_PRIORITY
      \<and> (g_vector_priority_Table s ! 0 \<noteq> 0 \<or> g_vector_priority_Table s ! 1 \<noteq> 1)"
    and "x \<noteq> 0"
  obtains s' where "FindLowestSetBit x s = (int (lowest_bit x), s')" "vector_table_ok s'"
    "s' = s\<lparr>g_vector_priority_Table := g_vector_priority_Table s'\<rparr>"
proof -
  let ?s' = "if g_vector_priority_Table s ! 0 \<noteq> 0 \<or> g_vector_priority_Table s ! 1 \<noteq> 1
               then BuildDeBurijnTable_irq s else s"
  have ok': "vector_table_ok ?s'"
    using ok
  proof
    assume v: "vector_table_ok s"
    then have "g_vector_priority_Table s ! vector_slot 0 = word_of_nat 0"
      "g_vector_priority_Table s ! vector_slot (Suc 0) = word_of_nat (Suc 0)"
      by (simp_all only: vector_table_ok_def)
    with v show ?thesis by (simp add: vector_slot_01)
  qed (use BuildDeBurijnTable_irq_ok [of s] in auto)
  note low = lowest_bit_props [OF assms(2)]
  have "unat (drop_bit 58 ((x AND - x) * DEBURIJN64)) = vector_slot (lowest_bit x)"
    using lowest_isolated [OF low(2,3)] by (simp add: vector_slot_def)
  then have "FindLowestSetBit x s = (int (lowest_bit x), ?s')"
    using assms(2) ok' low(1) by (simp add: FindLowestSetBit_def Let_def vector_table_ok_def vector_value)
  then show thesis
    using ok' by (intro that [of ?s']) (simp_all add: BuildDeBurijnTable_irq_def)
qed

section \<open>The device buffer\<close>

definition rb_len :: "RING_BUFFER \<Rightarrow> nat" where
  "rb_len rb = (rb_tail rb + BUF_SIZE - rb_head rb) mod BUF_SIZE"

definition rb_list :: "RING_BUFFER \<Rightarrow> int list" where
  "rb_list rb = ring_list (rb_data rb) (rb_head rb) (rb_len rb)"

definition rb_wf :: "RING_BUFFER \<Rightarrow> bool" where
  "rb_wf rb \<longleftrightarrow> length (rb_data rb) = BUF_SIZE \<and> rb_head rb < BUF_SIZE \<and> rb_tail rb < BUF_SIZE"

lemma rb_len_tail: "rb_wf rb \<Longrightarrow> rb_tail rb = (rb_head rb + rb_len rb) mod BUF_SIZE"
  by (auto simp: rb_wf_def rb_len_def mod_simps)

lemma rb_len_le: "rb_len rb \<le> 15"
  using mod_less_divisor [of 16 "rb_tail rb + 16 - rb_head rb"] by (simp add: rb_len_def)

lemma length_rb_list [simp]: "length (rb_list rb) = rb_len rb"
  by (simp add: rb_list_def)

lemma rb_full: "rb_wf rb \<Longrightarrow> RB_IsFull rb \<longleftrightarrow> rb_len rb = 15"
  unfolding RB_IsFull_def rb_wf_def rb_len_def IK_limits by (cases "rb_tail rb < rb_head rb") (auto simp: mod_if)

lemma rb_empty: "rb_wf rb \<Longrightarrow> RB_IsEmpty rb \<longleftrightarrow> rb_len rb = 0"
  unfolding RB_IsEmpty_def rb_wf_def rb_len_def IK_limits by (cases "rb_tail rb < rb_head rb") (auto simp: mod_if)

lemma RB_Push_list:
  assumes "rb_wf rb"
  shows "rb_wf (RB_Push v rb)"
    "rb_list (RB_Push v rb) = (if length (rb_list rb) < 15 then rb_list rb @ [v] else rb_list rb)"
proof -
  show "rb_wf (RB_Push v rb)" using assms by (simp add: RB_Push_def rb_wf_def)
  show "rb_list (RB_Push v rb) = (if length (rb_list rb) < 15 then rb_list rb @ [v] else rb_list rb)"
  proof (cases "rb_len rb < 15")
    case False
    then have "rb_len rb = 15" using rb_len_le [of rb] by simp
    then show ?thesis using rb_full [OF assms] by (simp add: RB_Push_def)
  next
    case True
    then have nf: "\<not> RB_IsFull rb" using rb_full [OF assms] by simp
    have "rb_len (RB_Push v rb) = Suc (rb_len rb)"
      using True nf assms unfolding rb_wf_def rb_len_def RB_Push_def IK_limits
      by (cases "rb_tail rb < rb_head rb") (auto simp: mod_if)
    moreover have "rb_data (RB_Push v rb) =
        (rb_data rb)[(rb_head rb + rb_len rb) mod length (rb_data rb) := v]"
      using nf rb_len_tail [OF assms] assms by (simp add: RB_Push_def rb_wf_def)
    moreover have "rb_head (RB_Push v rb) = rb_head rb" using nf by (simp add: RB_Push_def)
    ultimately show ?thesis
      using True ring_list_push [of "rb_len rb" "rb_data rb" "rb_head rb" v] assms
      by (simp add: rb_list_def rb_wf_def)
  qed
qed

lemma RB_Pop_list:
  assumes "rb_wf rb"
  shows "rb_wf (snd (RB_Pop rb))" "rb_list (snd (RB_Pop rb)) = tl (rb_list rb)"
    "fst (RB_Pop rb) = (case rb_list rb of [] \<Rightarrow> None | v # vs \<Rightarrow> Some v)"
proof -
  show "rb_wf (snd (RB_Pop rb))" using assms by (simp add: RB_Pop_def rb_wf_def)
  have "rb_list (snd (RB_Pop rb)) = tl (rb_list rb)
    \<and> fst (RB_Pop rb) = (case rb_list rb of [] \<Rightarrow> None | v # vs \<Rightarrow> Some v)"
  proof (cases "rb_len rb")
    case 0
    then show ?thesis using rb_empty [OF assms] by (simp add: RB_Pop_def rb_list_def)
  next
    case (Suc n)
    then have ne: "\<not> RB_IsEmpty rb" using rb_empty [OF assms] by simp
    have "rb_len (snd (RB_Pop rb)) = n"
      using Suc ne assms unfolding rb_wf_def rb_len_def RB_Pop_def IK_limits
      by (cases "rb_tail rb < rb_head rb") (auto simp: mod_if split: if_splits)
    moreover have "rb_list rb = rb_data rb ! rb_head rb # ring_list (rb_data rb)
        (Suc (rb_head rb) mod length (rb_data rb)) n"
      using ring_list_Cons [of "rb_head rb" "rb_data rb" n] assms Suc
      by (simp add: rb_list_def rb_wf_def)
    ultimately show ?thesis
      using ne assms by (simp add: RB_Pop_def rb_list_def rb_wf_def)
  qed
  then show "rb_list (snd (RB_Pop rb)) = tl (rb_list rb)"
    "fst (RB_Pop rb) = (case rb_list rb of [] \<Rightarrow> None | v # vs \<Rightarrow> Some v)" by blast+
qed

interpretation rb: bounded_fifo rb_wf rb_list 15 "\<lambda>v rb. Inr (RB_Push v rb)" RB_Pop
proof
  show "length (rb_list q) \<le> 15" for q using rb_len_le by simp
  show "\<exists>q'. Inr (RB_Push x q) = Inr q' \<and> rb_wf q' \<and> rb_list q' = rb_list q @ [x]"
    if "rb_wf q" "length (rb_list q) < 15" for q x
    using that RB_Push_list by simp
  show "RB_Pop q = (None, q)" if "rb_wf q" "rb_list q = []" for q
    using that rb_empty [of q] by (metis RB_Pop_def length_rb_list list.size(3))
  show "\<exists>q'. RB_Pop q = (Some x, q') \<and> rb_wf q' \<and> rb_list q' = xs"
    if "rb_wf q" "rb_list q = x # xs" for q x xs
    using RB_Pop_list [OF that(1)] that(2) by (cases "RB_Pop q") simp
qed

lemma drain_buffer_all:
  "rb_wf rb \<Longrightarrow> rb_list rb = vs \<Longrightarrow>
   \<exists>rb'. drain_buffer rb = Some (vs, rb') \<and> rb_wf rb' \<and> rb_list rb' = []"
proof (induction vs arbitrary: rb)
  case Nil
  then show ?case by (simp add: drain_buffer.simps rb.pop_Nil)
next
  case (Cons v vs)
  from rb.pop_Cons [OF Cons.prems] obtain rb1 where
    r: "RB_Pop rb = (Some v, rb1)" "rb_wf rb1" "rb_list rb1 = vs" by blast
  from Cons.IH [OF r(2,3)] r(1) show ?case by (subst drain_buffer.simps) auto
qed

end
