(* ===== verification/IK_Dpc.thy ===== *)
theory IK_Dpc
  imports IK_Buffers
begin

text \<open>
  The linked DPC list of \<^verbatim>\<open>BLUE_KERNEL/IRQ_KernelDeal.c\<close> seen as a sequence of work items:
  \<open>QueueDpc\<close> appends at the tail through the heap, \<open>ProcessDpcQueue\<close> runs the items in order,
  frees every node, and gives the level back.
\<close>

section \<open>The list in the heap\<close>

type_synonym dpc_item = "fDpcHandler \<times> nat option"

fun dpc_path :: "DPC option list \<Rightarrow> nat option \<Rightarrow> nat list \<Rightarrow> dpc_item list \<Rightarrow> bool" where
  "dpc_path h p [] [] = (p = None)"
| "dpc_path h p (n # ns) (i # is) =
     (p = Some n \<and> n < length h \<and> (case h ! n of None \<Rightarrow> False
        | Some d \<Rightarrow> i = (dpc_func d, dpc_ctx d) \<and> dpc_path h (dpc_next d) ns is))"
| "dpc_path h p _ _ = False"

definition dpc_holds :: "nat \<Rightarrow> irqsys \<Rightarrow> nat list \<Rightarrow> dpc_item list \<Rightarrow> bool" where
  "dpc_holds x s ns is \<longleftrightarrow> x < length (h_ctx s) \<and> distinct ns
     \<and> dpc_path (h_dpc s) (x_dpc_head (h_ctx s ! x)) ns is
     \<and> x_dpc_tail (h_ctx s ! x) = (if ns = [] then None else Some (last ns))"

definition dpc_items :: "nat \<Rightarrow> irqsys \<Rightarrow> dpc_item list \<Rightarrow> bool" where
  "dpc_items x s is \<longleftrightarrow> (\<exists>ns. dpc_holds x s ns is)"

lemma dpc_path_nodes: "dpc_path h p ns is \<Longrightarrow> set ns \<subseteq> {..<length h} \<and> length is = length ns"
  by (induction h p ns "is" rule: dpc_path.induct) (auto split: option.splits)

lemma dpc_path_frame:
  "(\<And>n. n \<in> set ns \<Longrightarrow> n < length h \<and> h ! n = h' ! n) \<Longrightarrow> length h \<le> length h' \<Longrightarrow>
   dpc_path h p ns is \<Longrightarrow> dpc_path h' p ns is"
  by (induction h p ns "is" rule: dpc_path.induct)
    (auto split: option.splits intro: less_le_trans)

text \<open>Linking a fresh node behind the last one.\<close>

lemma dpc_path_link:
  assumes "dpc_path h p ns is" "distinct ns" "ns \<noteq> []"
    and "k = length h" "d = \<lparr>dpc_func = f, dpc_ctx = c, dpc_next = None\<rparr>"
    and "h ! last ns = Some l"
  shows "dpc_path ((h @ [Some d])[last ns := Some (l\<lparr>dpc_next := Some k\<rparr>)]) p (ns @ [k]) (is @ [(f, c)])"
  using assms
proof (induction h p ns "is" rule: dpc_path.induct)
  case (2 h p n ns i "is")
  let ?h' = "(h @ [Some d])[last (n # ns) := Some (l\<lparr>dpc_next := Some k\<rparr>)]"
  show ?case
  proof (cases "ns = []")
    case True
    with 2 show ?thesis by (cases "is") (auto simp: nth_list_update nth_append split: option.splits)
  next
    case False
    with 2 have "n \<noteq> last ns" by (metis distinct.simps(2) last_in_set)
    with 2 False show ?thesis by (auto simp: nth_list_update nth_append split: option.splits)
  qed
qed simp_all

lemma QueueDpc_irq_appends:
  assumes holds: "dpc_holds x s ns is" and ok: "alloc_ok s (allocs s)"
  shows "\<exists>s'. QueueDpc_irq x f data s = Inr s' \<and> dpc_holds x s' (ns @ [length (h_dpc s)]) (is @ [(f, data)])
    \<and> h_dev s' = h_dev s \<and> h_cpu s' = h_cpu s \<and> out s' = out s
    \<and> x_irql (h_ctx s' ! x) = x_irql (h_ctx s ! x)"
proof (cases "ns = []")
  case True
  with holds have "is = []" by (cases "is") (simp_all add: dpc_holds_def)
  with True holds ok show ?thesis
    by (auto simp: QueueDpc_irq_def Let_def alloc_def dpc_holds_def get_ctx_def upd_ctx_def)
next
  case False
  let ?l = "last ns"
  from holds False obtain n ns' where ns: "ns = n # ns'" by (cases ns) auto
  have "dpc_path h p ns is \<Longrightarrow> ns \<noteq> [] \<Longrightarrow> \<exists>l. h ! last ns = Some l" for h p
    by (induction h p ns "is" rule: dpc_path.induct) (auto split: option.splits if_splits)
  with holds False obtain l where l: "h_dpc s ! ?l = Some l" by (auto simp: dpc_holds_def)
  have lt: "?l < length (h_dpc s)"
    using holds dpc_path_nodes [of "h_dpc s" _ ns "is"] last_in_set [OF False]
    by (auto simp: dpc_holds_def)
  have "distinct (ns @ [length (h_dpc s)])"
    using holds dpc_path_nodes [of "h_dpc s" _ ns "is"] by (auto simp: dpc_holds_def)
  moreover note dpc_path_link [OF _ _ False refl refl l, of _ "is" f data]
  ultimately show ?thesis
    using holds False ok l lt
    by (auto simp: QueueDpc_irq_def Let_def alloc_def dpc_holds_def get_ctx_def upd_ctx_def
        get_dpc_def nth_append)
qed

lemma QueueDpc_irq_no_memory:
  "\<not> alloc_ok s (allocs s) \<Longrightarrow> QueueDpc_irq x f data s = Inr (s\<lparr>allocs := allocs s + 1\<rparr>)"
  by (simp add: QueueDpc_irq_def alloc_def)

section \<open>Running the list\<close>

definition devices_wf :: "irqsys \<Rightarrow> bool" where
  "devices_wf s \<longleftrightarrow> (\<forall>d < length (h_dev s). rb_wf (d_buffer (h_dev s ! d)))"

definition items_ok :: "irqsys \<Rightarrow> dpc_item list \<Rightarrow> bool" where
  "items_ok s is \<longleftrightarrow> (\<forall>(f, p) \<in> set is. \<exists>d. p = Some d \<and> d < length (h_dev s))"

definition buffered :: "irqsys \<Rightarrow> nat \<Rightarrow> int list" where
  "buffered s d = rb_list (d_buffer (h_dev s ! d))"

text \<open>What the items print, and what they leave in the buffers.\<close>

fun dpc_output :: "dpc_item list \<Rightarrow> (nat \<Rightarrow> int list) \<Rightarrow> (fDpcHandler \<times> int) list" where
  "dpc_output [] bufs = []"
| "dpc_output ((f, p) # is) bufs =
     map (Pair f) (bufs (the p)) @ dpc_output is (bufs(the p := []))"

lemma run_dpc_irq_spec:
  assumes "d < length (h_dev s)" "devices_wf s"
  obtains rb where "run_dpc_irq f (Some d) s = Some (Inr
      ((upd_dev d (\<lambda>dv. dv\<lparr>d_buffer := rb\<rparr>) s)\<lparr>out := out s @ map (Pair f) (buffered s d)\<rparr>))"
    "rb_wf rb" "rb_list rb = []"
proof -
  have "rb_wf (d_buffer (h_dev s ! d))" using assms by (simp add: devices_wf_def)
  from drain_buffer_all [OF this refl] obtain rb where
    "drain_buffer (d_buffer (h_dev s ! d)) = Some (buffered s d, rb)" "rb_wf rb" "rb_list rb = []"
    by (auto simp: buffered_def)
  with assms(1) that show thesis
    by (cases f) (simp_all add: KeyboardDpc_def MicrophoneDpc_def MouseDpc_def process_buffer_def get_dev_def)
qed

text \<open>One turn takes the first item, runs it and frees its node.\<close>

lemma dpc_turn_spec:
  assumes holds: "dpc_holds x s (n # ns) ((f, Some d) # is)" and dev: "devices_wf s"
    and d: "d < length (h_dev s)"
  obtains s' where "dpc_turn x n s = Some (Inr s')" "dpc_holds x s' ns is" "devices_wf s'"
    "length (h_dev s') = length (h_dev s)"
    "out s' = out s @ map (Pair f) (buffered s d)"
    "\<And>e. buffered s' e = (if e = d then [] else buffered s e)"
    "x_irql (h_ctx s' ! x) = x_irql (h_ctx s ! x)" "h_cpu s' = h_cpu s"
    "h_dpc s' = (h_dpc s)[n := None]"
proof -
  from holds obtain dn where dn: "n < length (h_dpc s)" "h_dpc s ! n = Some dn" "dpc_func dn = f"
      "dpc_ctx dn = Some d" "dpc_path (h_dpc s) (dpc_next dn) ns is"
    by (auto simp: dpc_holds_def split: option.splits)
  define s2 where "s2 = (let s1 = upd_ctx x (\<lambda>c. c\<lparr>x_dpc_head := dpc_next dn\<rparr>) s
    in if dpc_next dn = None then upd_ctx x (\<lambda>c. c\<lparr>x_dpc_tail := None\<rparr>) s1 else s1)"
  have x: "x < length (h_ctx s)" using holds by (simp add: dpc_holds_def)
  have s2: "h_dev s2 = h_dev s" "h_dpc s2 = h_dpc s" "out s2 = out s" "h_cpu s2 = h_cpu s"
      "length (h_ctx s2) = length (h_ctx s)"
      "h_ctx s2 ! x = (h_ctx s ! x)\<lparr>x_dpc_head := dpc_next dn,
         x_dpc_tail := if dpc_next dn = None then None else x_dpc_tail (h_ctx s ! x)\<rparr>"
    using x by (auto simp: s2_def Let_def upd_ctx_def)
  have dev2: "devices_wf s2" "d < length (h_dev s2)" using dev d s2 by (simp_all add: devices_wf_def)
  from run_dpc_irq_spec [OF dev2(2,1), of f] obtain rb where
    rb: "run_dpc_irq f (Some d) s2 = Some (Inr
      ((upd_dev d (\<lambda>dv. dv\<lparr>d_buffer := rb\<rparr>) s2)\<lparr>out := out s2 @ map (Pair f) (buffered s2 d)\<rparr>))"
    "rb_wf rb" "rb_list rb = []" by blast
  define s3 where "s3 = (upd_dev d (\<lambda>dv. dv\<lparr>d_buffer := rb\<rparr>) s2)
    \<lparr>out := out s2 @ map (Pair f) (buffered s2 d)\<rparr>"
  let ?s' = "s3\<lparr>h_dpc := (h_dpc s3)[n := None]\<rparr>"
  have s3: "h_dpc s3 = h_dpc s" "h_ctx s3 = h_ctx s2" "h_cpu s3 = h_cpu s"
      "out s3 = out s @ map (Pair f) (buffered s d)"
      "h_dev s3 = (h_dev s)[d := (h_dev s ! d)\<lparr>d_buffer := rb\<rparr>]"
    by (simp_all add: s3_def upd_dev_def s2 buffered_def)
  have run: "run_dpc_irq f (Some d) s2 = Some (Inr s3)" using rb(1) by (simp add: s3_def)
  show thesis
  proof (rule that)
    show "dpc_turn x n s = Some (Inr ?s')"
      using dn(1-4) run unfolding dpc_turn_def get_dpc_def s2_def
      by (cases "dpc_next dn") (simp_all add: Let_def)
    have next_None: "dpc_next dn = None \<longleftrightarrow> ns = []"
      using dn(5) by (cases ns; cases "is") auto
    have "dpc_path ((h_dpc s)[n := None]) (dpc_next dn) ns is"
      using dn(1,5) holds dpc_path_nodes [OF dn(5)]
      by (intro dpc_path_frame [OF _ _ dn(5)]) (auto simp: dpc_holds_def nth_list_update)
    then show "dpc_holds x ?s' ns is"
      using holds x s2(5,6) s3 next_None by (auto simp: dpc_holds_def)
    have "rb_wf (d_buffer (h_dev s3 ! e))" if "e < length (h_dev s)" for e
      using dev rb(2) that d unfolding s3(5) by (cases "e = d") (simp_all add: devices_wf_def)
    then show "devices_wf ?s'" by (simp add: devices_wf_def s3(5))
    show "buffered ?s' e = (if e = d then [] else buffered s e)" for e
      using rb(3) s3(5) d by (simp add: buffered_def)
  qed (use s3 s2 in simp_all)
qed

lemma dpc_loop_spec:
  "dpc_holds x s ns is \<Longrightarrow> devices_wf s \<Longrightarrow> items_ok s is \<Longrightarrow>
   \<exists>s'. dpc_loop x s = Some (Inr s') \<and> dpc_holds x s' [] [] \<and> devices_wf s'
     \<and> length (h_dev s') = length (h_dev s)
     \<and> out s' = out s @ dpc_output is (buffered s)
     \<and> (\<forall>d. buffered s' d = (if Some d \<in> snd ` set is then [] else buffered s d))
     \<and> x_irql (h_ctx s' ! x) = x_irql (h_ctx s ! x)
     \<and> h_cpu s' = h_cpu s
     \<and> (\<forall>m. m \<notin> set ns \<longrightarrow> h_dpc s' ! m = h_dpc s ! m) \<and> (\<forall>m \<in> set ns. h_dpc s' ! m = None)"
proof (induction "is" arbitrary: s ns)
  case Nil
  then have "ns = []" by (cases ns) (simp_all add: dpc_holds_def)
  with Nil show ?case by (subst dpc_loop.simps) (simp add: dpc_holds_def get_ctx_def)
next
  case (Cons i "is")
  obtain f p where i: "i = (f, p)" by (cases i)
  with Cons.prems(3) obtain d where p: "p = Some d" and d: "d < length (h_dev s)"
    by (auto simp: items_ok_def)
  from Cons.prems(1) obtain n ns' where ns: "ns = n # ns'" by (cases ns) (simp_all add: dpc_holds_def)
  note prems = Cons.prems [unfolded i p ns]
  from dpc_turn_spec [OF prems(1,2) d] obtain s1 where
    s1: "dpc_turn x n s = Some (Inr s1)" "dpc_holds x s1 ns' is" "devices_wf s1"
    "length (h_dev s1) = length (h_dev s)"
    "out s1 = out s @ map (Pair f) (buffered s d)"
    "\<And>e. buffered s1 e = (if e = d then [] else buffered s e)"
    "x_irql (h_ctx s1 ! x) = x_irql (h_ctx s ! x)" "h_cpu s1 = h_cpu s"
    "h_dpc s1 = (h_dpc s)[n := None]" by blast
  have "items_ok s1 is" using Cons.prems(3) s1(4) by (simp add: items_ok_def)
  from Cons.IH [OF s1(2,3) this] obtain s' where
    s': "dpc_loop x s1 = Some (Inr s')" "dpc_holds x s' [] []" "devices_wf s'"
      "length (h_dev s') = length (h_dev s1)" "out s' = out s1 @ dpc_output is (buffered s1)"
      "\<And>e. buffered s' e = (if Some e \<in> snd ` set is then [] else buffered s1 e)"
      "x_irql (h_ctx s' ! x) = x_irql (h_ctx s1 ! x)" "h_cpu s' = h_cpu s1"
      "\<And>m. m \<notin> set ns' \<Longrightarrow> h_dpc s' ! m = h_dpc s1 ! m" "\<And>m. m \<in> set ns' \<Longrightarrow> h_dpc s' ! m = None"
    by blast
  have head: "x < length (h_ctx s)" "x_dpc_head (h_ctx s ! x) = Some n" "n \<notin> set ns'" "n < length (h_dpc s)"
    using prems(1) by (auto simp: dpc_holds_def)
  then have "dpc_loop x s = Some (Inr s')"
    using s1(1) s'(1) by (subst dpc_loop.simps) (simp add: get_ctx_def)
  moreover have "buffered s1 = (buffered s)(d := [])" using s1(6) by auto
  then have "out s' = out s @ dpc_output (i # is) (buffered s)"
    using s'(5) s1(5) by (simp add: i p)
  moreover have "buffered s' e = (if Some e \<in> snd ` set (i # is) then [] else buffered s e)" for e
    using s'(6) s1(6) by (auto simp: i p)
  moreover have "h_dpc s' ! m = (if m \<in> set ns then None else h_dpc s ! m)" for m
    using s'(9,10) s1(9) head(3,4) by (cases "m = n") (auto simp: ns)
  ultimately show ?case
    using s' s1 by simp
qed

lemma ProcessDpcQueue_spec:
  assumes holds: "dpc_holds x s ns is" and dev: "devices_wf s" and ok: "items_ok s is"
  shows "\<exists>s'. ProcessDpcQueue x s = Some (Inr s') \<and> dpc_items x s' [] \<and> devices_wf s'
     \<and> out s' = out s @ dpc_output is (buffered s)
     \<and> (\<forall>d. buffered s' d = (if Some d \<in> snd ` set is then [] else buffered s d))
     \<and> x_irql (h_ctx s' ! x) = x_irql (h_ctx s ! x)
     \<and> (\<forall>n \<in> set ns. h_dpc s' ! n = None)"
proof (cases "x_dpc_head (h_ctx s ! x)")
  case None
  with holds have e: "ns = []" "is = []" by (cases ns; cases "is"; simp add: dpc_holds_def)+
  with None holds have "ProcessDpcQueue x s = Some (Inr s)"
    by (simp add: ProcessDpcQueue_def get_ctx_def dpc_holds_def)
  moreover have "dpc_items x s []" using holds e by (auto simp: dpc_items_def)
  ultimately show ?thesis using e dev by simp
next
  case (Some n)
  define s1 where "s1 = (if DISPATCH_LVL > x_irql (h_ctx s ! x)
      then upd_ctx x (\<lambda>c. c\<lparr>x_irql := DISPATCH_LVL\<rparr>) s else s)"
  have x: "x < length (h_ctx s)" using holds by (simp add: dpc_holds_def)
  have raise: "RaiseIrql x DISPATCH_LVL s = Inr (x_irql (h_ctx s ! x), s1)"
    using x by (simp add: RaiseIrql_def get_ctx_def s1_def)
  have "dpc_holds x s1 ns is" "devices_wf s1" "items_ok s1 is" "buffered s1 = buffered s" "out s1 = out s"
    using holds dev ok x
    by (auto simp: s1_def upd_ctx_def dpc_holds_def devices_wf_def items_ok_def buffered_def fun_eq_iff)
  from dpc_loop_spec [OF this(1-3)] this(4,5) obtain s2 where
    s2: "dpc_loop x s1 = Some (Inr s2)" "dpc_holds x s2 [] []" "devices_wf s2"
      "out s2 = out s @ dpc_output is (buffered s)"
      "\<And>d. buffered s2 d = (if Some d \<in> snd ` set is then [] else buffered s d)"
      "\<And>m. m \<in> set ns \<Longrightarrow> h_dpc s2 ! m = None" by auto
  let ?s' = "upd_ctx x (\<lambda>c. c\<lparr>x_irql := x_irql (h_ctx s ! x)\<rparr>) s2"
  have x2: "x < length (h_ctx s2)" using s2(2) by (simp add: dpc_holds_def)
  have "ProcessDpcQueue x s = Some (Inr ?s')"
    using Some x x2 raise s2(1) by (simp add: ProcessDpcQueue_def get_ctx_def LowerIrql_def)
  moreover have "dpc_items x ?s' []"
    using s2(2) x2 by (auto simp: dpc_items_def dpc_holds_def upd_ctx_def)
  ultimately show ?thesis
    using s2 x2 by (simp add: upd_ctx_def devices_wf_def buffered_def)
qed

end
