(* ===== verification/IK_Vectors.thy ===== *)
theory IK_Vectors
  imports IK_Dpc
begin

text \<open>
  Raising and serving interrupts in \<^verbatim>\<open>BLUE_KERNEL/IRQ_KernelDeal.c\<close>: a configured device sets
  the bit of its vector in the LAPIC of its CPU, a CPU serves its pending vectors once each in
  ascending order, and a served interrupt gives the level back and leaves no vector in service.
\<close>

section \<open>What service routines leave alone\<close>

definition irq_frame :: "irqsys \<Rightarrow> CPU list \<times> DEVICE list \<times> 64 word list \<times> fHandler option list
    \<times> ISR_NODE list list \<times> IRQL_irq list \<times> nat list \<times> (fDpcHandler \<times> int) list" where
  "irq_frame s = (h_cpu s, h_dev s, g_vector_priority_Table s, g_idt s, g_isr_table s,
     map x_irql (h_ctx s), map x_cpu (h_ctx s), out s)"

lemma irq_frame_dpc_pointers:
  "irq_frame (upd_ctx x (\<lambda>c. c\<lparr>x_dpc_head := p\<rparr>) s) = irq_frame s"
  "irq_frame (upd_ctx x (\<lambda>c. c\<lparr>x_dpc_tail := p\<rparr>) s) = irq_frame s"
  "irq_frame (s\<lparr>h_dpc := h\<rparr>) = irq_frame s" "irq_frame (s\<lparr>allocs := a\<rparr>) = irq_frame s"
  "irq_frame (s\<lparr>g_system_ticks := t\<rparr>) = irq_frame s"
  by (simp_all add: irq_frame_def upd_ctx_def map_update_same)

lemma QueueDpc_irq_frame: "QueueDpc_irq x f d s = Inr s' \<Longrightarrow> irq_frame s' = irq_frame s"
  by (auto simp: QueueDpc_irq_def Let_def alloc_def res_simps irq_frame_dpc_pointers
      split: if_splits option.splits)

lemma run_isr_irq_frame: "run_isr_irq h x d s = Inr (b, s') \<Longrightarrow> irq_frame s' = irq_frame s"
  by (cases h) (auto simp: TimerIsr_irq_def KeyboardIsr_def MouseIsr_def MicrophoneIsr_def res_simps
      irq_frame_dpc_pointers dest: QueueDpc_irq_frame)

lemma isr_chain_frame: "isr_chain ns x s = Inr s' \<Longrightarrow> irq_frame s' = irq_frame s"
  by (induction ns arbitrary: s) (auto simp: res_simps dest!: run_isr_irq_frame split: if_splits)

lemma run_handler_frame: "run_handler h x s = Inr (r, s') \<Longrightarrow> irq_frame s' = irq_frame s"
  by (cases h) (auto simp: CommonInterruptEntry_def res_simps dest: isr_chain_frame split: if_splits)

section \<open>Dispatching\<close>

lemma DispatchInterrupt_frame:
  assumes "DispatchInterrupt x v s = Inr s'"
  obtains l where "x < length (h_ctx s)" "c_lapic (h_cpu s ! x_cpu (h_ctx s ! x)) = Some l"
    "x_cpu (h_ctx s ! x) < length (h_cpu s)"
    "irq_frame s' = irq_frame (upd_lapic (x_cpu (h_ctx s ! x)) (\<lambda>l. l\<lparr>in_service_vector := -1\<rparr>) s)"
    "length (h_ctx s') = length (h_ctx s)"
proof -
  let ?old = "x_irql (h_ctx s ! x)" and ?c = "x_cpu (h_ctx s ! x)"
  from assms have x: "x < length (h_ctx s)"
    by (auto simp: DispatchInterrupt_def RaiseIrql_def bnd_eq_Inr get_ctx_def aread_def split: if_splits)
  define s1 where "s1 = (if DEVICE_LVL > ?old then upd_ctx x (\<lambda>c. c\<lparr>x_irql := DEVICE_LVL\<rparr>) s else s)"
  have s1: "RaiseIrql x DEVICE_LVL s = Inr (?old, s1)" "x_cpu (h_ctx s1 ! x) = ?c" "h_cpu s1 = h_cpu s"
      "x < length (h_ctx s1)" "length (h_ctx s1) = length (h_ctx s)"
    using x by (simp_all add: RaiseIrql_def get_ctx_def s1_def upd_ctx_def)
  define s2 where "s2 = upd_lapic (x_cpu (h_ctx s1 ! x)) (\<lambda>l. l\<lparr>in_service_vector := v\<rparr>) s1"
  let ?c1 = "x_cpu (h_ctx s1 ! x)"
  have "bnd (get_lapic ?c1 s1) (\<lambda>_. if v < 0 then Inl (Undefined ''array index'')
        else bnd (aread (g_idt s2) (nat v)) (\<lambda>handler.
        bnd (case handler of None \<Rightarrow> Inr s2
             | Some h \<Rightarrow> bnd (run_handler h x s2) (\<lambda>(_, s). Inr s)) (\<lambda>s.
        bnd (LapicSendEoi ?c1 s) (LowerIrql x ?old)))) = Inr s'"
    using assms s1(1,4) unfolding DispatchInterrupt_def Let_def s2_def by (simp add: get_ctx_def)
  then obtain l handler s3 where l: "get_lapic ?c s1 = Inr l"
    and h: "(case handler of None \<Rightarrow> Inr s2
             | Some h \<Rightarrow> bnd (run_handler h x s2) (\<lambda>(_, s). Inr s)) = Inr s3"
    and rest: "bnd (LapicSendEoi ?c s3) (LowerIrql x ?old) = Inr s'"
    unfolding s1(2) by (elim bnd_InrE) (auto elim!: bnd_InrE split: if_splits)
  have s3: "irq_frame s3 = irq_frame s2"
    using h by (auto simp: bnd_eq_Inr dest: run_handler_frame split: option.splits)
  have l: "?c < length (h_cpu s)" "c_lapic (h_cpu s ! ?c) = Some l"
    using l s1(3) by (simp_all add: get_IK_eq_Inr)
  have s2: "h_cpu s2 = (h_cpu s)[?c := (h_cpu s ! ?c)\<lparr>c_lapic := Some (l\<lparr>in_service_vector := v\<rparr>)\<rparr>]"
    using l s1(2,3) by (simp add: s2_def upd_lapic_def upd_cpu_def)
  have same: "(map x_irql (h_ctx s))[x := ?old] = map x_irql (h_ctx s)"
    using x by (metis list_update_id nth_map)
  have c2: "h_ctx s2 = h_ctx s1" by (simp add: s2_def upd_lapic_def upd_cpu_def)
  have "map x_irql (h_ctx s3) = map x_irql (h_ctx s1)" "map x_cpu (h_ctx s3) = map x_cpu (h_ctx s)"
    using s3 c2 x by (simp_all add: irq_frame_def s1_def upd_ctx_def map_update_same)
  then have irqls: "map x_irql ((h_ctx s3)[x := (h_ctx s3 ! x)\<lparr>x_irql := ?old\<rparr>]) = map x_irql (h_ctx s)"
    and cpus: "map x_cpu (h_ctx s3) = map x_cpu (h_ctx s)" and len3: "length (h_ctx s3) = length (h_ctx s)"
    using x same by (auto simp: map_update s1_def upd_ctx_def dest: map_eq_imp_length_eq)
  from rest have s': "s' = upd_ctx x (\<lambda>c. c\<lparr>x_irql := ?old\<rparr>) (upd_lapic ?c (\<lambda>l. l\<lparr>in_service_vector := -1\<rparr>) s3)"
    by (auto simp: LapicSendEoi_def LowerIrql_def bnd_eq_Inr)
  have "irq_frame s' = irq_frame (upd_lapic ?c (\<lambda>l. l\<lparr>in_service_vector := -1\<rparr>) s)"
    using s3 l irqls cpus s2
    by (simp add: irq_frame_def s' upd_ctx_def upd_lapic_def upd_cpu_def map_update_same s2_def s1_def)
  then show thesis
    using that [OF x l(2,1)] len3 by (simp add: s' upd_ctx_def upd_lapic_def upd_cpu_def)
qed

section \<open>Serving the pending vectors\<close>

definition pending_list :: "64 word \<Rightarrow> nat list" where
  "pending_list b = filter (bit b) [0..<64]"

definition accept_vector :: "nat \<Rightarrow> nat \<Rightarrow> irqsys \<Rightarrow> irqsys" where
  "accept_vector c v = upd_lapic c (\<lambda>l. l\<lparr>
     pending_vectors := pending_vectors l AND NOT (push_bit v 1), in_service_vector := int v\<rparr>)"

lemma pending_list_empty: "pending_list b = [] \<longleftrightarrow> b = 0"
proof
  assume "pending_list b = []"
  then show "b = 0" by (intro bit_word_eqI) (auto simp: pending_list_def filter_empty_conv)
qed (simp add: pending_list_def)

lemma pending_list_clear:
  assumes "pending_list b = v # vs"
  shows "lowest_bit b = v" "pending_list (b AND NOT (push_bit v 1)) = vs" "v < 64"
proof -
  show "lowest_bit b = v" using assms by (simp add: lowest_bit_def pending_list_def)
  have "v \<in> set (pending_list b)" using assms by simp
  then show v: "v < 64" by (simp add: pending_list_def)
  have "filter (\<lambda>i. i \<noteq> v) (pending_list b) = pending_list (b AND NOT (push_bit v 1))"
    unfolding pending_list_def filter_filter
    by (rule filter_cong) (auto simp: bit_and_iff bit_not_iff bit_exp_iff)
  moreover have "distinct (v # vs)" using assms distinct_filter [of "[0..<64]" "bit b"]
    by (simp add: pending_list_def)
  then have "filter (\<lambda>i. i \<noteq> v) (v # vs) = vs" by (auto intro!: filter_True)
  ultimately show "pending_list (b AND NOT (push_bit v 1)) = vs" using assms by simp
qed

lemma FindLowestSetBit_ok:
  assumes "vector_table_ok s" "x \<noteq> 0"
  shows "FindLowestSetBit x s = (int (lowest_bit x), s)"
proof -
  have "g_vector_priority_Table s ! vector_slot 0 = word_of_nat 0"
    "g_vector_priority_Table s ! vector_slot (Suc 0) = word_of_nat (Suc 0)"
    using assms(1) by (simp_all only: vector_table_ok_def)
  then have "snd (FindLowestSetBit x s) = s"
    by (simp add: FindLowestSetBit_def vector_slot_01 Let_def)
  moreover obtain s' where "FindLowestSetBit x s = (int (lowest_bit x), s')"
    using FindLowestSetBit_eq [OF disjI1 [OF assms(1)] assms(2)] by blast
  ultimately show ?thesis by simp
qed

lemma vector_loop_serves:
  "pending_list (pending_vectors l) = vs \<Longrightarrow> vector_table_ok s \<Longrightarrow> x < length (h_ctx s) \<Longrightarrow>
   x_cpu (h_ctx s ! x) = c \<Longrightarrow> c < length (h_cpu s) \<Longrightarrow> c_lapic (h_cpu s ! c) = Some l \<Longrightarrow>
   vector_loop x c s = Some (run_seq (\<lambda>v s. DispatchInterrupt x (int v) (accept_vector c v s)) vs s)"
proof (induction vs arbitrary: s l)
  case Nil
  then have "LapicGetNextVector c s = Inr (-1, s)"
    by (simp add: LapicGetNextVector_def get_cpu_def pending_list_empty)
  then show ?case by (simp add: vector_loop.simps)
next
  case (Cons v vs)
  let ?s1 = "accept_vector c v s"
  let ?l = "l\<lparr>pending_vectors := pending_vectors l AND NOT (push_bit v 1), in_service_vector := int v\<rparr>"
  note clear = pending_list_clear [OF Cons.prems(1)]
  have nz: "pending_vectors l \<noteq> 0"
    using Cons.prems(1) pending_list_empty [of "pending_vectors l"] by auto
  then have get: "LapicGetNextVector c s = Inr (int v, ?s1)"
    using Cons.prems(5,6) clear FindLowestSetBit_ok [OF Cons.prems(2) nz]
    by (simp add: LapicGetNextVector_def get_cpu_def accept_vector_def)
  have s1: "h_ctx ?s1 = h_ctx s" "h_cpu ?s1 = (h_cpu s)[c := (h_cpu s ! c)\<lparr>c_lapic := Some ?l\<rparr>]"
      "g_vector_priority_Table ?s1 = g_vector_priority_Table s"
    using Cons.prems(6) by (simp_all add: accept_vector_def upd_lapic_def upd_cpu_def)
  show ?case
  proof (cases "DispatchInterrupt x (int v) ?s1")
    case (Inl e)
    with get show ?thesis by (subst vector_loop.simps) simp
  next
    case (Inr s')
    let ?l' = "?l\<lparr>in_service_vector := -1\<rparr>"
    obtain "irq_frame s' = irq_frame (upd_lapic c (\<lambda>l. l\<lparr>in_service_vector := -1\<rparr>) ?s1)"
        "length (h_ctx s') = length (h_ctx s)"
      using DispatchInterrupt_frame [OF Inr] s1(1) Cons.prems(4) by metis
    then have s': "h_cpu s' = (h_cpu s)[c := (h_cpu s ! c)\<lparr>c_lapic := Some ?l'\<rparr>]"
        "g_vector_priority_Table s' = g_vector_priority_Table s" "map x_cpu (h_ctx s') = map x_cpu (h_ctx s)"
        "length (h_ctx s') = length (h_ctx s)"
      using s1 Cons.prems(5) by (simp_all add: irq_frame_def upd_lapic_def upd_cpu_def)
    have "x_cpu (h_ctx s' ! x) = c"
      using s'(3,4) Cons.prems(3,4) by (metis nth_map)
    moreover have "vector_table_ok s'" using Cons.prems(2) s'(2) by (simp add: vector_table_ok_def)
    ultimately have "vector_loop x c s' = Some (run_seq (\<lambda>v s. DispatchInterrupt x (int v) (accept_vector c v s)) vs s')"
      using Cons.IH [of ?l' s'] clear(2) Cons.prems(3,5) s'(1,4) by simp
    with get Inr show ?thesis by (subst vector_loop.simps) simp
  qed
qed

text \<open>A served interrupt restores the level of every CPU and leaves no vector in service.\<close>

lemma DispatchInterrupt_restores:
  assumes "DispatchInterrupt x v s = Inr s'"
  shows "map x_irql (h_ctx s') = map x_irql (h_ctx s)"
    "\<exists>l. c_lapic (h_cpu s' ! x_cpu (h_ctx s ! x)) = Some l \<and> in_service_vector l = -1"
    "h_dev s' = h_dev s"
proof -
  obtain l where l: "c_lapic (h_cpu s ! x_cpu (h_ctx s ! x)) = Some l" "x_cpu (h_ctx s ! x) < length (h_cpu s)"
    "irq_frame s' = irq_frame (upd_lapic (x_cpu (h_ctx s ! x)) (\<lambda>l. l\<lparr>in_service_vector := -1\<rparr>) s)"
    using DispatchInterrupt_frame [OF assms] by metis
  then show "map x_irql (h_ctx s') = map x_irql (h_ctx s)" "h_dev s' = h_dev s"
    "\<exists>l. c_lapic (h_cpu s' ! x_cpu (h_ctx s ! x)) = Some l \<and> in_service_vector l = -1"
    by (simp_all add: irq_frame_def upd_lapic_def upd_cpu_def)
qed

section \<open>Raising interrupts\<close>

definition lapic_pending :: "irqsys \<Rightarrow> nat \<Rightarrow> 64 word option" where
  "lapic_pending s c = map_option pending_vectors (c_lapic (h_cpu s ! c))"

lemma msi_address_roundtrip:
  assumes "0 \<le> i" "i < int MAX_CPU"
  shows "unat (drop_bit 12 ((LAPIC_BASE + push_bit 12 (word_of_int i)) - LAPIC_BASE) :: 32 word) = nat i"
proof -
  from assms have "i \<in> {0, 1, 2, 3}" by auto
  then show ?thesis by (auto simp: push_bit_eq_mult drop_bit_eq_div)
qed

text \<open>
  A device configured for message-signalled interrupts raises exactly the configured vector, at
  the CPU it was configured for.
\<close>

lemma configured_msi_raises:
  assumes d: "d < length (h_dev s)" "supported (d_msi_cap (h_dev s ! d)) = 1"
    and c: "c < length (h_cpu s)" "0 \<le> c_id (h_cpu s ! c)" "c_id (h_cpu s ! c) < int MAX_CPU"
    and table: "g_cpus s = map Some [0..<MAX_CPU]" "nat (c_id (h_cpu s ! c)) = c"
    and l: "c_lapic (h_cpu s ! c) = Some l" and v: "v < 64"
  obtains s1 where "ConfigureDevice (Some d) (Some c) (int v) s = Inr s1"
    "DeviceRaiseInterrupt (Some d) s1 = Inr (set_pending c v s1)"
    "h_cpu s1 = h_cpu s"
    "lapic_pending (set_pending c v s1) c = Some (pending_vectors l OR push_bit v 1)"
proof -
  let ?dv = "h_dev s ! d"
  let ?m = "\<lparr>msi_address = LAPIC_BASE + push_bit 12 (word_of_int (c_id (h_cpu s ! c))),
     msi_data = word_of_int (int v), msi_enabled = True\<rparr>"
  let ?s1 = "upd_dev d (\<lambda>dv. dv\<lparr>d_msi := ?m, d_use_msi := True, d_irq_line := -1\<rparr>) s"
  have conf: "ConfigureDevice (Some d) (Some c) (int v) s = Inr ?s1"
    using d c by (simp add: ConfigureDevice_def get_cpu_def get_dev_def)
  have c4: "c < MAX_CPU" using c(3) table(2) by simp
  have "signed_take_bit 31 (int v) = int v"
    using v by (intro signed_take_bit_int_eq_self) simp_all
  then have sv: "sint (word_of_int (int v) :: 32 word) = int v"
    by (simp add: signed_of_nat)
  note addr = msi_address_roundtrip [OF c(2,3)]
  have "DeviceRaiseInterrupt (Some d) ?s1 = Inr (set_pending c v ?s1)"
    using d c l v sv addr table c4
    by (simp add: DeviceRaiseInterrupt_def get_dev_def upd_dev_def get_lapic_def get_cpu_def)
  moreover have "lapic_pending (set_pending c v ?s1) c = Some (pending_vectors l OR push_bit v 1)"
    using c(1) l by (simp add: lapic_pending_def set_pending_def upd_lapic_def upd_cpu_def upd_dev_def)
  ultimately show thesis using conf that by (simp add: upd_dev_def)
qed

end
