(* ===== verification/IK_Props.thy ===== *)
theory IK_Props
  imports IK_Vectors
begin

text \<open>
  The properties of the interrupt simulator \<^verbatim>\<open>BLUE_KERNEL/IRQ_KernelDeal.c\<close>: the vector search, the
  device buffers, the deferred calls and the path of an interrupt from a device to a CPU. They
  are instantiated at a system of four CPUs and one device built by the code's own operations.
\<close>

section \<open>A system of four CPUs and one keyboard\<close>

definition contexts :: irqsys where
  "contexts = the_res (initial_irqsys (\<lambda>_. True)) (create_contexts MAX_CPU (initial_irqsys (\<lambda>_. True)))"

lemma contexts_eq: "\<exists>xs n a. contexts = (initial_irqsys (\<lambda>_. True))\<lparr>g_cpus := map Some [0..<MAX_CPU],
    g_context := xs, c_count := n, allocs := a,
    h_cpu := map (\<lambda>i. \<lparr>c_id = int i, c_lapic = Some \<lparr>l_id = int i, pending_vectors = 0,
      in_service_vector = -1, owner_cpu = Some i\<rparr>, c_running = False\<rparr>) [0..<MAX_CPU],
    h_ctx := map (\<lambda>i. \<lparr>x_cpu = i, x_irql = PASSIVE_LVL, x_dpc_head = None, x_dpc_tail = None\<rparr>) [0..<MAX_CPU]\<rparr>"
  by (simp add: contexts_def the_res_def numeral_eq_Suc CreateCpuContext_def CreateCPUCore_def
    CreateLAPIC_def alloc_def initial_irqsys_def get_IK_eq_Inr get_ctx_def upt_rec)

lemma contexts_facts:
  "g_vector_priority_Table contexts = replicate 64 0 \<and> g_idt contexts = replicate 256 None
   \<and> alloc_ok contexts = (\<lambda>_. True) \<and> g_cpus contexts = map Some [0..<MAX_CPU]
   \<and> length (h_cpu contexts) = MAX_CPU \<and> length (h_ctx contexts) = MAX_CPU
   \<and> h_dpc contexts = [] \<and> h_dev contexts = [] \<and> out contexts = []
   \<and> h_ctx contexts ! 0 = \<lparr>x_cpu = 0, x_irql = PASSIVE_LVL, x_dpc_head = None, x_dpc_tail = None\<rparr>
   \<and> h_cpu contexts ! 0 = \<lparr>c_id = 0, c_lapic = Some \<lparr>l_id = 0, pending_vectors = 0,
        in_service_vector = -1, owner_cpu = Some 0\<rparr>, c_running = False\<rparr>"
  using contexts_eq by (elim exE) (erule ssubst, simp add: initial_irqsys_def)

text \<open>The vector table, and the keyboard with a key code in its buffer.\<close>

definition four_cpus :: irqsys where
  "four_cpus = BuildDeBurijnTable_irq contexts"

definition key_pressed :: irqsys where
  "key_pressed = upd_dev 0 (\<lambda>d. d\<lparr>d_buffer := RB_Push 101 (d_buffer d)\<rparr>)
     (snd (CreateDevice (Some ''keyboard'') (Some msi_cap_1vec) four_cpus))"

lemma zero_buffer: "(replicate 16 (0 :: int))[0 := v] = v # replicate 15 0"
  by (simp add: numeral_eq_Suc)

lemma key_pressed_facts:
  "g_cpus key_pressed = map Some [0..<MAX_CPU]" "length (h_cpu key_pressed) = MAX_CPU"
  "length (h_ctx key_pressed) = MAX_CPU" "h_dpc key_pressed = []"
  "h_ctx key_pressed ! 0 = \<lparr>x_cpu = 0, x_irql = PASSIVE_LVL, x_dpc_head = None, x_dpc_tail = None\<rparr>"
  "h_cpu key_pressed ! 0 = \<lparr>c_id = 0, c_lapic = Some \<lparr>l_id = 0, pending_vectors = 0,
      in_service_vector = -1, owner_cpu = Some 0\<rparr>, c_running = False\<rparr>"
  "h_dev key_pressed = [\<lparr>d_name = ''keyboard'', d_msi_cap = msi_cap_1vec,
     d_msi = \<lparr>msi_address = 0, msi_data = 0, msi_enabled = False\<rparr>, d_irq_line = -1,
     d_use_msi = False, d_ext = None,
     d_buffer = \<lparr>rb_data = 101 # replicate 15 0, rb_head = 0, rb_tail = 1\<rparr>\<rparr>]"
  "alloc_ok key_pressed = (\<lambda>_. True)" "out key_pressed = []"
  using zero_buffer
  by (simp_all add: key_pressed_def four_cpus_def BuildDeBurijnTable_irq_def CreateDevice_def alloc_def
      upd_dev_def RB_Push_def RB_IsFull_def contexts_facts)

lemma key_pressed_table: "vector_table_ok key_pressed"
proof -
  have "vector_table_ok four_cpus"
    unfolding four_cpus_def by (intro BuildDeBurijnTable_irq_ok) (simp add: contexts_facts)
  then show ?thesis
    by (simp add: key_pressed_def vector_table_ok_def CreateDevice_def alloc_def upd_dev_def)
qed

lemma key_pressed_buffers: "devices_wf key_pressed" "buffered key_pressed 0 = [101]"
  by (simp_all add: devices_wf_def buffered_def key_pressed_facts rb_wf_def rb_list_def rb_len_def
      ring_list_def)

lemma key_pressed_dpc: "dpc_holds 0 key_pressed [] []"
  by (simp add: dpc_holds_def key_pressed_facts)

definition key_queued :: irqsys where
  "key_queued = the_res key_pressed (QueueDpc_irq 0 KeyboardDpc_fn (Some 0) key_pressed)"

lemma key_queued_facts:
  "dpc_holds 0 key_queued [0] [(KeyboardDpc_fn, Some 0)]" "h_dev key_queued = h_dev key_pressed"
  "out key_queued = []"
  using QueueDpc_irq_appends [OF key_pressed_dpc, of KeyboardDpc_fn "Some 0"]
  by (auto simp: key_queued_def the_res_def key_pressed_facts)

section \<open>Properties\<close>

text \<open>
  The vector search returns the number of the lowest set bit of a word that is not zero; it
  builds its table on the first call and changes nothing else.
\<close>

theorem FindLowestSetBit_result:
  assumes "vector_table_ok s \<or> length (g_vector_priority_Table s) = MAX_VECTOR_PRIORITY
      \<and> (g_vector_priority_Table s ! 0 \<noteq> 0 \<or> g_vector_priority_Table s ! 1 \<noteq> 1)"
    and "x \<noteq> 0"
  shows "\<exists>s'. FindLowestSetBit x s = (int (lowest_bit x), s') \<and> vector_table_ok s'
    \<and> s' = s\<lparr>g_vector_priority_Table := g_vector_priority_Table s'\<rparr>
    \<and> bit x (lowest_bit x) \<and> (\<forall>i < lowest_bit x. \<not> bit x i)"
  using FindLowestSetBit_eq [OF assms] lowest_bit_props [OF assms(2)] by metis

theorem FindLowestSetBit_result_witness:
  "\<exists>s'. FindLowestSetBit 40 (initial_irqsys (\<lambda>_. True)) = (3, s') \<and> vector_table_ok s'"
proof -
  have "lowest_bit 40 = 3" by code_simp
  with FindLowestSetBit_result [of "initial_irqsys (\<lambda>_. True)" 40] show ?thesis
    by (fastforce simp: initial_irqsys_def)
qed

text \<open>
  The buffer of a device refines a first-in first-out queue of at most 15 values, for any
  sequence of pushes and pops; a push into a full buffer drops the new value.
\<close>

theorem device_buffer_refines_fifo:
  assumes "rb_wf rb"
  shows "(spec_qops 15 ops (rb_list rb) = Some (outs, ys) \<longrightarrow>
      (\<exists>rb'. run_qops (\<lambda>v rb. Inr (RB_Push v rb)) RB_Pop ops rb = Inr (outs, rb')
         \<and> rb_wf rb' \<and> rb_list rb' = ys))
    \<and> (length (rb_list rb) = 15 \<longrightarrow> RB_Push v rb = rb)"
  using rb.script_refines [OF assms] rb_full [OF assms] by (auto simp: RB_Push_def)

theorem device_buffer_refines_fifo_witness:
  "\<exists>rb'. run_qops (\<lambda>v rb. Inr (RB_Push v rb)) RB_Pop [QPush 7, QPop, QPush 8, QPop, QPop]
      \<lparr>rb_data = replicate 16 0, rb_head = 15, rb_tail = 15\<rparr> = Inr ([Some 7, Some 8, None], rb')
    \<and> rb_list rb' = []"
proof -
  let ?rb = "\<lparr>rb_data = replicate 16 0, rb_head = 15, rb_tail = 15\<rparr>"
  have "rb_wf ?rb" "spec_qops 15 [QPush 7, QPop, QPush 8, QPop, QPop] (rb_list ?rb)
      = Some ([Some 7, Some 8, None], [])"
    by (simp_all add: rb_wf_def rb_list_def rb_len_def)
  with device_buffer_refines_fifo [OF this(1)] show ?thesis by blast
qed

text \<open>
  Queueing a deferred call appends it to the linked list of the CPU; when the node cannot be
  allocated the call is lost and the list stays as it was.
\<close>

theorem QueueDpc_irq_result:
  assumes "dpc_items x s is"
  shows "\<exists>s'. QueueDpc_irq x f d s = Inr s'
    \<and> dpc_items x s' (if alloc_ok s (allocs s) then is @ [(f, d)] else is) \<and> h_dev s' = h_dev s"
proof -
  obtain ns where ns: "dpc_holds x s ns is" using assms by (auto simp: dpc_items_def)
  show ?thesis
  proof (cases "alloc_ok s (allocs s)")
    case True
    from QueueDpc_irq_appends [OF ns True, of f d] True show ?thesis by (auto simp: dpc_items_def)
  next
    case False
    then show ?thesis using ns QueueDpc_irq_no_memory [of s x f d]
      by (auto simp: dpc_items_def dpc_holds_def)
  qed
qed

theorem QueueDpc_irq_result_witness:
  "\<exists>s'. QueueDpc_irq 0 MouseDpc_fn (Some 0) key_queued = Inr s'
    \<and> (dpc_items 0 s' [(KeyboardDpc_fn, Some 0), (MouseDpc_fn, Some 0)] \<or> dpc_items 0 s' [(KeyboardDpc_fn, Some 0)])"
proof -
  have "dpc_items 0 key_queued [(KeyboardDpc_fn, Some 0)]" using key_queued_facts by (auto simp: dpc_items_def)
  from QueueDpc_irq_result [OF this, of MouseDpc_fn "Some 0"] show ?thesis by (auto split: if_splits)
qed

text \<open>
  C34: Processing the deferred calls of a CPU ends, frees every node, empties the list and
  outputs, call by call in the order of queueing, what the buffer of each call's device held; the
  buffers of these devices are empty afterwards, the others untouched, and the level is restored.
\<close>

theorem ProcessDpcQueue_result:
  assumes "dpc_holds x s ns is" "devices_wf s" "items_ok s is"
  shows "\<exists>s'. ProcessDpcQueue x s = Some (Inr s') \<and> dpc_items x s' [] \<and> devices_wf s'
     \<and> out s' = out s @ dpc_output is (buffered s)
     \<and> (\<forall>d. buffered s' d = (if Some d \<in> snd ` set is then [] else buffered s d))
     \<and> x_irql (h_ctx s' ! x) = x_irql (h_ctx s ! x)
     \<and> (\<forall>n \<in> set ns. h_dpc s' ! n = None)"
  using ProcessDpcQueue_spec [OF assms] .

theorem ProcessDpcQueue_result_witness:
  "\<exists>s'. ProcessDpcQueue 0 key_queued = Some (Inr s') \<and> out s' = [(KeyboardDpc_fn, 101)] \<and> buffered s' 0 = []"
proof -
  have "devices_wf key_queued" "items_ok key_queued [(KeyboardDpc_fn, Some 0)]"
    "buffered key_queued 0 = [101]"
    using key_pressed_buffers by (simp_all add: devices_wf_def items_ok_def buffered_def key_queued_facts key_pressed_facts)
  with ProcessDpcQueue_result [OF key_queued_facts(1) this(1,2)] show ?thesis
    by (auto simp: key_queued_facts)
qed

text \<open>
  C35: One step of a CPU serves every vector pending at its LAPIC, lowest first, each accepted
  exactly once, and then processes its deferred calls.
\<close>

theorem CpuStep_serves_pending:
  assumes "vector_table_ok s" "x < length (h_ctx s)" "x_cpu (h_ctx s ! x) = c" "c < length (h_cpu s)"
    and "c_lapic (h_cpu s ! c) = Some l"
  shows "CpuStep (Some x) s = obnd (Some (run_seq (\<lambda>v s. DispatchInterrupt x (int v) (accept_vector c v s))
      (pending_list (pending_vectors l)) s)) (ProcessDpcQueue x)"
  using vector_loop_serves [OF refl assms] assms by (simp add: CpuStep_def get_ctx_def get_cpu_def)

theorem CpuStep_serves_pending_witness:
  "CpuStep (Some 0) (set_pending 0 33 key_pressed)
   = obnd (Some (DispatchInterrupt 0 33 (accept_vector 0 33 (set_pending 0 33 key_pressed)))) (ProcessDpcQueue 0)"
proof -
  let ?s = "set_pending 0 33 key_pressed"
  have "vector_table_ok ?s" using key_pressed_table
    by (simp add: vector_table_ok_def set_pending_def upd_lapic_def upd_cpu_def)
  moreover have "c_lapic (h_cpu ?s ! 0) = Some \<lparr>l_id = 0, pending_vectors = push_bit 33 1,
      in_service_vector = -1, owner_cpu = Some 0\<rparr>" "length (h_cpu ?s) = 4"
    "x_cpu (h_ctx ?s ! 0) = 0" "length (h_ctx ?s) = 4"
    by (simp_all add: set_pending_def upd_lapic_def upd_cpu_def key_pressed_facts)
  moreover have "pending_list (push_bit 33 1) = [33]" by code_simp
  ultimately show ?thesis
    using CpuStep_serves_pending [of ?s 0 0] by (simp add: bnd_def split: sum.split)
qed

text \<open>
  Dispatching a vector returns with the level of every CPU as it was, the in-service vector
  cleared and the devices untouched.
\<close>

theorem DispatchInterrupt_restores_levels:
  assumes "DispatchInterrupt x v s = Inr s'"
  shows "map x_irql (h_ctx s') = map x_irql (h_ctx s)
    \<and> (\<exists>l. c_lapic (h_cpu s' ! x_cpu (h_ctx s ! x)) = Some l \<and> in_service_vector l = -1)
    \<and> h_dev s' = h_dev s"
  using DispatchInterrupt_restores [OF assms] by blast

theorem DispatchInterrupt_restores_levels_witness:
  "\<exists>s'. DispatchInterrupt 0 33 key_pressed = Inr s' \<and> map x_irql (h_ctx s') = map x_irql (h_ctx key_pressed)"
proof -
  have "g_idt key_pressed ! 33 = None" "length (g_idt key_pressed) = 256"
    by (simp_all add: key_pressed_def four_cpus_def BuildDeBurijnTable_irq_def CreateDevice_def
        alloc_def upd_dev_def contexts_facts)
  then obtain s' where "DispatchInterrupt 0 33 key_pressed = Inr s'"
    by (simp add: DispatchInterrupt_def RaiseIrql_def LowerIrql_def LapicSendEoi_def get_ctx_def get_lapic_def
        get_cpu_def upd_ctx_def upd_lapic_def upd_cpu_def key_pressed_facts Let_def)
  with DispatchInterrupt_restores_levels [OF this] show ?thesis by blast
qed

text \<open>
  A device that supports MSI and is configured for a CPU and a vector below 64 raises
  exactly that vector at exactly that CPU's LAPIC: the address written by the configuration is
  decoded back to the CPU.
\<close>

theorem configured_device_raises_vector:
  assumes "d < length (h_dev s)" "supported (d_msi_cap (h_dev s ! d)) = 1"
    and "c < length (h_cpu s)" "0 \<le> c_id (h_cpu s ! c)" "c_id (h_cpu s ! c) < int MAX_CPU"
    and "g_cpus s = map Some [0..<MAX_CPU]" "nat (c_id (h_cpu s ! c)) = c"
    and "c_lapic (h_cpu s ! c) = Some l" and "v < 64"
  shows "\<exists>s1. ConfigureDevice (Some d) (Some c) (int v) s = Inr s1
    \<and> DeviceRaiseInterrupt (Some d) s1 = Inr (set_pending c v s1) \<and> h_cpu s1 = h_cpu s
    \<and> lapic_pending (set_pending c v s1) c = Some (pending_vectors l OR push_bit v 1)"
  by (rule configured_msi_raises [OF assms]) blast

theorem configured_device_raises_vector_witness:
  "\<exists>s1. ConfigureDevice (Some 0) (Some 0) 33 key_pressed = Inr s1
    \<and> DeviceRaiseInterrupt (Some 0) s1 = Inr (set_pending 0 33 s1)"
  using configured_device_raises_vector [of 0 key_pressed 0 _ 33]
  by (force simp: key_pressed_facts msi_cap_1vec_def)

end
