(* ===== verification/ISA_State.thy ===== *)
theory ISA_State
  imports Prelude
begin

text \<open>
  Data of the two-core CPU model \<^verbatim>\<open>firmwareLearning/cpu_isa.c\<close>: instruction format, registers,
  cache lines, store buffers and the bus. Registers, addresses and data are 32-bit words, memory
  is an array of \<open>MAIN_MEMORY_SIZE\<close> bytes read and written four at a time, low byte first;
  an access that leaves the array is undefined. A register number never exceeds 15: it is
  written by \<open>Decode\<close> only, which masks it.
\<close>

definition MAIN_MEMORY_SIZE :: nat where "MAIN_MEMORY_SIZE = 1024"
definition CACHE_LINES :: nat where "CACHE_LINES = 8"
definition NUM_CORES :: nat where "NUM_CORES = 2"
definition CACHE_LINE_DATA_WORDS :: nat where "CACHE_LINE_DATA_WORDS = 2"
definition STORE_BUFFER_SIZE :: nat where "STORE_BUFFER_SIZE = 4"

lemmas ISA_limits [simp] = MAIN_MEMORY_SIZE_def CACHE_LINES_def NUM_CORES_def
  CACHE_LINE_DATA_WORDS_def STORE_BUFFER_SIZE_def

section \<open>Instructions\<close>

type_synonym INS = "32 word"

datatype MICRO_OP =
  FETCH | DECODE | LOAD_ADDR | LOAD_MEM | LOAD_WB | STORE_ADDR | STORE_MEM | LIC_WB
| ADD_EXEC | ADD_WB | SUB_EXEC | SUB_WB | CMP_EXEC
| JMP_EXEC | JEQ_EXEC | JNE_EXEC | JLT_EXEC | JGT_EXEC
| LOCK_INC_ADDR | LOCK_INC_LOAD | LOCK_INC_STORE
| CMPXCHG_ADDR | CMPXCHG_LOAD | CMPXCHG_COMPARE | CMPXCHG_STORE | CMPXCHG_FAIL
| FENCE_EXEC | HALT_EXEC

datatype OPCODE =
  LOAD | STORE | LIC | ADD | SUB | CMP | JMP | JEQ | JNE | JLT | JGT | LOCK_INC | CMPXCHG
| FENCE | HALT

fun opcode_num :: "OPCODE \<Rightarrow> nat" where
  "opcode_num LOAD = 0" | "opcode_num STORE = 1" | "opcode_num LIC = 2"
| "opcode_num ADD = 3" | "opcode_num SUB = 4" | "opcode_num CMP = 5"
| "opcode_num JMP = 6" | "opcode_num JEQ = 7" | "opcode_num JNE = 8"
| "opcode_num JLT = 9" | "opcode_num JGT = 10" | "opcode_num LOCK_INC = 11"
| "opcode_num CMPXCHG = 12" | "opcode_num FENCE = 13" | "opcode_num HALT = 14"

definition Encode :: "OPCODE \<Rightarrow> 8 word \<Rightarrow> 8 word \<Rightarrow> 8 word \<Rightarrow> 16 word \<Rightarrow> INS" where
  "Encode opc dest src mode imm =
     push_bit 24 (word_of_nat (opcode_num opc) AND 0xFF)
     OR push_bit 20 (ucast dest AND 0x0F)
     OR push_bit 16 (ucast src AND 0x0F)
     OR push_bit 14 (ucast mode AND 0x03)
     OR (ucast imm AND 0x3FFF)"

definition Decode :: "INS \<Rightarrow> 8 word \<times> 8 word \<times> 8 word \<times> 8 word \<times> 16 word" where
  "Decode instr =
     (ucast (drop_bit 24 instr AND 0xFF), ucast (drop_bit 20 instr AND 0x0F),
      ucast (drop_bit 16 instr AND 0x0F), ucast (drop_bit 14 instr AND 0x03),
      ucast (instr AND 0x3FFF))"

section \<open>Memory\<close>

type_synonym memory = "nat \<Rightarrow> 8 word"

definition mem_read :: "memory \<Rightarrow> 32 word \<Rightarrow> (32 word) res" where
  "mem_read mem a =
     (if unat a + 4 \<le> MAIN_MEMORY_SIZE
      then Inr (ucast (mem (unat a)) OR push_bit 8 (ucast (mem (unat a + 1)))
             OR push_bit 16 (ucast (mem (unat a + 2))) OR push_bit 24 (ucast (mem (unat a + 3))))
      else Inl (Undefined ''memory index''))"

definition mem_write :: "memory \<Rightarrow> 32 word \<Rightarrow> 32 word \<Rightarrow> memory res" where
  "mem_write mem a v =
     (if unat a + 4 \<le> MAIN_MEMORY_SIZE
      then Inr (mem(unat a := ucast v, unat a + 1 := ucast (drop_bit 8 v),
                    unat a + 2 := ucast (drop_bit 16 v), unat a + 3 := ucast (drop_bit 24 v)))
      else Inl (Undefined ''memory index''))"

section \<open>Cores and bus\<close>

datatype MESI_STATE = MESI_INVALID | MESI_EXCLUSIVE | MESI_SHARED | MESI_MODIFIED

record CACHE_LINE =
  cl_address :: "32 word"
  cl_data :: "32 word list"
  cl_state :: MESI_STATE
  cl_dirty :: bool

type_synonym CACHE = "CACHE_LINE list"

record STORE_BUFFER_ENTRY =
  sbe_addr :: "32 word"
  sbe_data :: "32 word"
  sbe_valid :: bool

record STORE_BUFFER =
  sb_entries :: "STORE_BUFFER_ENTRY list"
  sb_head :: nat
  sb_tail :: nat
  sb_count :: nat

record CORE =
  c_regs :: "32 word list"
  c_pc :: "32 word"
  c_halted :: bool
  c_zero_flag :: bool
  c_sign_flag :: bool
  c_cmp_result :: "32 word"
  c_core_id :: "32 word"
  c_micro_op :: MICRO_OP
  c_current_instr :: INS
  c_opc :: "8 word"
  c_dest :: "8 word"
  c_src :: "8 word"
  c_mode :: "8 word"
  c_imm :: "16 word"
  c_addr :: "32 word"
  c_temp_val :: "32 word"
  c_cache :: CACHE
  c_store_buffer :: STORE_BUFFER

record BUS =
  b_mem :: memory
  b_locked :: bool
  b_locked_owner :: "32 word"
  b_bus_rd :: bool
  b_bus_rdx :: bool
  b_snoop_addr :: "32 word"
  b_snoop_core_id :: "32 word"
  b_snoop_data :: "32 word list"
  b_snoop_hit :: bool

text \<open>\<^verbatim>\<open>CORE *all_c\<close> and \<^verbatim>\<open>BUS *bus\<close>; a \<^verbatim>\<open>CORE *c\<close> is an index into the cores.\<close>

record machine =
  m_cores :: "CORE list"
  m_bus :: BUS

definition zero_line :: CACHE_LINE where
  "zero_line = \<lparr>cl_address = 0, cl_data = [0, 0], cl_state = MESI_INVALID, cl_dirty = False\<rparr>"

definition zero_store_buffer :: STORE_BUFFER where
  "zero_store_buffer =
     \<lparr>sb_entries = replicate STORE_BUFFER_SIZE \<lparr>sbe_addr = 0, sbe_data = 0, sbe_valid = False\<rparr>,
      sb_head = 0, sb_tail = 0, sb_count = 0\<rparr>"

definition zero_core :: CORE where
  "zero_core = \<lparr>c_regs = replicate 16 0, c_pc = 0, c_halted = False, c_zero_flag = False,
     c_sign_flag = False, c_cmp_result = 0, c_core_id = 0, c_micro_op = FETCH,
     c_current_instr = 0, c_opc = 0, c_dest = 0, c_src = 0, c_mode = 0, c_imm = 0, c_addr = 0,
     c_temp_val = 0, c_cache = replicate CACHE_LINES zero_line, c_store_buffer = zero_store_buffer\<rparr>"

definition zero_bus :: BUS where
  "zero_bus = \<lparr>b_mem = (\<lambda>_. 0), b_locked = False, b_locked_owner = 0, b_bus_rd = False,
     b_bus_rdx = False, b_snoop_addr = 0, b_snoop_core_id = 0, b_snoop_data = [0, 0],
     b_snoop_hit = False\<rparr>"

definition upd_core :: "nat \<Rightarrow> (CORE \<Rightarrow> CORE) \<Rightarrow> machine \<Rightarrow> machine" where
  "upd_core i f m = m\<lparr>m_cores := (m_cores m)[i := f (m_cores m ! i)]\<rparr>"

definition upd_bus :: "(BUS \<Rightarrow> BUS) \<Rightarrow> machine \<Rightarrow> machine" where
  "upd_bus f m = m\<lparr>m_bus := f (m_bus m)\<rparr>"

definition core :: "machine \<Rightarrow> nat \<Rightarrow> CORE" where
  "core m i = m_cores m ! i"

section \<open>The one-shot handlers\<close>

text \<open>The register \<^verbatim>\<open>EXP\<close>, and the write of a register.\<close>

definition EXP :: nat where "EXP = 15"

definition set_reg :: "nat \<Rightarrow> 32 word \<Rightarrow> CORE \<Rightarrow> CORE" where
  "set_reg r v c = c\<lparr>c_regs := (c_regs c)[r := v]\<rparr>"

definition LoadFunction :: "CORE \<Rightarrow> BUS \<Rightarrow> INS \<Rightarrow> (CORE \<times> BUS) res" where
  "LoadFunction c bus instr =
     (let (opc, dest, src, mode, imm) = Decode instr
      in if mode = 0
         then bnd (mem_read (b_mem bus) (ucast imm)) (\<lambda>v. Inr (set_reg (unat dest) v c, bus))
         else let addr = c_regs c ! unat src
              in bnd (mem_read (b_mem bus) addr) (\<lambda>v. Inr (set_reg (unat dest) v c, bus)))"

definition StoreFunction :: "CORE \<Rightarrow> BUS \<Rightarrow> INS \<Rightarrow> (CORE \<times> BUS) res" where
  "StoreFunction c bus instr =
     (let (opc, val_reg, addr_reg, mode, imm) = Decode instr
      in if mode = 0
         then bnd (mem_write (b_mem bus) (ucast imm) (c_regs c ! unat val_reg))
                (\<lambda>mem. Inr (c, bus\<lparr>b_mem := mem\<rparr>))
         else let addr = c_regs c ! unat addr_reg
              in bnd (mem_write (b_mem bus) addr (c_regs c ! unat val_reg))
                   (\<lambda>mem. Inr (c, bus\<lparr>b_mem := mem\<rparr>)))"

definition LicFunction :: "CORE \<Rightarrow> BUS \<Rightarrow> INS \<Rightarrow> (CORE \<times> BUS) res" where
  "LicFunction c bus instr =
     (let (opc, dest, src, mode, imm) = Decode instr in Inr (set_reg (unat dest) (ucast imm) c, bus))"

definition AddFunction :: "CORE \<Rightarrow> BUS \<Rightarrow> INS \<Rightarrow> (CORE \<times> BUS) res" where
  "AddFunction c bus instr =
     (let (opc, dest, src, mode, imm) = Decode instr
      in Inr (set_reg (unat dest) (c_regs c ! unat dest + c_regs c ! unat src) c, bus))"

definition SubFunction :: "CORE \<Rightarrow> BUS \<Rightarrow> INS \<Rightarrow> (CORE \<times> BUS) res" where
  "SubFunction c bus instr =
     (let (opc, dest, src, mode, imm) = Decode instr
      in Inr (set_reg (unat dest) (c_regs c ! unat dest - c_regs c ! unat src) c, bus))"

definition HaltFunction :: "CORE \<Rightarrow> BUS \<Rightarrow> INS \<Rightarrow> (CORE \<times> BUS) res" where
  "HaltFunction c bus instr = Inr (c\<lparr>c_halted := True\<rparr>, bus)"

definition CompareFunction :: "CORE \<Rightarrow> BUS \<Rightarrow> INS \<Rightarrow> (CORE \<times> BUS) res" where
  "CompareFunction c bus instr =
     (let (opc, dest, src, mode, imm) = Decode instr;
          a = c_regs c ! unat dest;
          b = c_regs c ! unat src
      in Inr (c\<lparr>c_cmp_result := a - b, c_zero_flag := (a = b), c_sign_flag := (a < b)\<rparr>, bus))"

definition JmpFunction :: "CORE \<Rightarrow> BUS \<Rightarrow> INS \<Rightarrow> (CORE \<times> BUS) res" where
  "JmpFunction c bus instr =
     (let (opc, dest, src, mode, imm) = Decode instr
      in Inr (c\<lparr>c_pc := (if mode = 0 then ucast imm else c_regs c ! unat src)\<rparr>, bus))"

definition JeqFunction :: "CORE \<Rightarrow> BUS \<Rightarrow> INS \<Rightarrow> (CORE \<times> BUS) res" where
  "JeqFunction c bus instr = (if c_zero_flag c then JmpFunction c bus instr else Inr (c, bus))"

definition JneFunction :: "CORE \<Rightarrow> BUS \<Rightarrow> INS \<Rightarrow> (CORE \<times> BUS) res" where
  "JneFunction c bus instr = (if \<not> c_zero_flag c then JmpFunction c bus instr else Inr (c, bus))"

definition JltFunction :: "CORE \<Rightarrow> BUS \<Rightarrow> INS \<Rightarrow> (CORE \<times> BUS) res" where
  "JltFunction c bus instr = (if c_sign_flag c then JmpFunction c bus instr else Inr (c, bus))"

definition JgtFunction :: "CORE \<Rightarrow> BUS \<Rightarrow> INS \<Rightarrow> (CORE \<times> BUS) res" where
  "JgtFunction c bus instr = (if \<not> c_zero_flag c then JmpFunction c bus instr else Inr (c, bus))"

definition LockIncFunction :: "CORE \<Rightarrow> BUS \<Rightarrow> INS \<Rightarrow> (CORE \<times> BUS) res" where
  "LockIncFunction c bus instr =
     (let (opc, dest, src, mode, imm) = Decode instr;
          addr = (if mode = 0 then ucast imm else c_regs c ! unat src);
          bus = bus\<lparr>b_locked := True\<rparr>
      in bnd (mem_read (b_mem bus) addr) (\<lambda>val.
         bnd (mem_write (b_mem bus) addr (val + 1)) (\<lambda>mem.
           Inr (c, bus\<lparr>b_mem := mem, b_locked := False\<rparr>))))"

definition CmpxChgFunction :: "CORE \<Rightarrow> BUS \<Rightarrow> INS \<Rightarrow> (CORE \<times> BUS) res" where
  "CmpxChgFunction c bus instr =
     (let (opc, dest, src, mode, imm) = Decode instr;
          addr = c_regs c ! unat src;
          expected = c_regs c ! EXP;
          new_val = c_regs c ! unat dest
      in bnd (mem_read (b_mem bus) addr) (\<lambda>current.
         if current = expected
         then bnd (mem_write (b_mem bus) addr new_val) (\<lambda>mem.
                Inr (c\<lparr>c_zero_flag := True\<rparr>, bus\<lparr>b_mem := mem\<rparr>))
         else Inr ((set_reg EXP current c)\<lparr>c_zero_flag := False\<rparr>, bus)))"

text \<open>The table \<^verbatim>\<open>handlers\<close>; it has no entry for \<open>FENCE\<close>.\<close>

fun handlers :: "OPCODE \<Rightarrow> (CORE \<Rightarrow> BUS \<Rightarrow> INS \<Rightarrow> (CORE \<times> BUS) res) option" where
  "handlers LOAD = Some LoadFunction"
| "handlers STORE = Some StoreFunction"
| "handlers LIC = Some LicFunction"
| "handlers ADD = Some AddFunction"
| "handlers SUB = Some SubFunction"
| "handlers CMP = Some CompareFunction"
| "handlers JMP = Some JmpFunction"
| "handlers JEQ = Some JeqFunction"
| "handlers JNE = Some JneFunction"
| "handlers JLT = Some JltFunction"
| "handlers JGT = Some JgtFunction"
| "handlers LOCK_INC = Some LockIncFunction"
| "handlers CMPXCHG = Some CmpxChgFunction"
| "handlers FENCE = None"
| "handlers HALT = Some HaltFunction"

end
