(* ===== verification/ISA_Cache.thy ===== *)
theory ISA_Cache
  imports ISA_State
begin

text \<open>
  Store buffers and the MESI caches of \<^verbatim>\<open>firmwareLearning/cpu_isa.c\<close>. As in the source, the
  number of cache lines, 8, also serves as the line size in bytes. Operations on one core take
  its index and work on the whole machine, because they reach the other caches.
\<close>

section \<open>Store buffer\<close>

definition sb_push :: "32 word \<times> 32 word \<Rightarrow> STORE_BUFFER \<Rightarrow> STORE_BUFFER" where
  "sb_push e sb =
     (if sb_count sb \<ge> STORE_BUFFER_SIZE then sb
      else sb\<lparr>sb_entries := (sb_entries sb)[sb_tail sb :=
                \<lparr>sbe_addr = fst e, sbe_data = snd e, sbe_valid = True\<rparr>],
              sb_tail := (sb_tail sb + 1) mod STORE_BUFFER_SIZE,
              sb_count := sb_count sb + 1\<rparr>)"

text \<open>The oldest entry, and the buffer after it has been drained.\<close>

definition sb_pop :: "STORE_BUFFER \<Rightarrow> (32 word \<times> 32 word) option \<times> STORE_BUFFER" where
  "sb_pop sb =
     (if sb_count sb = 0 then (None, sb)
      else let head = sb_head sb; entry = sb_entries sb ! head
           in (Some (sbe_addr entry, sbe_data entry),
               sb\<lparr>sb_entries := (sb_entries sb)[head := entry\<lparr>sbe_valid := False\<rparr>],
                  sb_head := (head + 1) mod STORE_BUFFER_SIZE,
                  sb_count := sb_count sb - 1\<rparr>))"

definition StoreBufferPush :: "nat \<Rightarrow> 32 word \<Rightarrow> 32 word \<Rightarrow> machine \<Rightarrow> machine" where
  "StoreBufferPush i addr data =
     upd_core i (\<lambda>c. c\<lparr>c_store_buffer := sb_push (addr, data) (c_store_buffer c)\<rparr>)"

section \<open>Cache lines\<close>

definition line_base :: "32 word \<Rightarrow> 32 word" where
  "line_base addr = addr AND NOT 7"

definition word_offset :: "32 word \<Rightarrow> nat" where
  "word_offset addr = unat (addr AND 7) div 4"

definition line_matches :: "32 word \<Rightarrow> CACHE_LINE \<Rightarrow> bool" where
  "line_matches addr l \<longleftrightarrow> cl_state l \<noteq> MESI_INVALID \<and> cl_address l = line_base addr"

text \<open>\<open>None\<close> is the result -1.\<close>

definition CacheFind :: "CACHE \<Rightarrow> 32 word \<Rightarrow> nat option" where
  "CacheFind cache addr = find (\<lambda>i. line_matches addr (cache ! i)) [0..<CACHE_LINES]"

text \<open>The two words of a line are read from or written to memory one after the other.\<close>

definition read_line :: "memory \<Rightarrow> 32 word \<Rightarrow> (32 word list) res" where
  "read_line mem base = bnd (mem_read mem base) (\<lambda>v0. bnd (mem_read mem (base + 4)) (\<lambda>v1. Inr [v0, v1]))"

definition write_line :: "memory \<Rightarrow> 32 word \<Rightarrow> 32 word list \<Rightarrow> memory res" where
  "write_line mem base d = bnd (mem_write mem base (d ! 0)) (\<lambda>mem. mem_write mem (base + 4) (d ! 1))"

definition CacheEvictLine :: "CACHE \<Rightarrow> BUS \<Rightarrow> nat \<Rightarrow> (CACHE \<times> BUS) res" where
  "CacheEvictLine cache bus idx =
     bnd (if cl_state (cache ! idx) = MESI_MODIFIED
          then bnd (write_line (b_mem bus) (cl_address (cache ! idx)) (cl_data (cache ! idx)))
                 (\<lambda>mem. Inr (bus\<lparr>b_mem := mem\<rparr>))
          else Inr bus)
       (\<lambda>bus. Inr (cache[idx := (cache ! idx)\<lparr>cl_state := MESI_INVALID, cl_address := 0\<rparr>], bus))"

definition CacheGetEmpty :: "CACHE \<Rightarrow> BUS \<Rightarrow> (nat \<times> CACHE \<times> BUS) res" where
  "CacheGetEmpty cache bus =
     (case find (\<lambda>i. cl_state (cache ! i) = MESI_INVALID) [0..<CACHE_LINES] of
        Some i \<Rightarrow> Inr (i, cache, bus)
      | None \<Rightarrow> bnd (CacheEvictLine cache bus 0) (\<lambda>(cache, bus). Inr (0, cache, bus)))"

definition CacheSnoop :: "CACHE \<Rightarrow> 32 word \<Rightarrow> bool \<Rightarrow> BUS \<Rightarrow> CACHE \<times> BUS" where
  "CacheSnoop cache addr is_write bus =
     (case CacheFind cache addr of
        None \<Rightarrow> (cache, bus)
      | Some idx \<Rightarrow>
          let line = cache ! idx;
              answer = bus\<lparr>b_snoop_data := cl_data line, b_snoop_hit := True\<rparr>
          in if is_write
             then (cache[idx := line\<lparr>cl_state := MESI_INVALID\<rparr>],
                   if cl_state line = MESI_MODIFIED then answer else bus)
             else if cl_state line \<noteq> MESI_INVALID
             then (cache[idx := line\<lparr>cl_state :=
                     (if cl_state line = MESI_MODIFIED then MESI_SHARED
                      else if cl_state line = MESI_EXCLUSIVE then MESI_SHARED
                      else cl_state line)\<rparr>], answer)
             else (cache, bus))"

definition snoop_core :: "32 word \<Rightarrow> 32 word \<Rightarrow> bool \<Rightarrow> machine \<Rightarrow> nat \<Rightarrow> machine" where
  "snoop_core core_id addr is_write m i =
     (if int i = sint core_id then m
      else let (cache, bus) = CacheSnoop (c_cache (core m i)) addr is_write (m_bus m)
           in upd_bus (\<lambda>_. bus) (upd_core i (\<lambda>c. c\<lparr>c_cache := cache\<rparr>) m))"

definition CacheSnoopOtherCores :: "nat \<Rightarrow> 32 word \<Rightarrow> 32 word \<Rightarrow> bool \<Rightarrow> machine \<Rightarrow> machine" where
  "CacheSnoopOtherCores num_cores core_id addr is_write m =
     foldl (snoop_core core_id addr is_write) m [0..<num_cores]"

section \<open>Loads and writes\<close>

definition CacheLoad :: "nat \<Rightarrow> 32 word \<Rightarrow> nat \<Rightarrow> machine \<Rightarrow> (32 word \<times> machine) res" where
  "CacheLoad i addr num_c m =
     (case CacheFind (c_cache (core m i)) addr of
        Some idx \<Rightarrow> Inr (cl_data (c_cache (core m i) ! idx) ! word_offset addr, m)
      | None \<Rightarrow>
          bnd (CacheGetEmpty (c_cache (core m i)) (m_bus m)) (\<lambda>(idx, cache, bus).
          let m1 = upd_bus (\<lambda>_. bus\<lparr>b_bus_rd := True, b_bus_rdx := False, b_snoop_addr := addr,
                       b_snoop_core_id := c_core_id (core m i), b_snoop_hit := False,
                       b_snoop_data := [0, 0]\<rparr>)
                     (upd_core i (\<lambda>c. c\<lparr>c_cache := cache\<rparr>) m);
              m2 = CacheSnoopOtherCores num_c (c_core_id (core m i)) addr False m1
          in bnd (if b_snoop_hit (m_bus m2) then Inr (b_snoop_data (m_bus m2), MESI_SHARED)
                  else bnd (read_line (b_mem (m_bus m2)) (line_base addr))
                         (\<lambda>d. Inr (d, MESI_EXCLUSIVE))) (\<lambda>(d, st).
             Inr (d ! word_offset addr,
               upd_core i (\<lambda>c. c\<lparr>c_cache := (c_cache c)[idx := (c_cache c ! idx)
                 \<lparr>cl_address := line_base addr, cl_data := d, cl_state := st\<rparr>]\<rparr>) m2))))"

definition CacheWriteDirect :: "nat \<Rightarrow> 32 word \<Rightarrow> 32 word \<Rightarrow> nat \<Rightarrow> machine \<Rightarrow> machine res" where
  "CacheWriteDirect i addr val num_c m =
     bnd (case CacheFind (c_cache (core m i)) addr of
            Some idx \<Rightarrow> Inr (Some idx, m)
          | None \<Rightarrow> bnd (CacheLoad i addr num_c m)
                      (\<lambda>(_, m1). Inr (CacheFind (c_cache (core m1 i)) addr, m1))) (\<lambda>(found, m1).
     case found of None \<Rightarrow> Inl (Undefined ''array index'')
     | Some idx \<Rightarrow>
         let m2 = (if cl_state (c_cache (core m1 i) ! idx) = MESI_SHARED
                   then CacheSnoopOtherCores num_c (c_core_id (core m1 i)) addr True
                     (upd_bus (\<lambda>bus. bus\<lparr>b_bus_rdx := True, b_bus_rd := False, b_snoop_addr := addr,
                        b_snoop_hit := False, b_snoop_core_id := c_core_id (core m1 i)\<rparr>) m1)
                   else m1)
         in Inr (upd_core i (\<lambda>c. c\<lparr>c_cache := (c_cache c)[idx := (c_cache c ! idx)
              \<lparr>cl_data := (cl_data (c_cache c ! idx))[word_offset addr := val],
               cl_state := MESI_MODIFIED\<rparr>]\<rparr>) m2))"

definition CacheWrite :: "nat \<Rightarrow> 32 word \<Rightarrow> 32 word \<Rightarrow> machine \<Rightarrow> machine" where
  "CacheWrite i addr val m = StoreBufferPush i addr val m"

section \<open>Draining\<close>

definition DrainStoreBuffer :: "nat \<Rightarrow> nat \<Rightarrow> machine \<Rightarrow> machine res" where
  "DrainStoreBuffer i num_c m =
     (case fst (sb_pop (c_store_buffer (core m i))) of
        None \<Rightarrow> Inr m
      | Some (addr, data) \<Rightarrow>
          bnd (CacheWriteDirect i addr data num_c m) (\<lambda>m1.
            Inr (upd_core i (\<lambda>c. c\<lparr>c_store_buffer := snd (sb_pop (c_store_buffer c))\<rparr>) m1)))"

lemma core_upd_core:
  "i < length (m_cores m) \<Longrightarrow> core (upd_core i f m) j = (if j = i then f (core m i) else core m j)"
  by (simp add: core_def upd_core_def)

lemma upd_frame [simp]:
  "length (m_cores (upd_core i f m)) = length (m_cores m)"
  "m_bus (upd_core i f m) = m_bus m"
  "m_cores (upd_bus g m) = m_cores m" "core (upd_bus g m) j = core m j"
  "m_bus (upd_bus g m) = g (m_bus m)"
  by (simp_all add: upd_core_def upd_bus_def core_def)

text \<open>Cache traffic touches nothing of a core but its cache.\<close>

definition no_cache :: "machine \<Rightarrow> CORE list" where
  "no_cache m = map (\<lambda>c. c\<lparr>c_cache := []\<rparr>) (m_cores m)"

lemma no_cache_upd [simp]:
  "no_cache (upd_core i (\<lambda>c. c\<lparr>c_cache := f c\<rparr>) m) = no_cache m"
  "no_cache (upd_bus g m) = no_cache m"
  by (simp_all add: no_cache_def upd_core_def map_update_same)

lemma no_cache_snoop_core [simp]: "no_cache (snoop_core k a w m i) = no_cache m"
  by (simp add: snoop_core_def split: prod.split)

lemma no_cache_snoop [simp]: "no_cache (CacheSnoopOtherCores n k a w m) = no_cache m"
  unfolding CacheSnoopOtherCores_def by (induction n) simp_all

lemma no_cache_load: "CacheLoad i a n m = Inr (v, m') \<Longrightarrow> no_cache m' = no_cache m"
  by (auto simp: CacheLoad_def Let_def res_simps split: option.splits if_splits)

lemma no_cache_write: "CacheWriteDirect i a v n m = Inr m' \<Longrightarrow> no_cache m' = no_cache m"
  by (auto simp: CacheWriteDirect_def Let_def res_simps dest!: no_cache_load split: option.splits if_splits)

lemma no_cache_store_buffer:
  assumes "no_cache m' = no_cache m"
  shows "map c_store_buffer (m_cores m') = map c_store_buffer (m_cores m)"
proof -
  have "map c_store_buffer (no_cache m') = map c_store_buffer (no_cache m)" using assms by simp
  then show ?thesis by (simp add: no_cache_def comp_def)
qed

lemma DrainStoreBuffer_count:
  assumes "DrainStoreBuffer i n m = Inr m'" "i < length (m_cores m)"
  shows "sb_count (c_store_buffer (core m' i)) = sb_count (c_store_buffer (core m i)) - 1
    \<and> length (m_cores m') = length (m_cores m)"
proof (cases "sb_count (c_store_buffer (core m i)) = 0")
  case False
  define r where "r = sb_pop (c_store_buffer (core m i))"
  then obtain a v where r: "fst r = Some (a, v)"
    using False by (auto simp: sb_pop_def Let_def)
  with False assms obtain m1 where m1: "CacheWriteDirect i a v n m = Inr m1"
    and m': "length (m_cores m') = length (m_cores m1)" "i < length (m_cores m1) \<Longrightarrow>
      c_store_buffer (core m' i) = snd (sb_pop (c_store_buffer (core m1 i)))"
    by (auto simp: DrainStoreBuffer_def r_def Let_def res_simps core_upd_core)
  note eq = no_cache_store_buffer [OF no_cache_write [OF m1]]
  then have "length (m_cores m1) = length (m_cores m)" by (rule map_eq_imp_length_eq)
  moreover from this have "c_store_buffer (core m1 i) = c_store_buffer (core m i)"
    using eq assms(2) unfolding core_def by (metis nth_map)
  ultimately show ?thesis using m' assms(2) False by (simp add: sb_pop_def Let_def)
qed (use assms in \<open>simp add: DrainStoreBuffer_def sb_pop_def\<close>)

function FlushStoreBuffer :: "nat \<Rightarrow> nat \<Rightarrow> machine \<Rightarrow> machine res" where
  "FlushStoreBuffer i num_c m =
     (if \<not> i < length (m_cores m) then Inl (Undefined ''array index'')
      else if sb_count (c_store_buffer (core m i)) > 0
      then bnd (DrainStoreBuffer i num_c m) (FlushStoreBuffer i num_c)
      else Inr m)"
  by pat_completeness auto
termination
  by (relation "measure (\<lambda>(i, n, m). sb_count (c_store_buffer (core m i)))")
    (auto dest!: DrainStoreBuffer_count)

declare FlushStoreBuffer.simps [simp del]

end
