(* ===== verification/ISA_Step.thy ===== *)
theory ISA_Step
  imports ISA_Cache
begin

text \<open>
  One micro-operation of a core (\<open>Step\<close>) and the program of \<^verbatim>\<open>main\<close> in
  \<^verbatim>\<open>firmwareLearning/cpu_isa.c\<close>.
\<close>

section \<open>Micro-operations\<close>

text \<open>The branch of \<open>DECODE\<close>: an unknown opcode leaves the micro-operation as it is.\<close>

definition decode_target :: "8 word \<Rightarrow> MICRO_OP \<Rightarrow> MICRO_OP" where
  "decode_target opc old =
     (let targets = [LOAD_ADDR, STORE_ADDR, LIC_WB, ADD_EXEC, SUB_EXEC, CMP_EXEC, JMP_EXEC,
        JEQ_EXEC, JNE_EXEC, JLT_EXEC, JGT_EXEC, LOCK_INC_ADDR, CMPXCHG_ADDR, FENCE_EXEC, HALT_EXEC]
      in if unat opc < 15 then targets ! unat opc else old)"

text \<open>\<^verbatim>\<open>(c->mode == 0) ? c->imm : c->regs[c->src]\<close>.\<close>

definition operand_addr :: "CORE \<Rightarrow> 32 word" where
  "operand_addr c = (if c_mode c = 0 then ucast (c_imm c) else c_regs c ! unat (c_src c))"

definition jump_if :: "bool \<Rightarrow> CORE \<Rightarrow> CORE" where
  "jump_if b c = (if b then c\<lparr>c_pc := operand_addr c, c_micro_op := FETCH\<rparr>
                  else c\<lparr>c_micro_op := FETCH\<rparr>)"

definition lock_bus :: "nat \<Rightarrow> machine \<Rightarrow> machine" where
  "lock_bus i m = upd_bus (\<lambda>b. b\<lparr>b_locked := True, b_locked_owner := c_core_id (core m i)\<rparr>) m"

definition unlock_bus :: "machine \<Rightarrow> machine" where
  "unlock_bus = upd_bus (\<lambda>b. b\<lparr>b_locked := False, b_locked_owner := -1\<rparr>)"

definition go :: "nat \<Rightarrow> MICRO_OP \<Rightarrow> machine \<Rightarrow> machine" where
  "go i op = upd_core i (\<lambda>c. c\<lparr>c_micro_op := op\<rparr>)"

text \<open>\<^verbatim>\<open>c->temp_val = CacheLoad(c, c->addr, ...)\<close>, then the next micro-operation.\<close>

definition load_temp :: "nat \<Rightarrow> MICRO_OP \<Rightarrow> machine \<Rightarrow> machine res" where
  "load_temp i op m = bnd (CacheLoad i (c_addr (core m i)) NUM_CORES m) (\<lambda>(v, m1).
     Inr (upd_core i (\<lambda>c. c\<lparr>c_temp_val := v, c_micro_op := op\<rparr>) m1))"

text \<open>The \<^verbatim>\<open>switch\<close> on the micro-operation.\<close>

fun exec_op :: "MICRO_OP \<Rightarrow> nat \<Rightarrow> machine \<Rightarrow> machine res" where
  "exec_op FETCH i m = bnd (mem_read (b_mem (m_bus m)) (c_pc (core m i))) (\<lambda>ins.
     Inr (upd_core i (\<lambda>c. c\<lparr>c_current_instr := ins, c_pc := c_pc c + 4, c_micro_op := DECODE\<rparr>) m))"
| "exec_op DECODE i m = (let (opc, dest, src, mode, imm) = Decode (c_current_instr (core m i))
     in Inr (upd_core i (\<lambda>c. c\<lparr>c_opc := opc, c_dest := dest, c_src := src, c_mode := mode,
          c_imm := imm, c_micro_op := decode_target opc (c_micro_op c)\<rparr>) m))"
| "exec_op LOAD_ADDR i m = Inr (upd_core i (\<lambda>c. c\<lparr>c_addr := operand_addr c, c_micro_op := LOAD_MEM\<rparr>) m)"
| "exec_op LOAD_MEM i m = load_temp i LOAD_WB m"
| "exec_op LOAD_WB i m = Inr (upd_core i (\<lambda>c. (set_reg (unat (c_dest c)) (c_temp_val c) c)\<lparr>c_micro_op := FETCH\<rparr>) m)"
| "exec_op STORE_ADDR i m = Inr (upd_core i (\<lambda>c. c\<lparr>c_addr := operand_addr c, c_micro_op := STORE_MEM\<rparr>) m)"
| "exec_op STORE_MEM i m = Inr (go i FETCH (CacheWrite i (c_addr (core m i)) (c_regs (core m i) ! unat (c_dest (core m i))) m))"
| "exec_op LIC_WB i m = Inr (upd_core i (\<lambda>c. (set_reg (unat (c_dest c)) (ucast (c_imm c)) c)\<lparr>c_micro_op := FETCH\<rparr>) m)"
| "exec_op ADD_EXEC i m = Inr (upd_core i (\<lambda>c. c\<lparr>c_temp_val :=
    c_regs c ! unat (c_dest c) + c_regs c ! unat (c_src c), c_micro_op := ADD_WB\<rparr>) m)"
| "exec_op ADD_WB i m = Inr (upd_core i (\<lambda>c. (set_reg (unat (c_dest c)) (c_temp_val c) c)\<lparr>c_micro_op := FETCH\<rparr>) m)"
| "exec_op SUB_EXEC i m = Inr (upd_core i (\<lambda>c. c\<lparr>c_temp_val :=
    c_regs c ! unat (c_dest c) - c_regs c ! unat (c_src c), c_micro_op := SUB_WB\<rparr>) m)"
| "exec_op SUB_WB i m = Inr (upd_core i (\<lambda>c. (set_reg (unat (c_dest c)) (c_temp_val c) c)\<lparr>c_micro_op := FETCH\<rparr>) m)"
| "exec_op CMP_EXEC i m = Inr (upd_core i (\<lambda>c. let a = c_regs c ! unat (c_dest c); b = c_regs c ! unat (c_src c)
    in c\<lparr>c_cmp_result := a - b, c_zero_flag := (a = b), c_sign_flag := (a < b),
         c_micro_op := FETCH\<rparr>) m)"
| "exec_op JMP_EXEC i m = Inr (upd_core i (jump_if True) m)"
| "exec_op JEQ_EXEC i m = Inr (upd_core i (jump_if (c_zero_flag (core m i))) m)"
| "exec_op JNE_EXEC i m = Inr (upd_core i (jump_if (\<not> c_zero_flag (core m i))) m)"
| "exec_op JLT_EXEC i m = Inr (upd_core i (jump_if (c_sign_flag (core m i))) m)"
| "exec_op JGT_EXEC i m = Inr (upd_core i (jump_if (\<not> c_zero_flag (core m i) \<and> \<not> c_sign_flag (core m i))) m)"
| "exec_op LOCK_INC_ADDR i m = Inr (upd_core i (\<lambda>c. c\<lparr>c_addr := operand_addr c,
    c_micro_op := LOCK_INC_LOAD\<rparr>) (lock_bus i m))"
| "exec_op LOCK_INC_LOAD i m = load_temp i LOCK_INC_STORE m"
| "exec_op LOCK_INC_STORE i m = Inr (go i FETCH (unlock_bus (CacheWrite i (c_addr (core m i)) (c_temp_val (core m i) + 1)
     (upd_core i (\<lambda>c. c\<lparr>c_temp_val := c_temp_val c + 1\<rparr>) m))))"
| "exec_op CMPXCHG_ADDR i m = Inr (upd_core i (\<lambda>c. c\<lparr>c_addr := operand_addr c,
    c_micro_op := CMPXCHG_LOAD\<rparr>) (lock_bus i m))"
| "exec_op CMPXCHG_LOAD i m = load_temp i CMPXCHG_COMPARE m"
| "exec_op CMPXCHG_COMPARE i m = Inr (upd_core i (\<lambda>c.
    if c_temp_val c = c_regs c ! EXP then c\<lparr>c_micro_op := CMPXCHG_STORE\<rparr>
    else (set_reg EXP (c_temp_val c) c)\<lparr>c_zero_flag := False, c_micro_op := CMPXCHG_FAIL\<rparr>) m)"
| "exec_op CMPXCHG_STORE i m = Inr (unlock_bus (upd_core i (\<lambda>c. c\<lparr>c_zero_flag := True, c_micro_op := FETCH\<rparr>)
     (CacheWrite i (c_addr (core m i)) (c_regs (core m i) ! unat (c_dest (core m i))) m)))"
| "exec_op CMPXCHG_FAIL i m = Inr (go i FETCH (unlock_bus m))"
| "exec_op FENCE_EXEC i m = bnd (FlushStoreBuffer i NUM_CORES m) (\<lambda>m1. Inr (go i FETCH m1))"
| "exec_op HALT_EXEC i m = Inr (upd_core i (\<lambda>c. c\<lparr>c_halted := True\<rparr>) m)"

definition Step :: "nat \<Rightarrow> machine \<Rightarrow> machine res" where
  "Step i m =
     (if c_halted (core m i) then Inr m
      else if b_locked (m_bus m) \<and> b_locked_owner (m_bus m) \<noteq> c_core_id (core m i) then Inr m
      else exec_op (c_micro_op (core m i)) i m)"

section \<open>The program\<close>

definition program_core0 :: "INS list" where
  "program_core0 =
    [Encode LIC 0 0 0 0x300, Encode LIC 1 0 0 0x308, Encode LIC 2 0 0 42, Encode LIC 3 0 0 1,
     Encode STORE 2 0 1 0, Encode FENCE 0 0 0 0, Encode STORE 3 1 1 0, Encode FENCE 0 0 0 0,
     Encode HALT 0 0 0 0]"

definition program_core1 :: "INS list" where
  "program_core1 =
    [Encode LIC 0 0 0 0x308, Encode LIC 1 0 0 0x300, Encode LIC 2 0 0 0,
     Encode LOAD 3 0 1 0, Encode CMP 3 2 0 0, Encode JEQ 0 0 0 0x10C, Encode LOAD 4 1 1 0,
     Encode HALT 0 0 0 0]"

text \<open>\<^verbatim>\<open>memcpy\<close> of a program to an address.\<close>

fun load_program :: "memory \<Rightarrow> 32 word \<Rightarrow> INS list \<Rightarrow> memory res" where
  "load_program mem a [] = Inr mem"
| "load_program mem a (i # is) = bnd (mem_write mem a i) (\<lambda>mem. load_program mem (a + 4) is)"

definition main_machine :: "machine res" where
  "main_machine =
     bnd (load_program (b_mem zero_bus) 0x000 program_core0) (\<lambda>mem.
     bnd (mem_write mem 0x300 0) (\<lambda>mem. bnd (mem_write mem 0x308 0) (\<lambda>mem.
     bnd (load_program mem 0x100 program_core1) (\<lambda>mem.
       Inr \<lparr>m_cores = [zero_core\<lparr>c_core_id := 0, c_pc := 0x000\<rparr>,
                       zero_core\<lparr>c_core_id := 1, c_pc := 0x100\<rparr>],
            m_bus = zero_bus\<lparr>b_mem := mem\<rparr>\<rparr>))))"

partial_function (option) run_cores :: "nat \<Rightarrow> machine \<Rightarrow> (nat \<times> machine) res option" where
  "run_cores cycle m =
     (if \<not> c_halted (core m 0) \<or> \<not> c_halted (core m 1)
      then (case bnd (Step 0 m) (Step 1) of Inl e \<Rightarrow> Some (Inl e)
            | Inr m' \<Rightarrow> run_cores (cycle + 1) m')
      else Some (Inr (cycle, m)))"

lemmas run_cores_code [code] = run_cores.simps

text \<open>Writing the modified lines of a core back to memory.\<close>

fun write_back :: "CACHE_LINE list \<Rightarrow> memory \<Rightarrow> memory res" where
  "write_back [] mem = Inr mem"
| "write_back (l # ls) mem =
     bnd (if cl_state l = MESI_MODIFIED then write_line mem (cl_address l) (cl_data l) else Inr mem)
       (write_back ls)"

definition cpu_main :: "(nat \<times> machine) res option" where
  "cpu_main =
     obnd (Some main_machine) (\<lambda>m.
     obnd (run_cores 0 m) (\<lambda>(cycle, m).
     Some (bnd (FlushStoreBuffer 0 NUM_CORES m) (\<lambda>m. bnd (FlushStoreBuffer 1 NUM_CORES m) (\<lambda>m.
       bnd (write_back (take CACHE_LINES (c_cache (core m 0))) (b_mem (m_bus m))) (\<lambda>mem.
       bnd (write_back (take CACHE_LINES (c_cache (core m 1))) mem) (\<lambda>mem.
         Inr (cycle, upd_bus (\<lambda>b. b\<lparr>b_mem := mem\<rparr>) m))))))))"

end
