(* ===== verification/ISA_Mesi.thy ===== *)
theory ISA_Mesi
  imports ISA_Step
begin

text \<open>
  Coherence of the MESI caches of \<^verbatim>\<open>firmwareLearning/cpu_isa.c\<close>. A cache is seen as a map from
  addresses to state and data (\<open>cached\<close>). The invariant \<open>coherent\<close> says that when two cores hold
  the same line, both hold it shared and with the same data; loads and writes keep it, and a
  load by any core after a write returns what was written.
\<close>

section \<open>A cache as a map\<close>

definition cache_wf :: "CACHE \<Rightarrow> bool" where
  "cache_wf c \<longleftrightarrow> length c = CACHE_LINES
     \<and> (\<forall>j < CACHE_LINES. length (cl_data (c ! j)) = CACHE_LINE_DATA_WORDS)
     \<and> (\<forall>j < CACHE_LINES. \<forall>k < CACHE_LINES. cl_state (c ! j) \<noteq> MESI_INVALID \<longrightarrow>
          cl_state (c ! k) \<noteq> MESI_INVALID \<longrightarrow> cl_address (c ! j) = cl_address (c ! k) \<longrightarrow> j = k)"

definition cached :: "CACHE \<Rightarrow> 32 word \<Rightarrow> (MESI_STATE \<times> 32 word list) option" where
  "cached c a = map_option (\<lambda>k. (cl_state (c ! k), cl_data (c ! k))) (CacheFind c a)"

lemma CacheFind_Some:
  assumes "cache_wf c"
  shows "CacheFind c a = Some k \<longleftrightarrow> k < CACHE_LINES \<and> line_matches a (c ! k)"
proof
  assume "CacheFind c a = Some k"
  then show "k < CACHE_LINES \<and> line_matches a (c ! k)"
    by (auto simp: CacheFind_def find_Some_iff)
next
  assume k: "k < CACHE_LINES \<and> line_matches a (c ! k)"
  then have "CacheFind c a \<noteq> None" by (auto simp: CacheFind_def find_None_iff)
  then obtain j where j: "CacheFind c a = Some j" by auto
  then have "j < CACHE_LINES" "line_matches a (c ! j)" by (auto simp: CacheFind_def find_Some_iff)
  with k assms have "j = k" unfolding cache_wf_def line_matches_def by metis
  with j show "CacheFind c a = Some k" by simp
qed

lemma CacheFind_None: "CacheFind c a = None \<longleftrightarrow> (\<forall>k < CACHE_LINES. \<not> line_matches a (c ! k))"
  by (auto simp: CacheFind_def find_None_iff)

lemma cached_Some:
  "cache_wf c \<Longrightarrow> cached c a = Some (st, d) \<longleftrightarrow>
   (\<exists>k < CACHE_LINES. line_matches a (c ! k) \<and> cl_state (c ! k) = st \<and> cl_data (c ! k) = d)"
  by (auto simp: cached_def CacheFind_Some)

lemma cached_None: "cached c a = None \<longleftrightarrow> (\<forall>k < CACHE_LINES. \<not> line_matches a (c ! k))"
  by (simp add: cached_def CacheFind_None)

lemma cached_same_line: "line_base b = line_base a \<Longrightarrow> cached c b = cached c a"
  by (simp add: cached_def CacheFind_def line_matches_def)

text \<open>Putting a valid line into slot \<open>k\<close>, where no other slot holds that address.\<close>

lemma cached_put:
  assumes wf: "cache_wf c" and k: "k < CACHE_LINES"
    and l: "cl_address l = line_base a" "cl_state l \<noteq> MESI_INVALID" "length (cl_data l) = 2"
    and others: "\<And>j. j < CACHE_LINES \<Longrightarrow> j \<noteq> k \<Longrightarrow> \<not> line_matches a (c ! j)"
  shows "cache_wf (c[k := l])"
    and "cached (c[k := l]) b = (if line_base b = line_base a then Some (cl_state l, cl_data l)
      else if line_matches b (c ! k) then None else cached c b)"
proof -
  have len: "length c = CACHE_LINES" using wf by (simp add: cache_wf_def)
  have "\<forall>j < CACHE_LINES. j \<noteq> k \<longrightarrow> \<not> line_matches a (c ! j)" using others by blast
  then show wf': "cache_wf (c[k := l])"
    using wf l k unfolding cache_wf_def line_matches_def
    by (auto simp: nth_list_update)
  show "cached (c[k := l]) b = (if line_base b = line_base a then Some (cl_state l, cl_data l)
      else if line_matches b (c ! k) then None else cached c b)"
  proof (cases "line_base b = line_base a")
    case True
    then have "line_matches b ((c[k := l]) ! k)" using l k len by (simp add: line_matches_def)
    then have "CacheFind (c[k := l]) b = Some k" using k by (simp add: CacheFind_Some [OF wf'])
    then show ?thesis using True k len by (simp add: cached_def)
  next
    case False
    then have nl: "\<not> line_matches b l" using l by (simp add: line_matches_def)
    show ?thesis
    proof (cases "cached (c[k := l]) b")
      case None
      then have no: "\<not> line_matches b (c ! j)" if "j < CACHE_LINES" "j \<noteq> k" for j
        using that len by (auto simp: cached_None)
      then have "cached c b = None" if "\<not> line_matches b (c ! k)"
        using that unfolding cached_None by metis
      then show ?thesis using None False by simp
    next
      case (Some p)
      then obtain j where j: "j < CACHE_LINES" "line_matches b ((c[k := l]) ! j)"
        "p = (cl_state ((c[k := l]) ! j), cl_data ((c[k := l]) ! j))"
        using cached_Some [OF wf'] by (cases p) auto
      then have jk: "j \<noteq> k" using nl len by auto
      with j have m: "line_matches b (c ! j)" by simp
      then have "CacheFind c b = Some j" using j(1) by (simp add: CacheFind_Some [OF wf])
      moreover have "\<not> line_matches b (c ! k)"
        using m jk j(1) k wf unfolding cache_wf_def line_matches_def by metis
      ultimately show ?thesis using Some False j(3) jk by (simp add: cached_def)
    qed
  qed
qed

text \<open>Making slot \<open>k\<close> invalid.\<close>

lemma cached_drop:
  assumes wf: "cache_wf c" and k: "k < CACHE_LINES"
    and l: "cl_state l = MESI_INVALID" "length (cl_data l) = 2"
  shows "cache_wf (c[k := l])"
    and "cached (c[k := l]) b = (if line_matches b (c ! k) then None else cached c b)"
proof -
  have len: "length c = CACHE_LINES" using wf by (simp add: cache_wf_def)
  show wf': "cache_wf (c[k := l])"
    using wf l k unfolding cache_wf_def by (auto simp: nth_list_update)
  have nl: "\<not> line_matches b l" using l by (simp add: line_matches_def)
  show "cached (c[k := l]) b = (if line_matches b (c ! k) then None else cached c b)"
  proof (cases "line_matches b (c ! k)")
    case True
    then have "\<not> line_matches b (c ! j)" if "j < CACHE_LINES" "j \<noteq> k" for j
      using that k wf unfolding cache_wf_def line_matches_def by metis
    then have "cached (c[k := l]) b = None"
      using nl len k by (auto simp: cached_None nth_list_update)
    then show ?thesis using True by simp
  next
    case False
    then have "line_matches b ((c[k := l]) ! j) = line_matches b (c ! j)" if "j < CACHE_LINES" for j
      using that nl len by (cases "j = k") simp_all
    then have "CacheFind (c[k := l]) b = CacheFind c b"
      unfolding CacheFind_def by (intro find_cong) auto
    moreover have "CacheFind c b = Some j \<Longrightarrow> j \<noteq> k" for j
      using False by (auto simp: CacheFind_Some [OF wf])
    ultimately show ?thesis using False by (cases "CacheFind c b") (auto simp: cached_def)
  qed
qed

section \<open>Snooping one cache\<close>

lemma CacheSnoop_read:
  fixes a :: "32 word" and bus :: BUS
  assumes wf: "cache_wf c"
  defines "r \<equiv> CacheSnoop c a False bus"
  shows "cache_wf (fst r)"
    and "cached (fst r) b = (if line_base b = line_base a
      then map_option (\<lambda>(s, d). (MESI_SHARED, d)) (cached c b) else cached c b)"
    and "snd r = (case cached c a of None \<Rightarrow> bus
      | Some (s, d) \<Rightarrow> bus\<lparr>b_snoop_data := d, b_snoop_hit := True\<rparr>)"
proof -
  have "cache_wf (fst r) \<and> cached (fst r) b = (if line_base b = line_base a
      then map_option (\<lambda>(s, d). (MESI_SHARED, d)) (cached c b) else cached c b)
    \<and> snd r = (case cached c a of None \<Rightarrow> bus
      | Some (s, d) \<Rightarrow> bus\<lparr>b_snoop_data := d, b_snoop_hit := True\<rparr>)"
  proof (cases "CacheFind c a")
    case None
    then have n: "cached c a = None" by (simp add: cached_def)
    then show ?thesis
      using None wf cached_same_line [of b a c] by (auto simp: r_def CacheSnoop_def)
  next
    case (Some k)
    then have k: "k < CACHE_LINES" "line_matches a (c ! k)" using CacheFind_Some [OF wf] by auto
    let ?l = "(c ! k)\<lparr>cl_state := MESI_SHARED\<rparr>"
    have st: "cl_state (c ! k) \<noteq> MESI_INVALID" using k by (simp add: line_matches_def)
    then have "(if cl_state (c ! k) = MESI_MODIFIED then MESI_SHARED
        else if cl_state (c ! k) = MESI_EXCLUSIVE then MESI_SHARED else cl_state (c ! k)) = MESI_SHARED"
      by (cases "cl_state (c ! k)") simp_all
    with Some st have r: "r = (c[k := ?l], bus\<lparr>b_snoop_data := cl_data (c ! k), b_snoop_hit := True\<rparr>)"
      by (simp add: r_def CacheSnoop_def Let_def)
    have others: "\<not> line_matches a (c ! j)" if "j < CACHE_LINES" "j \<noteq> k" for j
      using that k wf unfolding cache_wf_def line_matches_def by metis
    have l: "cl_address ?l = line_base a" "cl_state ?l \<noteq> MESI_INVALID" "length (cl_data ?l) = 2"
      using k wf by (simp_all add: line_matches_def cache_wf_def)
    note put = cached_put [OF wf k(1) l others]
    have ca: "cached c a = Some (cl_state (c ! k), cl_data (c ! k))"
      using Some by (simp add: cached_def)
    have "line_base b \<noteq> line_base a \<Longrightarrow> \<not> line_matches b (c ! k)"
      using k by (simp add: line_matches_def)
    then show ?thesis
      using r put ca cached_same_line [of b a c] by simp
  qed
  then show "cache_wf (fst r)" "cached (fst r) b = (if line_base b = line_base a
      then map_option (\<lambda>(s, d). (MESI_SHARED, d)) (cached c b) else cached c b)"
    "snd r = (case cached c a of None \<Rightarrow> bus
      | Some (s, d) \<Rightarrow> bus\<lparr>b_snoop_data := d, b_snoop_hit := True\<rparr>)" by blast+
qed

lemma CacheSnoop_write:
  fixes a :: "32 word" and bus :: BUS
  assumes wf: "cache_wf c"
  defines "r \<equiv> CacheSnoop c a True bus"
  shows "cache_wf (fst r)"
    and "cached (fst r) b = (if line_base b = line_base a then None else cached c b)"
    and "b_mem (snd r) = b_mem bus"
proof -
  have "cache_wf (fst r) \<and> cached (fst r) b = (if line_base b = line_base a then None else cached c b)
    \<and> b_mem (snd r) = b_mem bus"
  proof (cases "CacheFind c a")
    case None
    then have n: "cached c a = None" by (simp add: cached_def)
    then show ?thesis
      using None wf cached_same_line [of b a c] by (auto simp: r_def CacheSnoop_def)
  next
    case (Some k)
    then have k: "k < CACHE_LINES" "line_matches a (c ! k)" using CacheFind_Some [OF wf] by auto
    let ?l = "(c ! k)\<lparr>cl_state := MESI_INVALID\<rparr>"
    have r: "fst r = c[k := ?l]" "b_mem (snd r) = b_mem bus"
      using Some by (simp_all add: r_def CacheSnoop_def Let_def)
    have l: "cl_state ?l = MESI_INVALID" "length (cl_data ?l) = 2"
      using k wf by (simp_all add: cache_wf_def)
    note drop = cached_drop [OF wf k(1) l]
    have "line_matches b (c ! k) \<longleftrightarrow> line_base b = line_base a"
      using k by (auto simp: line_matches_def)
    then show ?thesis using r drop by simp
  qed
  then show "cache_wf (fst r)"
    "cached (fst r) b = (if line_base b = line_base a then None else cached c b)"
    "b_mem (snd r) = b_mem bus" by blast+
qed

section \<open>The machine\<close>

definition view :: "machine \<Rightarrow> nat \<Rightarrow> 32 word \<Rightarrow> (MESI_STATE \<times> 32 word list) option" where
  "view m i a = cached (c_cache (core m i)) a"

definition machine_ok :: "nat \<Rightarrow> machine \<Rightarrow> bool" where
  "machine_ok n m \<longleftrightarrow> length (m_cores m) = n
     \<and> (\<forall>i < n. sint (c_core_id (core m i)) = int i \<and> cache_wf (c_cache (core m i)))"

definition coherent :: "nat \<Rightarrow> machine \<Rightarrow> bool" where
  "coherent n m \<longleftrightarrow> (\<forall>i < n. \<forall>j < n. i \<noteq> j \<longrightarrow> (\<forall>a s d s' d'.
     view m i a = Some (s, d) \<longrightarrow> view m j a = Some (s', d') \<longrightarrow>
     s = MESI_SHARED \<and> s' = MESI_SHARED \<and> d = d'))"

lemma view_same_line: "line_base b = line_base a \<Longrightarrow> view m i b = view m i a"
  unfolding view_def by (rule cached_same_line)

lemma view_set_cache:
  "i < length (m_cores m) \<Longrightarrow> view (upd_core i (\<lambda>x. x\<lparr>c_cache := f x\<rparr>) m) j b
    = (if j = i then cached (f (core m i)) b else view m j b)"
  by (simp add: view_def core_upd_core)

lemma view_bus [simp]: "view (upd_bus g m) j b = view m j b"
  by (simp add: view_def)

lemma machine_ok_set_cache:
  "machine_ok n m \<Longrightarrow> i < n \<Longrightarrow> cache_wf (f (core m i)) \<Longrightarrow>
   machine_ok n (upd_core i (\<lambda>x. x\<lparr>c_cache := f x\<rparr>) m)"
  by (auto simp: machine_ok_def core_upd_core)

lemma machine_ok_bus [simp]: "machine_ok n (upd_bus g m) = machine_ok n m"
  by (simp add: machine_ok_def)

text \<open>The effect of a read snoop on the other cores, one core after the other.\<close>

lemma snoop_core_self:
  "machine_ok n m \<Longrightarrow> i < n \<Longrightarrow> sint k = int i \<Longrightarrow> snoop_core k a w m i = m"
  by (simp add: snoop_core_def)

lemma snoop_read_spec:
  fixes a :: "32 word"
  assumes ok: "machine_ok n m" and k: "sint k = int i" and p: "p \<le> n"
  defines "m' \<equiv> foldl (snoop_core k a False) m [0..<p]"
  shows "machine_ok n m'
    \<and> (\<forall>j b. view m' j b = (if j < p \<and> j \<noteq> i \<and> line_base b = line_base a
          then map_option (\<lambda>(s, d). (MESI_SHARED, d)) (view m j b) else view m j b))
    \<and> b_mem (m_bus m') = b_mem (m_bus m)
    \<and> (b_snoop_hit (m_bus m') \<longleftrightarrow> b_snoop_hit (m_bus m) \<or> (\<exists>j < p. j \<noteq> i \<and> view m j a \<noteq> None))
    \<and> ((\<exists>j < p. j \<noteq> i \<and> view m j a \<noteq> None) \<longrightarrow>
         (\<exists>j < p. j \<noteq> i \<and> (\<exists>s. view m j a = Some (s, b_snoop_data (m_bus m')))))
    \<and> c_cache (core m' i) = c_cache (core m i)"
  using p unfolding m'_def
proof (induction p)
  case 0
  then show ?case using ok by simp
next
  case (Suc q)
  define mq where "mq = foldl (snoop_core k a False) m [0..<q]"
  have IH: "machine_ok n mq"
    "\<And>j b. view mq j b = (if j < q \<and> j \<noteq> i \<and> line_base b = line_base a
          then map_option (\<lambda>(s, d). (MESI_SHARED, d)) (view m j b) else view m j b)"
    "b_mem (m_bus mq) = b_mem (m_bus m)"
    "b_snoop_hit (m_bus mq) \<longleftrightarrow> b_snoop_hit (m_bus m) \<or> (\<exists>j < q. j \<noteq> i \<and> view m j a \<noteq> None)"
    "(\<exists>j < q. j \<noteq> i \<and> view m j a \<noteq> None) \<longrightarrow>
         (\<exists>j < q. j \<noteq> i \<and> (\<exists>s. view m j a = Some (s, b_snoop_data (m_bus mq))))"
    "c_cache (core mq i) = c_cache (core m i)"
    using Suc unfolding mq_def by simp_all
  have step: "foldl (snoop_core k a False) m [0..<Suc q] = snoop_core k a False mq q"
    by (simp add: mq_def)
  show ?case
  proof (cases "q = i")
    case True
    then have "snoop_core k a False mq q = mq" using k by (simp add: snoop_core_def)
    with IH True show ?thesis unfolding step by (auto simp: less_Suc_eq)
  next
    case False
    have qn: "q < n" "q < length (m_cores mq)" using Suc.prems IH(1) by (simp_all add: machine_ok_def)
    have wf: "cache_wf (c_cache (core mq q))" using IH(1) qn by (simp add: machine_ok_def)
    let ?r = "CacheSnoop (c_cache (core mq q)) a False (m_bus mq)"
    have eq: "snoop_core k a False mq q
        = upd_bus (\<lambda>_. snd ?r) (upd_core q (\<lambda>c. c\<lparr>c_cache := fst ?r\<rparr>) mq)"
      using False k by (simp add: snoop_core_def split: prod.split)
    note r = CacheSnoop_read [OF wf, of a "m_bus mq"]
    have va: "cached (c_cache (core mq q)) b = view m q b" for b
      using IH(2) [of q b] by (simp add: view_def)
    let ?m' = "upd_bus (\<lambda>_. snd ?r) (upd_core q (\<lambda>c. c\<lparr>c_cache := fst ?r\<rparr>) mq)"
    have bus: "snd ?r = (case view m q a of None \<Rightarrow> m_bus mq
      | Some (s, d) \<Rightarrow> (m_bus mq)\<lparr>b_snoop_data := d, b_snoop_hit := True\<rparr>)"
      using r(3) va by simp
    have "machine_ok n ?m'" using machine_ok_set_cache [OF IH(1) qn(1), of "\<lambda>_. fst ?r"] r(1) by simp
    moreover have "view ?m' j b = (if j < Suc q \<and> j \<noteq> i \<and> line_base b = line_base a
          then map_option (\<lambda>(s, d). (MESI_SHARED, d)) (view m j b) else view m j b)" for j b
      using view_set_cache [OF qn(2), of "\<lambda>_. fst ?r" j b] r(2) va IH(2) False
      by (auto simp: less_Suc_eq)
    moreover have "b_mem (m_bus ?m') = b_mem (m_bus m)"
      using IH(3) bus by (auto split: option.split)
    moreover have "b_snoop_hit (m_bus ?m') \<longleftrightarrow>
        b_snoop_hit (m_bus m) \<or> (\<exists>j < Suc q. j \<noteq> i \<and> view m j a \<noteq> None)"
      using IH(4) bus False by (cases "view m q a") (auto simp: less_Suc_eq)
    moreover have "(\<exists>j < Suc q. j \<noteq> i \<and> view m j a \<noteq> None) \<longrightarrow>
         (\<exists>j < Suc q. j \<noteq> i \<and> (\<exists>s. view m j a = Some (s, b_snoop_data (m_bus ?m'))))"
    proof (cases "view m q a")
      case None
      then show ?thesis using IH(5) bus by (auto simp: less_Suc_eq)
    next
      case (Some p)
      then show ?thesis using bus False by (cases p) auto
    qed
    moreover have "c_cache (core ?m' i) = c_cache (core m i)"
      using IH(6) False qn(2) by (simp add: core_upd_core)
    ultimately show ?thesis unfolding step eq by blast
  qed
qed

lemma snoop_write_spec:
  fixes a :: "32 word"
  assumes ok: "machine_ok n m" and k: "sint k = int i" and p: "p \<le> n"
  defines "m' \<equiv> foldl (snoop_core k a True) m [0..<p]"
  shows "machine_ok n m'
    \<and> (\<forall>j b. view m' j b = (if j < p \<and> j \<noteq> i \<and> line_base b = line_base a then None else view m j b))
    \<and> b_mem (m_bus m') = b_mem (m_bus m)
    \<and> c_cache (core m' i) = c_cache (core m i)"
  using p unfolding m'_def
proof (induction p)
  case 0
  then show ?case using ok by simp
next
  case (Suc q)
  define mq where "mq = foldl (snoop_core k a True) m [0..<q]"
  have IH: "machine_ok n mq"
    "\<And>j b. view mq j b = (if j < q \<and> j \<noteq> i \<and> line_base b = line_base a then None else view m j b)"
    "b_mem (m_bus mq) = b_mem (m_bus m)" "c_cache (core mq i) = c_cache (core m i)"
    using Suc unfolding mq_def by simp_all
  have step: "foldl (snoop_core k a True) m [0..<Suc q] = snoop_core k a True mq q"
    by (simp add: mq_def)
  show ?case
  proof (cases "q = i")
    case True
    then have "snoop_core k a True mq q = mq" using k by (simp add: snoop_core_def)
    with IH True show ?thesis unfolding step by (auto simp: less_Suc_eq)
  next
    case False
    have qn: "q < n" "q < length (m_cores mq)" using Suc.prems IH(1) by (simp_all add: machine_ok_def)
    have wf: "cache_wf (c_cache (core mq q))" using IH(1) qn by (simp add: machine_ok_def)
    let ?r = "CacheSnoop (c_cache (core mq q)) a True (m_bus mq)"
    let ?m' = "upd_bus (\<lambda>_. snd ?r) (upd_core q (\<lambda>c. c\<lparr>c_cache := fst ?r\<rparr>) mq)"
    have eq: "snoop_core k a True mq q = ?m'"
      using False k by (simp add: snoop_core_def split: prod.split)
    note r = CacheSnoop_write [OF wf, of a "m_bus mq"]
    have "machine_ok n ?m'" using machine_ok_set_cache [OF IH(1) qn(1), of "\<lambda>_. fst ?r"] r(1) by simp
    moreover have "view ?m' j b = (if j < Suc q \<and> j \<noteq> i \<and> line_base b = line_base a
        then None else view m j b)" for j b
      using view_set_cache [OF qn(2), of "\<lambda>_. fst ?r" j b] r(2) IH(2) [of j b] False
      by (auto simp: less_Suc_eq view_def)
    moreover have "b_mem (m_bus ?m') = b_mem (m_bus m)" using IH(3) r(3) by simp
    moreover have "c_cache (core ?m' i) = c_cache (core m i)"
      using IH(4) False qn(2) by (simp add: core_upd_core)
    ultimately show ?thesis unfolding step eq by blast
  qed
qed

section \<open>Loads\<close>

lemma CacheGetEmpty_spec:
  assumes wf: "cache_wf c" and ok: "CacheGetEmpty c bus = Inr (idx, c', bus')"
  shows "idx < CACHE_LINES" "cache_wf c'" "cl_state (c' ! idx) = MESI_INVALID"
    "cached c' b = None \<or> cached c' b = cached c b"
proof -
  have "idx < CACHE_LINES \<and> cache_wf c' \<and> cl_state (c' ! idx) = MESI_INVALID
    \<and> (cached c' b = None \<or> cached c' b = cached c b)"
  proof (cases "find (\<lambda>i. cl_state (c ! i) = MESI_INVALID) [0..<CACHE_LINES]")
    case (Some k)
    then have "idx = k" "c' = c" using ok by (simp_all add: CacheGetEmpty_def)
    moreover have "k < CACHE_LINES \<and> cl_state (c ! k) = MESI_INVALID"
      using Some by (auto simp: find_Some_iff)
    ultimately show ?thesis using wf by simp
  next
    case None
    let ?l = "(c ! 0)\<lparr>cl_state := MESI_INVALID, cl_address := 0\<rparr>"
    have k: "0 < CACHE_LINES" by simp
    have l: "cl_state ?l = MESI_INVALID" "length (cl_data ?l) = 2"
      using wf by (simp_all add: cache_wf_def)
    have "idx = 0" "c' = c[0 := ?l]"
      using ok None by (auto simp: CacheGetEmpty_def CacheEvictLine_def res_simps)
    then show ?thesis
      using cached_drop [OF wf k l] wf by (simp add: cache_wf_def)
  qed
  then show "idx < CACHE_LINES" "cache_wf c'" "cl_state (c' ! idx) = MESI_INVALID"
    "cached c' b = None \<or> cached c' b = cached c b" by blast+
qed

lemma read_line_length: "read_line mem base = Inr d \<Longrightarrow> length d = 2"
  by (auto simp: read_line_def res_simps)

lemma word_offset_less: "word_offset a < 2"
proof -
  have "a AND 7 \<le> 7" by (rule word_and_le1)
  then have "unat (a AND 7) \<le> 7" by (simp add: word_le_nat_alt)
  then show ?thesis by (simp add: word_offset_def)
qed

text \<open>A miss: the new line is shared when another core answered, exclusive otherwise.\<close>

lemma CacheLoad_miss:
  assumes ok: "machine_ok n m" and coh: "coherent n m" and i: "i < n"
    and load: "CacheLoad i a n m = Inr (w, m')" and miss: "view m i a = None"
  obtains st d where "machine_ok n m'" "w = d ! word_offset a" "length d = 2" "st \<noteq> MESI_INVALID"
    "\<And>b. line_base b = line_base a \<Longrightarrow> view m' i b = Some (st, d)"
    "\<And>b. line_base b \<noteq> line_base a \<Longrightarrow> view m' i b = None \<or> view m' i b = view m i b"
    "\<And>j b. j < n \<Longrightarrow> j \<noteq> i \<Longrightarrow> view m' j b = (if line_base b = line_base a
       then map_option (\<lambda>(s, d). (MESI_SHARED, d)) (view m j b) else view m j b)"
    "\<And>j s' d'. j < n \<Longrightarrow> j \<noteq> i \<Longrightarrow> view m j a = Some (s', d') \<Longrightarrow> st = MESI_SHARED \<and> d = d'"
proof -
  let ?c = "c_cache (core m i)"
  have find: "CacheFind ?c a = None" using miss by (simp add: view_def cached_def)
  from load find obtain idx c' bus' m1 m2 d st where
    ge: "CacheGetEmpty ?c (m_bus m) = Inr (idx, c', bus')"
    and m1: "m1 = upd_bus (\<lambda>_. bus'\<lparr>b_bus_rd := True, b_bus_rdx := False, b_snoop_addr := a,
                       b_snoop_core_id := c_core_id (core m i), b_snoop_hit := False,
                       b_snoop_data := [0, 0]\<rparr>)
                     (upd_core i (\<lambda>c. c\<lparr>c_cache := c'\<rparr>) m)"
    and m2: "m2 = CacheSnoopOtherCores n (c_core_id (core m i)) a False m1"
    and d: "(if b_snoop_hit (m_bus m2) then Inr (b_snoop_data (m_bus m2), MESI_SHARED)
                  else bnd (read_line (b_mem (m_bus m2)) (line_base a))
                         (\<lambda>d. Inr (d, MESI_EXCLUSIVE))) = Inr (d, st)"
    and w: "w = d ! word_offset a"
    and m': "m' = upd_core i (\<lambda>c. c\<lparr>c_cache := (c_cache c)[idx := (c_cache c ! idx)
                 \<lparr>cl_address := line_base a, cl_data := d, cl_state := st\<rparr>]\<rparr>) m2"
    by (auto simp: CacheLoad_def Let_def bnd_eq_Inr)
  have wf: "cache_wf ?c" and k: "sint (c_core_id (core m i)) = int i" and len: "i < length (m_cores m)"
    using ok i by (simp_all add: machine_ok_def)
  note g = CacheGetEmpty_spec [OF wf ge]
  have ok1: "machine_ok n m1"
    unfolding m1 using machine_ok_set_cache [OF ok i, of "\<lambda>_. c'"] g(2) by simp
  have view1: "view m1 j b = (if j = i then cached c' b else view m j b)" for j b
    unfolding m1 using view_set_cache [OF len, of "\<lambda>_. c'"] by simp
  have cache1: "c_cache (core m1 i) = c'" unfolding m1 using len by (simp add: core_upd_core)
  have hit1: "\<not> b_snoop_hit (m_bus m1)" unfolding m1 by simp
  note sn = snoop_read_spec [OF ok1 k order_refl, of a, folded CacheSnoopOtherCores_def, folded m2]
  have ok2: "machine_ok n m2" and cache2: "c_cache (core m2 i) = c'"
    and view2: "\<And>j b. j < n \<Longrightarrow> view m2 j b = (if j \<noteq> i \<and> line_base b = line_base a
       then map_option (\<lambda>(s, d). (MESI_SHARED, d)) (view m1 j b) else view m1 j b)"
    and hit: "b_snoop_hit (m_bus m2) \<longleftrightarrow> (\<exists>j < n. j \<noteq> i \<and> view m j a \<noteq> None)"
    and data: "b_snoop_hit (m_bus m2) \<Longrightarrow>
       \<exists>j < n. j \<noteq> i \<and> (\<exists>s. view m j a = Some (s, b_snoop_data (m_bus m2)))"
    using sn cache1 hit1 view1 by auto
  have len2: "i < length (m_cores m2)" using ok2 i by (simp add: machine_ok_def)
  have answer: "st = MESI_SHARED \<and> d = d'" if "j < n" "j \<noteq> i" "view m j a = Some (s', d')" for j s' d'
  proof -
    have h: "b_snoop_hit (m_bus m2)" using hit that by blast
    then obtain j2 s2 where j2: "j2 < n" "j2 \<noteq> i" "view m j2 a = Some (s2, d)" "st = MESI_SHARED"
      using data d by auto
    with coh that show ?thesis unfolding coherent_def by (cases "j = j2") fastforce+
  qed
  have ld: "length d = 2 \<and> st \<noteq> MESI_INVALID"
  proof (cases "b_snoop_hit (m_bus m2)")
    case True
    then obtain j s where j: "j < n" "view m j a = Some (s, d)" "st = MESI_SHARED" using data d by auto
    then have "cache_wf (c_cache (core m j))" using ok by (simp add: machine_ok_def)
    with j show ?thesis by (auto simp: view_def cached_Some cache_wf_def)
  next
    case False
    with d show ?thesis by (auto simp: bnd_eq_Inr dest: read_line_length)
  qed
  let ?l = "(c' ! idx)\<lparr>cl_address := line_base a, cl_data := d, cl_state := st\<rparr>"
  have "cached ?c a = None" using find by (simp add: cached_def)
  then have "cached c' a = None" using CacheGetEmpty_spec(4) [OF wf ge, of a] by auto
  then have no: "\<not> line_matches a (c' ! j)" if "j < CACHE_LINES" for j
    using that unfolding cached_None by blast
  have inv: "\<not> line_matches b (c' ! idx)" for b using g(3) by (simp add: line_matches_def)
  have l: "cl_address ?l = line_base a" "cl_state ?l \<noteq> MESI_INVALID" "length (cl_data ?l) = 2"
    using ld by simp_all
  note put = cached_put [OF g(2,1) l no]
  have m'': "m' = upd_core i (\<lambda>c. c\<lparr>c_cache := c'[idx := ?l]\<rparr>) m2"
    using m' cache2 by (simp add: upd_core_def core_def)
  have "machine_ok n m'"
    unfolding m'' using machine_ok_set_cache [OF ok2 i, of "\<lambda>_. c'[idx := ?l]"] put(1) by simp
  moreover have vi: "view m' i b = (if line_base b = line_base a then Some (st, d) else cached c' b)" for b
    unfolding m'' using view_set_cache [OF len2, of "\<lambda>_. c'[idx := ?l]" i b] put(2) [of b] inv by simp
  moreover have "view m' j b = (if line_base b = line_base a
       then map_option (\<lambda>(s, d). (MESI_SHARED, d)) (view m j b) else view m j b)"
    if "j < n" "j \<noteq> i" for j b
    unfolding m'' using view_set_cache [OF len2, of "\<lambda>_. c'[idx := ?l]" j b] view2 view1 that by simp
  moreover have "cached c' b = None \<or> cached c' b = view m i b" for b
    using CacheGetEmpty_spec(4) [OF wf ge, of b] by (simp add: view_def)
  ultimately show thesis
    using that [of d st] w ld answer by (simp add: vi)
qed

lemma CacheLoad_hit:
  assumes "view m i a = Some (s, d)"
  shows "CacheLoad i a n m = Inr (d ! word_offset a, m)"
  using assms by (auto simp: CacheLoad_def view_def cached_def)

text \<open>A load keeps the invariant and returns what the line holds.\<close>

lemma CacheLoad_coherent:
  assumes ok: "machine_ok n m" and coh: "coherent n m" and i: "i < n"
    and load: "CacheLoad i a n m = Inr (w, m')"
  shows "machine_ok n m'" "coherent n m'"
    "\<exists>s d. view m' i a = Some (s, d) \<and> w = d ! word_offset a \<and> length d = 2 \<and> s \<noteq> MESI_INVALID"
    "j < n \<Longrightarrow> j \<noteq> i \<Longrightarrow> view m j a = Some (s', d') \<Longrightarrow> w = d' ! word_offset a"
proof -
  have "machine_ok n m' \<and> coherent n m'
    \<and> (\<exists>s d. view m' i a = Some (s, d) \<and> w = d ! word_offset a \<and> length d = 2 \<and> s \<noteq> MESI_INVALID)
    \<and> (j < n \<longrightarrow> j \<noteq> i \<longrightarrow> view m j a = Some (s', d') \<longrightarrow> w = d' ! word_offset a)"
  proof (cases "view m i a")
    case (Some p)
    obtain s d where p: "p = (s, d)" by (cases p)
    have h: "w = d ! word_offset a" "m' = m" using load CacheLoad_hit [OF Some [unfolded p], of n] by simp_all
    have wf: "cache_wf (c_cache (core m i))" using ok i by (simp add: machine_ok_def)
    have "length d = 2 \<and> s \<noteq> MESI_INVALID"
      using Some p wf by (auto simp: view_def cached_Some cache_wf_def line_matches_def)
    moreover have "j < n \<longrightarrow> j \<noteq> i \<longrightarrow> view m j a = Some (s', d') \<longrightarrow> d = d'"
      using coh i Some p unfolding coherent_def by blast
    ultimately show ?thesis using ok coh h Some p by auto
  next
    case None
    obtain st d where
      r: "machine_ok n m'" "w = d ! word_offset a" "length d = 2" "st \<noteq> MESI_INVALID"
      and vi: "\<And>b. line_base b = line_base a \<Longrightarrow> view m' i b = Some (st, d)"
        "\<And>b. line_base b \<noteq> line_base a \<Longrightarrow> view m' i b = None \<or> view m' i b = view m i b"
      and vj: "\<And>j b. j < n \<Longrightarrow> j \<noteq> i \<Longrightarrow> view m' j b = (if line_base b = line_base a
         then map_option (\<lambda>(s, d). (MESI_SHARED, d)) (view m j b) else view m j b)"
      and ans: "\<And>j s' d'. j < n \<Longrightarrow> j \<noteq> i \<Longrightarrow> view m j a = Some (s', d') \<Longrightarrow> st = MESI_SHARED \<and> d = d'"
      by (rule CacheLoad_miss [OF ok coh i load None]) (rule that; assumption)
    have own: "s = MESI_SHARED \<and> t = MESI_SHARED \<and> e = f"
      if "j < n" "j \<noteq> i" "view m' i b = Some (s, e)" "view m' j b = Some (t, f)" for j b s t e f
    proof (cases "line_base b = line_base a")
      case True
      then have "view m j a = view m j b" by (rule view_same_line [symmetric])
      with that vj [OF that(1,2), of b] True ans [OF that(1,2)] vi(1) [OF True] show ?thesis by auto
    next
      case False
      with that vi(2) [OF False] vj [OF that(1,2), of b] coh i show ?thesis
        unfolding coherent_def by (metis option.distinct(1))
    qed
    have other: "s = MESI_SHARED \<and> t = MESI_SHARED \<and> e = f"
      if "j < n" "j \<noteq> i" "k < n" "k \<noteq> i" "j \<noteq> k" "view m' j b = Some (s, e)" "view m' k b = Some (t, f)"
      for j k b s t e f
    proof -
      note h = that
      note vv = vj [OF h(1,2), of b] vj [OF h(3,4), of b]
      have "\<exists>s0. view m j b = Some (s0, e)" "\<exists>t0. view m k b = Some (t0, f)"
        using h(6,7) vv by (auto split: if_splits)
      then obtain s0 t0 where v: "view m j b = Some (s0, e)" "view m k b = Some (t0, f)" by blast
      have "s0 = MESI_SHARED \<and> t0 = MESI_SHARED \<and> e = f"
        using coh h(1,3,5) v unfolding coherent_def by blast
      then show ?thesis using h(6,7) vv v by (auto split: if_splits)
    qed
    have "coherent n m'"
      unfolding coherent_def
    proof (intro allI impI)
      fix j k b s d s' d'
      assume h: "j < n" "k < n" "j \<noteq> k" "view m' j b = Some (s, d)" "view m' k b = Some (s', d')"
      consider "j = i" "k \<noteq> i" | "k = i" "j \<noteq> i" | "j \<noteq> i" "k \<noteq> i" using h(3) by blast
      then show "s = MESI_SHARED \<and> s' = MESI_SHARED \<and> d = d'"
      proof cases
        case 1
        with own [OF h(2) 1(2) _ h(5)] h(4) show ?thesis by simp
      next
        case 2
        with own [OF h(1) 2(2) _ h(4)] h(5) show ?thesis by simp
      next
        case 3
        show ?thesis by (rule other [OF h(1) 3(1) h(2) 3(2) h(3,4,5)])
      qed
    qed
    with r vi(1) [OF refl] ans show ?thesis by auto
  qed
  then show "machine_ok n m'" "coherent n m'"
    "\<exists>s d. view m' i a = Some (s, d) \<and> w = d ! word_offset a \<and> length d = 2 \<and> s \<noteq> MESI_INVALID"
    "j < n \<Longrightarrow> j \<noteq> i \<Longrightarrow> view m j a = Some (s', d') \<Longrightarrow> w = d' ! word_offset a" by blast+
qed

section \<open>Writes\<close>

lemma CacheWriteDirect_coherent:
  assumes ok: "machine_ok n m" and coh: "coherent n m" and i: "i < n"
    and wr: "CacheWriteDirect i a v n m = Inr m'"
  shows "machine_ok n m' \<and> coherent n m'
    \<and> (\<exists>d. view m' i a = Some (MESI_MODIFIED, d) \<and> d ! word_offset a = v \<and> length d = 2)"
proof -
  have "\<exists>m1 idx. machine_ok n m1 \<and> coherent n m1 \<and> CacheFind (c_cache (core m1 i)) a = Some idx
    \<and> m' = (let m2 = (if cl_state (c_cache (core m1 i) ! idx) = MESI_SHARED
                   then CacheSnoopOtherCores n (c_core_id (core m1 i)) a True
                     (upd_bus (\<lambda>bus. bus\<lparr>b_bus_rdx := True, b_bus_rd := False, b_snoop_addr := a,
                        b_snoop_hit := False, b_snoop_core_id := c_core_id (core m1 i)\<rparr>) m1)
                   else m1)
         in upd_core i (\<lambda>c. c\<lparr>c_cache := (c_cache c)[idx := (c_cache c ! idx)
              \<lparr>cl_data := (cl_data (c_cache c ! idx))[word_offset a := v],
               cl_state := MESI_MODIFIED\<rparr>]\<rparr>) m2)"
  proof (cases "CacheFind (c_cache (core m i)) a")
    case (Some idx)
    then show ?thesis
      using wr ok coh
      by (intro exI [of _ m] exI [of _ idx]) (simp add: CacheWriteDirect_def Let_def split: if_splits)
  next
    case None
    then obtain w m1 idx where l: "CacheLoad i a n m = Inr (w, m1)"
      and f: "CacheFind (c_cache (core m1 i)) a = Some idx"
      using wr by (auto simp: CacheWriteDirect_def Let_def res_simps split: option.splits)
    then show ?thesis
      using wr None CacheLoad_coherent(1,2) [OF ok coh i l]
      by (intro exI [of _ m1] exI [of _ idx]) (auto simp: CacheWriteDirect_def Let_def)
  qed
  then obtain m1 idx m2 where ok1: "machine_ok n m1" and coh1: "coherent n m1"
    and find: "CacheFind (c_cache (core m1 i)) a = Some idx"
    and m2: "m2 = (if cl_state (c_cache (core m1 i) ! idx) = MESI_SHARED
                   then CacheSnoopOtherCores n (c_core_id (core m1 i)) a True
                     (upd_bus (\<lambda>bus. bus\<lparr>b_bus_rdx := True, b_bus_rd := False, b_snoop_addr := a,
                        b_snoop_hit := False, b_snoop_core_id := c_core_id (core m1 i)\<rparr>) m1)
                   else m1)"
    and m': "m' = upd_core i (\<lambda>c. c\<lparr>c_cache := (c_cache c)[idx := (c_cache c ! idx)
              \<lparr>cl_data := (cl_data (c_cache c ! idx))[word_offset a := v],
               cl_state := MESI_MODIFIED\<rparr>]\<rparr>) m2"
    by (auto simp: Let_def)
  let ?c = "c_cache (core m1 i)"
  have wf: "cache_wf ?c" and k: "sint (c_core_id (core m1 i)) = int i"
    using ok1 i by (simp_all add: machine_ok_def)
  have hit: "idx < CACHE_LINES" "line_matches a (?c ! idx)" using find CacheFind_Some [OF wf] by auto
  have vi1: "view m1 i a = Some (cl_state (?c ! idx), cl_data (?c ! idx))"
    using find by (simp add: view_def cached_def)
  have s2: "machine_ok n m2 \<and> c_cache (core m2 i) = ?c
    \<and> (\<forall>j < n. j \<noteq> i \<longrightarrow> (\<forall>b. view m2 j b = (if line_base b = line_base a then None else view m1 j b)))"
  proof (cases "cl_state (?c ! idx) = MESI_SHARED")
    case True
    let ?mb = "upd_bus (\<lambda>bus. bus\<lparr>b_bus_rdx := True, b_bus_rd := False, b_snoop_addr := a,
                        b_snoop_hit := False, b_snoop_core_id := c_core_id (core m1 i)\<rparr>) m1"
    have "machine_ok n ?mb" using ok1 by simp
    note sn = snoop_write_spec [OF this k order_refl, of a, folded CacheSnoopOtherCores_def]
    show ?thesis using sn True by (simp add: m2)
  next
    case False
    have none: "view m1 j b = None" if h: "j < n" "j \<noteq> i" "line_base b = line_base a" for j b
    proof (rule ccontr)
      assume "view m1 j b \<noteq> None"
      then obtain s d where "view m1 j a = Some (s, d)"
        using view_same_line [OF h(3), of m1 j] by auto
      then show False using coh1 i h(1,2) vi1 False unfolding coherent_def by blast
    qed
    then show ?thesis using False ok1 by (simp add: m2)
  qed
  have len2: "i < length (m_cores m2)" using s2 i by (simp add: machine_ok_def)
  let ?l = "(?c ! idx)\<lparr>cl_data := (cl_data (?c ! idx))[word_offset a := v], cl_state := MESI_MODIFIED\<rparr>"
  have others: "\<not> line_matches a (?c ! j)" if "j < CACHE_LINES" "j \<noteq> idx" for j
    using that hit wf unfolding cache_wf_def line_matches_def by metis
  have l: "cl_address ?l = line_base a" "cl_state ?l \<noteq> MESI_INVALID" "length (cl_data ?l) = 2"
    using hit wf by (simp_all add: line_matches_def cache_wf_def)
  note put = cached_put [OF wf hit(1) l others]
  have m'': "m' = upd_core i (\<lambda>c. c\<lparr>c_cache := ?c[idx := ?l]\<rparr>) m2"
    using m' s2 by (simp add: upd_core_def core_def)
  have ok': "machine_ok n m'"
    unfolding m'' using machine_ok_set_cache [of n m2 i "\<lambda>_. ?c[idx := ?l]"] s2 i put(1) by simp
  have vi: "view m' i b = (if line_base b = line_base a then Some (MESI_MODIFIED, cl_data ?l)
      else view m1 i b)" for b
  proof -
    have "view m' i b = cached (?c[idx := ?l]) b"
      unfolding m'' using view_set_cache [OF len2, of "\<lambda>_. ?c[idx := ?l]" i b] by simp
    moreover have "line_base b \<noteq> line_base a \<Longrightarrow> \<not> line_matches b (?c ! idx)"
      using hit by (simp add: line_matches_def)
    ultimately show ?thesis using put(2) [of b] by (simp add: view_def)
  qed
  have vj: "view m' j b = (if line_base b = line_base a then None else view m1 j b)"
    if "j < n" "j \<noteq> i" for j b
    unfolding m'' using view_set_cache [OF len2, of "\<lambda>_. ?c[idx := ?l]" j b] s2 that by simp
  have "coherent n m'"
    unfolding coherent_def
  proof (intro allI impI)
    fix j k b s d s' d'
    assume jk: "j < n" "k < n" "j \<noteq> k" and h: "view m' j b = Some (s, d)" "view m' k b = Some (s', d')"
    have "line_base b \<noteq> line_base a"
      using h vj [OF jk(1), of b] vj [OF jk(2), of b] jk(3) by (cases "j = i") auto
    then have "view m1 j b = Some (s, d)" "view m1 k b = Some (s', d')"
      using h vi [of b] vj [OF jk(1), of b] vj [OF jk(2), of b] by (cases "j = i"; cases "k = i"; simp)+
    then show "s = MESI_SHARED \<and> s' = MESI_SHARED \<and> d = d'"
      using coh1 jk unfolding coherent_def by blast
  qed
  moreover have "cl_data ?l ! word_offset a = v"
    using wf hit(1) word_offset_less [of a] by (simp add: cache_wf_def)
  ultimately show ?thesis using ok' vi [of a] l(3) by simp
qed

text \<open>A load by any core right after a write sees the value written.\<close>

lemma write_then_load:
  assumes ok: "machine_ok n m" and coh: "coherent n m" and i: "i < n" and j: "j < n"
    and wr: "CacheWriteDirect i a v n m = Inr m1"
    and load: "CacheLoad j a n m1 = Inr (w, m2)"
  shows "w = v"
proof -
  obtain d where d: "machine_ok n m1" "coherent n m1" "view m1 i a = Some (MESI_MODIFIED, d)"
    "d ! word_offset a = v"
    using CacheWriteDirect_coherent [OF ok coh i wr] by blast
  show ?thesis
  proof (cases "j = i")
    case True
    then show ?thesis using load CacheLoad_hit [OF d(3), of n] d(4) by simp
  next
    case False
    then show ?thesis
      using CacheLoad_coherent(4) [OF d(1,2) j load i _ d(3)] d(4) by simp
  qed
qed

end
