(* ===== verification/ISA_Facts.thy ===== *)
theory ISA_Facts
  imports ISA_Mesi
begin

text \<open>
  Facts on the instruction format, on memory, on the store buffer and on the micro-operations of
  \<^verbatim>\<open>firmwareLearning/cpu_isa.c\<close>.
\<close>

unbundle bit_operations_syntax

section \<open>Instruction format\<close>

lemma opcode_num_less: "opcode_num opc < 15"
  by (cases opc) simp_all

lemma Decode_Encode:
  "Decode (Encode opc d s mo imm)
   = (word_of_nat (opcode_num opc), d AND 0x0F, s AND 0x0F, mo AND 0x03, imm AND 0x3FFF)"
proof -
  define k where "k = opcode_num opc"
  have "take_bit 4 k = k" unfolding k_def using opcode_num_less [of opc] by (intro take_bit_nat_eq_self) simp
  then have k: "bit k n \<Longrightarrow> n < 4" for n by (metis bit_take_bit_iff)
  have masks: "(0xFF :: 32 word) = mask 8" "(0x0F :: 32 word) = mask 4" "(0x03 :: 32 word) = mask 2"
    "(0x3FFF :: 32 word) = mask 14" "(0x0F :: 8 word) = mask 4" "(0x03 :: 8 word) = mask 2"
    "(0x3FFF :: 16 word) = mask 14"
    by (simp_all add: mask_eq_exp_minus_1)
  show ?thesis
    unfolding Decode_def Encode_def masks k_def [symmetric] prod.inject
  proof (intro conjI)
    show "ucast (drop_bit 24 (push_bit 24 (word_of_nat k AND mask 8) OR push_bit 20 (ucast d AND mask 4)
        OR push_bit 16 (ucast s AND mask 4) OR push_bit 14 (ucast mo AND mask 2)
        OR ucast imm AND mask 14) AND (mask 8 :: 32 word)) = (word_of_nat k :: 8 word)"
      by (rule bit_word_eqI) (auto simp: bit_simps dest: k bit_imp_le_length)
  qed (rule bit_word_eqI, auto simp: bit_simps dest: k bit_imp_le_length; fail)+
qed

section \<open>Memory\<close>

lemma word_of_bytes:
  fixes v :: "32 word"
  shows "ucast (ucast v :: 8 word) OR push_bit 8 (ucast (ucast (drop_bit 8 v) :: 8 word))
    OR push_bit 16 (ucast (ucast (drop_bit 16 v) :: 8 word))
    OR push_bit 24 (ucast (ucast (drop_bit 24 v) :: 8 word)) = v" (is "?w = v")
proof (rule bit_word_eqI)
  fix n
  assume "n < LENGTH(32)"
  then consider "n < 8" | "8 \<le> n" "n < 16" | "16 \<le> n" "n < 24" | "24 \<le> n" "n < 32"
    by fastforce
  then show "bit ?w n \<longleftrightarrow> bit v n"
    by cases (auto simp: bit_simps)
qed

lemma mem_read_write:
  assumes "mem_write mem a v = Inr mem'"
  shows "mem_read mem' a = Inr v"
    "unat b + 4 \<le> unat a \<or> unat a + 4 \<le> unat b \<Longrightarrow> mem_read mem' b = mem_read mem b"
proof -
  have m: "unat a + 4 \<le> MAIN_MEMORY_SIZE" "mem' = mem(unat a := ucast v, unat a + 1 := ucast (drop_bit 8 v),
                    unat a + 2 := ucast (drop_bit 16 v), unat a + 3 := ucast (drop_bit 24 v))"
    using assms by (auto simp: mem_write_def split: if_splits)
  show "mem_read mem' a = Inr v"
    using m word_of_bytes [of v] by (simp add: mem_read_def)
  show "mem_read mem' b = mem_read mem b" if "unat b + 4 \<le> unat a \<or> unat a + 4 \<le> unat b"
    using m that by (auto simp: mem_read_def)
qed

section \<open>Store buffer\<close>

definition sb_list :: "STORE_BUFFER \<Rightarrow> (32 word \<times> 32 word) list" where
  "sb_list sb = map (\<lambda>e. (sbe_addr e, sbe_data e)) (ring_list (sb_entries sb) (sb_head sb) (sb_count sb))"

definition sb_wf :: "STORE_BUFFER \<Rightarrow> bool" where
  "sb_wf sb \<longleftrightarrow> length (sb_entries sb) = STORE_BUFFER_SIZE \<and> sb_head sb < STORE_BUFFER_SIZE
     \<and> sb_count sb \<le> STORE_BUFFER_SIZE \<and> sb_tail sb = (sb_head sb + sb_count sb) mod STORE_BUFFER_SIZE"

lemma length_sb_list [simp]: "length (sb_list sb) = sb_count sb"
  by (simp add: sb_list_def)

lemma sb_push_list:
  assumes "sb_wf sb"
  shows "sb_wf (sb_push e sb)"
    "sb_list (sb_push e sb) = (if length (sb_list sb) < 4 then sb_list sb @ [e] else sb_list sb)"
proof -
  show "sb_wf (sb_push e sb)"
    using assms by (auto simp: sb_push_def sb_wf_def mod_simps)
  show "sb_list (sb_push e sb) = (if length (sb_list sb) < 4 then sb_list sb @ [e] else sb_list sb)"
    using assms ring_list_push [of "sb_count sb" "sb_entries sb" "sb_head sb"
        "\<lparr>sbe_addr = fst e, sbe_data = snd e, sbe_valid = True\<rparr>"]
    by (auto simp: sb_list_def sb_push_def sb_wf_def)
qed

lemma sb_pop_list:
  assumes "sb_wf sb"
  shows "sb_wf (snd (sb_pop sb))" "sb_list (snd (sb_pop sb)) = tl (sb_list sb)"
    "fst (sb_pop sb) = (case sb_list sb of [] \<Rightarrow> None | e # es \<Rightarrow> Some e)"
proof -
  have "sb_wf (snd (sb_pop sb)) \<and> sb_list (snd (sb_pop sb)) = tl (sb_list sb)
    \<and> fst (sb_pop sb) = (case sb_list sb of [] \<Rightarrow> None | e # es \<Rightarrow> Some e)"
  proof (cases "sb_count sb")
    case 0
    then show ?thesis using assms by (simp add: sb_pop_def sb_list_def)
  next
    case (Suc n)
    define es where "es = (sb_entries sb)[sb_head sb := (sb_entries sb ! sb_head sb)\<lparr>sbe_valid := False\<rparr>]"
    have len: "length (sb_entries sb) = 4" "sb_head sb < 4" using assms by (simp_all add: sb_wf_def)
    have same: "map (\<lambda>e. (sbe_addr e, sbe_data e)) (ring_list es h k)
      = map (\<lambda>e. (sbe_addr e, sbe_data e)) (ring_list (sb_entries sb) h k)" for h k
      by (rule nth_equalityI) (use len in \<open>auto simp: es_def nth_list_update\<close>)
    have "sb_list sb = (sbe_addr (sb_entries sb ! sb_head sb), sbe_data (sb_entries sb ! sb_head sb))
        # map (\<lambda>e. (sbe_addr e, sbe_data e)) (ring_list es (Suc (sb_head sb) mod 4) n)"
      unfolding same using Suc ring_list_Cons [of "sb_head sb" "sb_entries sb" n] len by (simp add: sb_list_def)
    moreover have "sb_wf (snd (sb_pop sb))"
      using Suc assms by (auto simp: sb_pop_def Let_def sb_wf_def mod_simps)
    moreover have "sb_list (snd (sb_pop sb)) = map (\<lambda>e. (sbe_addr e, sbe_data e)) (ring_list es (Suc (sb_head sb) mod 4) n)"
      using Suc by (simp add: sb_pop_def sb_list_def Let_def es_def)
    ultimately show ?thesis using Suc by (simp add: sb_pop_def Let_def)
  qed
  then show "sb_wf (snd (sb_pop sb))" "sb_list (snd (sb_pop sb)) = tl (sb_list sb)"
    "fst (sb_pop sb) = (case sb_list sb of [] \<Rightarrow> None | e # es \<Rightarrow> Some e)" by blast+
qed

interpretation sb: bounded_fifo sb_wf sb_list 4 "\<lambda>e sb. Inr (sb_push e sb)" sb_pop
proof
  show "length (sb_list q) \<le> 4" if "sb_wf q" for q using that by (simp add: sb_wf_def)
  show "\<exists>q'. Inr (sb_push x q) = Inr q' \<and> sb_wf q' \<and> sb_list q' = sb_list q @ [x]"
    if "sb_wf q" "length (sb_list q) < 4" for q x
    using that sb_push_list by simp
  show "sb_pop q = (None, q)" if "sb_wf q" "sb_list q = []" for q
    using that length_sb_list [of q] by (simp add: sb_pop_def)
  show "\<exists>q'. sb_pop q = (Some x, q') \<and> sb_wf q' \<and> sb_list q' = xs"
    if "sb_wf q" "sb_list q = x # xs" for q x xs
    using sb_pop_list [OF that(1)] that(2) by (cases "sb_pop q") simp
qed

section \<open>Draining in order\<close>

text \<open>The caches do not look at store buffers.\<close>

definition set_sb :: "nat \<Rightarrow> STORE_BUFFER \<Rightarrow> machine \<Rightarrow> machine" where
  "set_sb k sb = upd_core k (\<lambda>c. c\<lparr>c_store_buffer := sb\<rparr>)"

lemma set_sb_cache [simp]:
  "c_cache (core (set_sb k sb m) i) = c_cache (core m i)"
  "c_core_id (core (set_sb k sb m) i) = c_core_id (core m i)"
  "m_bus (set_sb k sb m) = m_bus m" "length (m_cores (set_sb k sb m)) = length (m_cores m)"
  unfolding set_sb_def core_def upd_core_def
  by (cases "k < length (m_cores m)"; cases "i = k"; simp add: list_update_beyond nth_list_update; fail)+

lemma set_sb_bus [simp]: "upd_bus g (set_sb k sb m) = set_sb k sb (upd_bus g m)"
  unfolding set_sb_def upd_core_def upd_bus_def by (cases m) simp

lemma set_sb_twice [simp]: "set_sb k sb (set_sb k sb' m) = set_sb k sb m"
  by (cases "k < length (m_cores m)") (simp_all add: set_sb_def upd_core_def list_update_beyond)

lemma set_sb_upd [simp]:
  assumes "\<And>c. f (c\<lparr>c_store_buffer := sb\<rparr>) = (f c)\<lparr>c_store_buffer := sb\<rparr>"
  shows "upd_core i f (set_sb k sb m) = set_sb k sb (upd_core i f m)"
proof (cases "k < length (m_cores m)")
  case True
  with assms show ?thesis
    by (cases "i = k") (simp_all add: set_sb_def upd_core_def list_update_swap)
next
  case False
  then show ?thesis by (simp add: set_sb_def upd_core_def list_update_beyond)
qed

lemma set_sb_snoop [simp]:
  "CacheSnoopOtherCores n c a w (set_sb k sb m) = set_sb k sb (CacheSnoopOtherCores n c a w m)"
proof -
  have one: "snoop_core c a w (set_sb k sb m) j = set_sb k sb (snoop_core c a w m j)" for m j
    by (simp add: snoop_core_def split: prod.split)
  show ?thesis unfolding CacheSnoopOtherCores_def by (induction n) (simp_all add: one)
qed

lemma set_sb_load:
  "CacheLoad i a n (set_sb k sb m) = bnd (CacheLoad i a n m) (\<lambda>(v, m1). Inr (v, set_sb k sb m1))"
  by (auto simp: CacheLoad_def Let_def bnd_assoc split: option.split cong: if_cong intro!: bnd_cong)

lemma set_sb_write:
  "CacheWriteDirect i a v n (set_sb k sb m) = bnd (CacheWriteDirect i a v n m) (\<lambda>m1. Inr (set_sb k sb m1))"
  by (auto simp: CacheWriteDirect_def set_sb_load Let_def bnd_assoc split: option.split cong: if_cong intro!: bnd_cong)

lemma write_keeps_buffer:
  assumes "CacheWriteDirect i a v n m = Inr m1"
  shows "length (m_cores m1) = length (m_cores m)"
    "k < length (m_cores m) \<Longrightarrow> c_store_buffer (core m1 k) = c_store_buffer (core m k)"
proof -
  note eq = no_cache_store_buffer [OF no_cache_write [OF assms]]
  then show len: "length (m_cores m1) = length (m_cores m)" by (rule map_eq_imp_length_eq)
  show "k < length (m_cores m) \<Longrightarrow> c_store_buffer (core m1 k) = c_store_buffer (core m k)"
    using eq len unfolding core_def by (metis nth_map)
qed

text \<open>The entries of a buffer written to the cache one after the other.\<close>

fun write_all :: "nat \<Rightarrow> nat \<Rightarrow> (32 word \<times> 32 word) list \<Rightarrow> machine \<Rightarrow> machine res" where
  "write_all i n [] m = Inr m"
| "write_all i n ((a, v) # es) m = bnd (CacheWriteDirect i a v n m) (write_all i n es)"

lemma write_all_append:
  "write_all i n (es @ fs) m = bnd (write_all i n es m) (write_all i n fs)"
  by (induction es arbitrary: m) (auto simp: bnd_assoc intro!: bnd_cong)

lemma set_sb_write_all:
  "write_all i n es (set_sb k sb m) = bnd (write_all i n es m) (\<lambda>m1. Inr (set_sb k sb m1))"
  by (induction es arbitrary: m) (auto simp: set_sb_write bnd_assoc intro!: bnd_cong)

lemma Flush_write_all:
  assumes "i < length (m_cores m)" "sb_wf (c_store_buffer (core m i))"
    "sb_list (c_store_buffer (core m i)) = es"
  shows "\<exists>sb'. sb_wf sb' \<and> sb_list sb' = []
    \<and> FlushStoreBuffer i n m = bnd (write_all i n es m) (\<lambda>m1. Inr (set_sb i sb' m1))"
  using assms
proof (induction es arbitrary: m)
  case Nil
  let ?sb = "c_store_buffer (core m i)"
  have c: "sb_count ?sb = 0" using Nil.prems(3) by (metis length_sb_list list.size(3))
  then have "FlushStoreBuffer i n m = Inr m"
    using Nil.prems by (subst FlushStoreBuffer.simps) simp
  moreover have "set_sb i ?sb m = m"
    using Nil.prems(1) by (simp add: set_sb_def upd_core_def core_def)
  ultimately show ?case using Nil.prems by (intro exI [of _ ?sb]) simp
next
  case (Cons e es)
  let ?sb = "c_store_buffer (core m i)"
  obtain a v where e: "e = (a, v)" by (cases e)
  from sb.pop_Cons [OF Cons.prems(2) Cons.prems(3)] obtain sb1 where
    p: "sb_pop ?sb = (Some (a, v), sb1)" "sb_wf sb1" "sb_list sb1 = es" using e by blast
  have "sb_count ?sb > 0" using Cons.prems(3) length_sb_list [of ?sb] by simp
  then have F: "FlushStoreBuffer i n m = bnd (DrainStoreBuffer i n m) (FlushStoreBuffer i n)"
    using Cons.prems(1) by (subst FlushStoreBuffer.simps) simp
  have D: "DrainStoreBuffer i n m = bnd (CacheWriteDirect i a v n m) (\<lambda>m1. Inr (set_sb i sb1 m1))"
  proof -
    have "upd_core i (\<lambda>c. c\<lparr>c_store_buffer := snd (sb_pop (c_store_buffer c))\<rparr>) m1 = set_sb i sb1 m1"
      if "CacheWriteDirect i a v n m = Inr m1" for m1
      using write_keeps_buffer(2) [OF that Cons.prems(1)] p(1)
      by (simp add: set_sb_def upd_core_def core_def)
    then show ?thesis using p(1) by (auto simp: DrainStoreBuffer_def intro!: bnd_cong)
  qed
  show ?case
  proof (cases "CacheWriteDirect i a v n m")
    case (Inl x)
    then show ?thesis using F D e p Cons.prems(2) sb_pop_list by (intro exI [of _ "zero_store_buffer"])
      (simp add: sb_wf_def zero_store_buffer_def sb_list_def)
  next
    case (Inr m1)
    let ?m = "set_sb i sb1 m1"
    have i: "i < length (m_cores m1)" using write_keeps_buffer(1) [OF Inr] Cons.prems(1) by simp
    then have b: "c_store_buffer (core ?m i) = sb1" by (simp add: set_sb_def core_upd_core)
    from Cons.IH [of ?m] i b p obtain sb' where
      s: "sb_wf sb'" "sb_list sb' = []"
      "FlushStoreBuffer i n ?m = bnd (write_all i n es ?m) (\<lambda>m1. Inr (set_sb i sb' m1))" by auto
    then show ?thesis
      using F D Inr e by (intro exI [of _ sb']) (simp add: set_sb_write_all bnd_assoc)
  qed
qed

lemma view_set_sb [simp]: "view (set_sb k sb m) i a = view m i a"
  by (simp add: view_def)

lemma coherent_set_sb [simp]:
  "machine_ok n (set_sb k sb m) = machine_ok n m" "coherent n (set_sb k sb m) = coherent n m"
  by (simp_all add: machine_ok_def coherent_def)

lemma write_all_coherent:
  "machine_ok n m \<Longrightarrow> coherent n m \<Longrightarrow> i < n \<Longrightarrow> write_all i n es m = Inr m' \<Longrightarrow>
   machine_ok n m' \<and> coherent n m'"
proof (induction i n es m rule: write_all.induct)
  case (2 i n a v es m)
  then obtain m1 where "CacheWriteDirect i a v n m = Inr m1" "write_all i n es m1 = Inr m'"
    by (auto simp: res_simps)
  with 2 CacheWriteDirect_coherent [OF "2.prems"(1-3)] show ?case by blast
qed simp

text \<open>A store, a fence and then a load of the same address by any core.\<close>

lemma store_fence_load:
  assumes ok: "machine_ok n m" and coh: "coherent n m" and i: "i < n" and j: "j < n"
    and sb: "sb_wf (c_store_buffer (core m i))" "sb_count (c_store_buffer (core m i)) < 4"
    and flush: "FlushStoreBuffer i n (CacheWrite i a v m) = Inr m1"
    and load: "CacheLoad j a n m1 = Inr (w, m2)"
  shows "w = v"
proof -
  let ?sb = "c_store_buffer (core m i)"
  have len: "i < length (m_cores m)" using ok i by (simp add: machine_ok_def)
  have cw: "CacheWrite i a v m = set_sb i (sb_push (a, v) ?sb) m"
    by (simp add: CacheWrite_def StoreBufferPush_def set_sb_def upd_core_def core_def)
  let ?m = "CacheWrite i a v m"
  have b: "c_store_buffer (core ?m i) = sb_push (a, v) ?sb"
    using len by (simp add: cw set_sb_def core_upd_core)
  have "sb_wf (c_store_buffer (core ?m i))" "sb_list (c_store_buffer (core ?m i)) = sb_list ?sb @ [(a, v)]"
    using sb_push_list [OF sb(1), of "(a, v)"] sb(2) by (simp_all add: b)
  then obtain sb' where f: "FlushStoreBuffer i n ?m
      = bnd (write_all i n (sb_list ?sb @ [(a, v)]) ?m) (\<lambda>m1. Inr (set_sb i sb' m1))"
    using Flush_write_all [of i ?m _ n] len cw by auto
  then obtain m3 m4 where w: "write_all i n (sb_list ?sb) ?m = Inr m3"
    "CacheWriteDirect i a v n m3 = Inr m4" "m1 = set_sb i sb' m4"
    using trans [OF f [symmetric] flush] by (auto simp: write_all_append res_simps)
  have c3: "machine_ok n m3" "coherent n m3"
    using write_all_coherent [OF _ _ i w(1)] ok coh cw by simp_all
  obtain m5 where "CacheLoad j a n m4 = Inr (w, m5)"
    using load w(3) by (auto simp: set_sb_load res_simps)
  then show ?thesis by (rule write_then_load [OF c3 i j w(2)])
qed

section \<open>The locked bus\<close>

text \<open>
  The micro-operations between the locking and the unlocking of the bus. A core in one of them
  owns the locked bus, so no two cores are; and a locked bus always has such a core.
\<close>

definition in_locked :: "MICRO_OP \<Rightarrow> bool" where
  "in_locked op \<longleftrightarrow> op \<in> {LOCK_INC_LOAD, LOCK_INC_STORE, CMPXCHG_LOAD, CMPXCHG_COMPARE,
     CMPXCHG_STORE, CMPXCHG_FAIL}"

definition lock_ok :: "machine \<Rightarrow> bool" where
  "lock_ok m \<longleftrightarrow> length (m_cores m) = NUM_CORES
     \<and> (\<forall>i < NUM_CORES. c_core_id (core m i) = word_of_nat i)
     \<and> (\<forall>i < NUM_CORES. in_locked (c_micro_op (core m i)) \<longrightarrow>
          b_locked (m_bus m) \<and> b_locked_owner (m_bus m) = word_of_nat i)
     \<and> (b_locked (m_bus m) \<longrightarrow> (\<exists>i < NUM_CORES. in_locked (c_micro_op (core m i))))"

text \<open>What \<open>lock_ok\<close> looks at.\<close>

definition lock_view :: "machine \<Rightarrow> (MICRO_OP \<times> 32 word) list \<times> bool \<times> 32 word" where
  "lock_view m = (map (\<lambda>c. (c_micro_op c, c_core_id c)) (m_cores m),
     b_locked (m_bus m), b_locked_owner (m_bus m))"

lemma lock_view_upd [simp]:
  "(\<And>c. c_micro_op (f c) = c_micro_op c \<and> c_core_id (f c) = c_core_id c) \<Longrightarrow>
   lock_view (upd_core i f m) = lock_view m"
  "(\<And>b. b_locked (g b) = b_locked b \<and> b_locked_owner (g b) = b_locked_owner b) \<Longrightarrow>
   lock_view (upd_bus g m) = lock_view m"
  by (simp_all add: lock_view_def upd_core_def upd_bus_def map_update_same)

lemma lock_view_op:
  assumes "c_core_id (f (core m i)) = c_core_id (core m i)"
  shows "lock_view (upd_core i f m) = (let (ops, lock) = lock_view m
    in (ops[i := (c_micro_op (f (core m i)), c_core_id (core m i))], lock))"
  using assms by (simp add: lock_view_def upd_core_def core_def map_update)

lemma lock_view_core:
  assumes "lock_view m' = lock_view m"
  shows "length (m_cores m') = length (m_cores m)" "b_locked (m_bus m') = b_locked (m_bus m)"
    "b_locked_owner (m_bus m') = b_locked_owner (m_bus m)"
    "i < length (m_cores m) \<Longrightarrow> c_micro_op (core m' i) = c_micro_op (core m i)"
    "i < length (m_cores m) \<Longrightarrow> c_core_id (core m' i) = c_core_id (core m i)"
proof -
  have eq: "map (\<lambda>c. (c_micro_op c, c_core_id c)) (m_cores m')
      = map (\<lambda>c. (c_micro_op c, c_core_id c)) (m_cores m)"
    "b_locked (m_bus m') = b_locked (m_bus m)" "b_locked_owner (m_bus m') = b_locked_owner (m_bus m)"
    using assms by (simp_all add: lock_view_def)
  then show "length (m_cores m') = length (m_cores m)" "b_locked (m_bus m') = b_locked (m_bus m)"
    "b_locked_owner (m_bus m') = b_locked_owner (m_bus m)" by (auto dest: map_eq_imp_length_eq)
  have "i < length (m_cores m) \<Longrightarrow> (c_micro_op (core m' i), c_core_id (core m' i))
      = (c_micro_op (core m i), c_core_id (core m i))"
    using eq(1) map_eq_imp_length_eq [OF eq(1)] unfolding core_def by (metis (mono_tags, lifting) nth_map)
  then show "i < length (m_cores m) \<Longrightarrow> c_micro_op (core m' i) = c_micro_op (core m i)"
    "i < length (m_cores m) \<Longrightarrow> c_core_id (core m' i) = c_core_id (core m i)" by simp_all
qed

lemma lock_ok_cong:
  assumes "lock_view m' = lock_view m"
  shows "lock_ok m' = lock_ok m"
  using lock_view_core [OF assms] unfolding lock_ok_def by (auto cong: conj_cong)

lemma CacheSnoop_lock:
  "b_locked (snd (CacheSnoop c a w bus)) = b_locked bus
   \<and> b_locked_owner (snd (CacheSnoop c a w bus)) = b_locked_owner bus"
  by (simp add: CacheSnoop_def Let_def split: option.split)

lemma lock_view_snoop [simp]: "lock_view (CacheSnoopOtherCores n k a w m) = lock_view m"
proof -
  have one: "lock_view (snoop_core k a w m j) = lock_view m" for m j
    using CacheSnoop_lock [of "c_cache (core m j)" a w "m_bus m"]
    by (auto simp: snoop_core_def lock_view_def upd_core_def upd_bus_def map_update_same split: prod.split)
  show ?thesis unfolding CacheSnoopOtherCores_def by (induction n) (simp_all add: one)
qed

lemma CacheGetEmpty_lock:
  "CacheGetEmpty c bus = Inr (k, c', bus') \<Longrightarrow>
   b_locked bus' = b_locked bus \<and> b_locked_owner bus' = b_locked_owner bus"
  by (auto simp: CacheGetEmpty_def CacheEvictLine_def res_simps split: option.splits if_splits)

lemma lock_view_bus:
  "b_locked b = b_locked (m_bus m) \<Longrightarrow> b_locked_owner b = b_locked_owner (m_bus m) \<Longrightarrow>
   lock_view (upd_bus (\<lambda>_. b) m) = lock_view m"
  by (simp add: lock_view_def upd_bus_def)

lemma lock_view_load: "CacheLoad i a n m = Inr (v, m') \<Longrightarrow> lock_view m' = lock_view m"
  by (auto simp: CacheLoad_def Let_def res_simps lock_view_bus
    dest!: CacheGetEmpty_lock split: option.splits if_splits)

lemma lock_view_write: "CacheWriteDirect i a v n m = Inr m' \<Longrightarrow> lock_view m' = lock_view m"
  by (auto simp: CacheWriteDirect_def Let_def res_simps dest!: lock_view_load
    split: option.splits if_splits)

lemma lock_view_store [simp]: "lock_view (CacheWrite i a v m) = lock_view m"
  by (simp add: CacheWrite_def StoreBufferPush_def)

lemma lock_view_drain: "DrainStoreBuffer i n m = Inr m' \<Longrightarrow> lock_view m' = lock_view m"
  by (auto simp: DrainStoreBuffer_def res_simps dest!: lock_view_write split: option.splits)

lemma lock_view_flush: "FlushStoreBuffer i n m = Inr m' \<Longrightarrow> lock_view m' = lock_view m"
proof (induction i n m rule: FlushStoreBuffer.induct)
  case (1 i n m)
  from "1.prems" show ?case
    using "1.IH" by (subst (asm) FlushStoreBuffer.simps)
      (auto simp: res_simps split: if_splits dest: lock_view_drain)
qed

lemma upd_bus_lock_view:
  "lock_view (upd_bus g m) = (fst (lock_view m), b_locked (g (m_bus m)), b_locked_owner (g (m_bus m)))"
  by (simp add: lock_view_def)

lemma lock_view_core_op:
  assumes "i < length (m_cores m)" "fst (lock_view m1) = fst (lock_view m)"
    and "c_core_id (f (core m1 i)) = c_core_id (core m1 i)"
  shows "lock_view (upd_core i f m1)
    = ((fst (lock_view m))[i := (c_micro_op (f (core m1 i)), c_core_id (core m i))], snd (lock_view m1))"
proof -
  have "map (\<lambda>c. (c_micro_op c, c_core_id c)) (m_cores m1)
      = map (\<lambda>c. (c_micro_op c, c_core_id c)) (m_cores m)" using assms(2) by (simp add: lock_view_def)
  then have "c_core_id (core m1 i) = c_core_id (core m i)"
    using assms(1) unfolding core_def
    by (metis (mono_tags, lifting) length_map nth_map prod.inject)
  then show ?thesis
    using assms(2,3) by (simp add: lock_view_def upd_core_def core_def map_update)
qed

text \<open>The micro-operations that lock and unlock the bus.\<close>

definition locks :: "MICRO_OP \<Rightarrow> bool" where
  "locks op \<longleftrightarrow> op = LOCK_INC_ADDR \<or> op = CMPXCHG_ADDR"

definition unlocks :: "MICRO_OP \<Rightarrow> bool" where
  "unlocks op \<longleftrightarrow> op = LOCK_INC_STORE \<or> op = CMPXCHG_STORE \<or> op = CMPXCHG_FAIL"

lemma decode_not_locked: "\<not> in_locked (decode_target opc DECODE)"
proof (cases "unat opc < 15")
  case True
  then have "unat opc \<in> set [0..<15]" by simp
  then show ?thesis by (auto simp: upt_rec [of _ 15] decode_target_def Let_def in_locked_def)
qed (simp add: decode_target_def Let_def in_locked_def)

lemma exec_op_lock_view:
  assumes i: "i < length (m_cores m)" and s: "exec_op op i m = Inr m'"
    and op: "c_micro_op (core m i) = op"
  defines "k \<equiv> c_core_id (core m i)"
  shows "\<exists>op'. (in_locked op' \<longleftrightarrow> locks op \<or> in_locked op \<and> \<not> unlocks op)
    \<and> lock_view m' = ((fst (lock_view m))[i := (op', k)],
        if locks op then (True, k) else if unlocks op then (False, -1) else snd (lock_view m))"
proof -
  note rules = upd_bus_lock_view lock_view_core_op [OF i, folded k_def]
  have bus: "snd (lock_view m1) = snd (lock_view m)" if "lock_view m1 = lock_view m" for m1
    using that by simp
  have plain: ?thesis
    if "m' = upd_core i f m1" "lock_view m1 = lock_view m" "\<not> locks op" "\<not> unlocks op"
      "c_core_id (f (core m1 i)) = c_core_id (core m1 i)"
      "in_locked (c_micro_op (f (core m1 i))) = in_locked op" for f m1
    using that rules(2) [of m1 f] by (intro exI [of _ "c_micro_op (f (core m1 i))"]) simp
  have load: ?thesis
    if "load_temp i op' m = Inr m'" "\<not> locks op" "\<not> unlocks op" "in_locked op' = in_locked op" for op'
  proof -
    note h = that
    obtain v m1 where l: "CacheLoad i (c_addr (core m i)) NUM_CORES m = Inr (v, m1)"
      and m': "m' = upd_core i (\<lambda>c. c\<lparr>c_temp_val := v, c_micro_op := op'\<rparr>) m1"
      using h(1) by (auto simp: load_temp_def res_simps)
    show ?thesis by (rule plain [OF m' lock_view_load [OF l]]) (use h in simp_all)
  qed
  have one: ?thesis
    if "m' = upd_core i f m1" "fst (lock_view m1) = fst (lock_view m)"
      "snd (lock_view m1) = (if locks op then (True, k) else if unlocks op then (False, -1) else snd (lock_view m))"
      "c_core_id (f (core m1 i)) = c_core_id (core m1 i)"
      "in_locked (c_micro_op (f (core m1 i))) \<longleftrightarrow> locks op \<or> in_locked op \<and> \<not> unlocks op" for f m1
    using that rules(2) [of m1 f] by (intro exI [of _ "c_micro_op (f (core m1 i))"]) simp
  have two: ?thesis
    if "m' = upd_bus g (upd_core i f m1)" "lock_view m1 = lock_view m" "unlocks op" "\<not> locks op"
      "b_locked (g (m_bus m1)) = False" "b_locked_owner (g (m_bus m1)) = -1"
      "c_core_id (f (core m1 i)) = c_core_id (core m1 i)" "c_micro_op (f (core m1 i)) = FETCH" for f g m1
    using that rules(2) [of m1 f] by (intro exI [of _ FETCH]) (simp add: rules(1) in_locked_def)
  have rest: ?thesis
    if "Inr (upd_core i f m) = Inr m'" "\<not> locks op" "\<not> unlocks op" "\<not> in_locked op"
      "c_core_id (f (core m i)) = c_core_id (core m i)" "\<not> in_locked (c_micro_op (f (core m i)))" for f
    using that by (intro plain [of f m]) simp_all
  show ?thesis
  proof (cases op)
    case FETCH
    with s obtain ins where "m' = upd_core i (\<lambda>c. c\<lparr>c_current_instr := ins, c_pc := c_pc c + 4,
      c_micro_op := DECODE\<rparr>) m" by (auto simp: res_simps)
    then show ?thesis by (rule plain) (simp_all add: FETCH locks_def unlocks_def in_locked_def)
  next
    case DECODE
    with s obtain opc dest src mode imm where "m' = upd_core i (\<lambda>c. c\<lparr>c_opc := opc, c_dest := dest,
      c_src := src, c_mode := mode, c_imm := imm, c_micro_op := decode_target opc (c_micro_op c)\<rparr>) m"
      by (auto split: prod.splits)
    then show ?thesis
      by (rule plain) (use op in \<open>simp_all add: DECODE locks_def unlocks_def decode_not_locked in_locked_def [of DECODE]\<close>)
  next
    case LOAD_MEM
    show ?thesis by (rule load [of LOAD_WB]) (use s in \<open>simp_all add: LOAD_MEM locks_def unlocks_def in_locked_def\<close>)
  next
    case LOCK_INC_LOAD
    show ?thesis by (rule load [of LOCK_INC_STORE]) (use s in \<open>simp_all add: LOCK_INC_LOAD locks_def unlocks_def in_locked_def\<close>)
  next
    case CMPXCHG_LOAD
    show ?thesis by (rule load [of CMPXCHG_COMPARE]) (use s in \<open>simp_all add: CMPXCHG_LOAD locks_def unlocks_def in_locked_def\<close>)
  next
    case FENCE_EXEC
    with s obtain m1 where l: "lock_view m1 = lock_view m" and "m' = go i FETCH m1"
      by (auto simp: res_simps dest: lock_view_flush)
    then have "m' = upd_core i (\<lambda>c. c\<lparr>c_micro_op := FETCH\<rparr>) m1" by (simp add: go_def)
    then show ?thesis by (rule plain) (use l in \<open>simp_all add: FENCE_EXEC locks_def unlocks_def in_locked_def\<close>)
  next
    case STORE_MEM
    with s have "m' = upd_core i (\<lambda>c. c\<lparr>c_micro_op := FETCH\<rparr>)
      (CacheWrite i (c_addr (core m i)) (c_regs (core m i) ! unat (c_dest (core m i))) m)"
      by (simp add: go_def)
    then show ?thesis by (rule plain) (simp_all add: STORE_MEM locks_def unlocks_def in_locked_def)
  next
    case LOCK_INC_ADDR
    with s have "m' = upd_core i (\<lambda>c. c\<lparr>c_addr := operand_addr c, c_micro_op := LOCK_INC_LOAD\<rparr>)
      (lock_bus i m)" by simp
    then show ?thesis
      by (rule one) (simp_all add: LOCK_INC_ADDR lock_bus_def rules(1) locks_def unlocks_def in_locked_def k_def del: lock_view_upd(2))
  next
    case CMPXCHG_ADDR
    with s have "m' = upd_core i (\<lambda>c. c\<lparr>c_addr := operand_addr c, c_micro_op := CMPXCHG_LOAD\<rparr>)
      (lock_bus i m)" by simp
    then show ?thesis
      by (rule one) (simp_all add: CMPXCHG_ADDR lock_bus_def rules(1) locks_def unlocks_def in_locked_def k_def del: lock_view_upd(2))
  next
    case LOCK_INC_STORE
    define m1 where "m1 = CacheWrite i (c_addr (core m i)) (c_temp_val (core m i) + 1)
      (upd_core i (\<lambda>c. c\<lparr>c_temp_val := c_temp_val c + 1\<rparr>) m)"
    have "m' = upd_core i (\<lambda>c. c\<lparr>c_micro_op := FETCH\<rparr>) (unlock_bus m1)"
      using s LOCK_INC_STORE by (simp add: m1_def go_def)
    then show ?thesis
      by (rule one) (simp_all add: LOCK_INC_STORE m1_def unlock_bus_def rules(1) locks_def unlocks_def in_locked_def del: lock_view_upd(2))
  next
    case CMPXCHG_FAIL
    with s have "m' = upd_core i (\<lambda>c. c\<lparr>c_micro_op := FETCH\<rparr>) (unlock_bus m)" by (simp add: go_def)
    then show ?thesis
      by (rule one) (simp_all add: CMPXCHG_FAIL unlock_bus_def rules(1) locks_def unlocks_def in_locked_def del: lock_view_upd(2))
  next
    case CMPXCHG_STORE
    define m1 where "m1 = CacheWrite i (c_addr (core m i)) (c_regs (core m i) ! unat (c_dest (core m i))) m"
    have "m' = upd_bus (\<lambda>b. b\<lparr>b_locked := False, b_locked_owner := -1\<rparr>)
      (upd_core i (\<lambda>c. c\<lparr>c_zero_flag := True, c_micro_op := FETCH\<rparr>) m1)"
      using s CMPXCHG_STORE by (simp add: m1_def unlock_bus_def)
    then show ?thesis by (rule two) (simp_all add: CMPXCHG_STORE m1_def locks_def unlocks_def)
  next
    case CMPXCHG_COMPARE
    with s have "m' = upd_core i (\<lambda>c.
      if c_temp_val c = c_regs c ! EXP then c\<lparr>c_micro_op := CMPXCHG_STORE\<rparr>
      else (set_reg EXP (c_temp_val c) c)\<lparr>c_zero_flag := False, c_micro_op := CMPXCHG_FAIL\<rparr>) m" by simp
    then show ?thesis by (rule plain) (simp_all add: CMPXCHG_COMPARE locks_def unlocks_def in_locked_def set_reg_def)
  next
    case HALT_EXEC
    with s have "m' = upd_core i (\<lambda>c. c\<lparr>c_halted := True\<rparr>) m" by simp
    then show ?thesis by (rule plain) (use op in \<open>simp_all add: HALT_EXEC locks_def unlocks_def in_locked_def\<close>)
  qed ((rule rest, rule trans [OF _ s], erule ssubst, rule sym, rule exec_op.simps,
      simp_all add: locks_def unlocks_def in_locked_def set_reg_def jump_if_def Let_def; fail)+)
qed

lemma lock_ok_step:
  assumes ok: "lock_ok m" and i: "i < NUM_CORES" and s: "Step i m = Inr m'"
  shows "lock_ok m'"
proof (cases "c_halted (core m i) \<or> b_locked (m_bus m) \<and> b_locked_owner (m_bus m) \<noteq> c_core_id (core m i)")
  case True
  then have "m' = m" using s by (auto simp: Step_def split: if_splits)
  then show ?thesis using ok by simp
next
  case False
  have len: "length (m_cores m) = NUM_CORES" using ok by (simp add: lock_ok_def)
  define op where "op = c_micro_op (core m i)"
  have ex: "exec_op op i m = Inr m'" using s False by (auto simp: Step_def op_def split: if_splits)
  have il: "i < length (m_cores m)" using i len by simp
  from exec_op_lock_view [OF il ex op_def [symmetric]] obtain op' where op': "in_locked op' \<longleftrightarrow> locks op \<or> in_locked op \<and> \<not> unlocks op"
    "lock_view m' = ((fst (lock_view m))[i := (op', c_core_id (core m i))],
        if locks op then (True, c_core_id (core m i)) else if unlocks op then (False, -1) else snd (lock_view m))" by blast
  have id: "c_core_id (core m i) = word_of_nat i" using ok i by (simp add: lock_ok_def)
  have len': "length (m_cores m') = NUM_CORES"
    using arg_cong [OF op'(2), of "\<lambda>x. length (fst x)"] len by (simp add: lock_view_def)
  have nth: "(c_micro_op (core m' j), c_core_id (core m' j))
      = (if j = i then (op', word_of_nat i) else (c_micro_op (core m j), c_core_id (core m j)))"
    if "j < NUM_CORES" for j
  proof -
    let ?f = "\<lambda>c. (c_micro_op c, c_core_id c)"
    have "map ?f (m_cores m') = (map ?f (m_cores m)) [i := (op', word_of_nat i)]"
      using op'(2) id by (simp add: lock_view_def)
    then have "map ?f (m_cores m') ! j = (map ?f (m_cores m)) [i := (op', word_of_nat i)] ! j" by simp
    moreover have "j < length (m_cores m')" "j < length (m_cores m)" using that len len' by simp_all
    ultimately show ?thesis by (cases "j = i") (simp_all add: core_def)
  qed
  have bus: "(b_locked (m_bus m'), b_locked_owner (m_bus m'))
      = (if locks op then (True, word_of_nat i) else if unlocks op then (False, -1)
         else (b_locked (m_bus m), b_locked_owner (m_bus m)))"
    using arg_cong [OF op'(2), of snd] id by (simp add: lock_view_def)
  have sep: "\<not> (locks op \<and> in_locked op)" "unlocks op \<Longrightarrow> in_locked op"
    by (auto simp: locks_def unlocks_def in_locked_def)
  have other: "j = i" if h: "j < NUM_CORES" "in_locked (c_micro_op (core m j))" for j
  proof -
    have "b_locked (m_bus m)" "b_locked_owner (m_bus m) = word_of_nat j"
      using ok h by (simp_all add: lock_ok_def)
    then have "(word_of_nat j :: 32 word) = word_of_nat i" using False id by simp
    then show ?thesis using h(1) i by (auto simp: less_2_cases_iff)
  qed
  show ?thesis
    unfolding lock_ok_def
  proof (intro conjI allI impI)
    show "length (m_cores m') = NUM_CORES" by (rule len')
    fix j assume j: "j < NUM_CORES"
    show "c_core_id (core m' j) = word_of_nat j"
      using nth [OF j] ok j by (auto simp: lock_ok_def split: if_splits)
    assume l: "in_locked (c_micro_op (core m' j))"
    have ji: "j = i" using l nth [OF j] other [OF j] by (auto split: if_splits)
    then have lo: "locks op \<or> in_locked op \<and> \<not> unlocks op" using l nth [OF j] op'(1) by simp
    have "in_locked op \<Longrightarrow> b_locked (m_bus m) \<and> b_locked_owner (m_bus m) = word_of_nat i"
      using ok i by (simp add: lock_ok_def op_def)
    then show "b_locked (m_bus m')" "b_locked_owner (m_bus m') = word_of_nat j"
      using bus lo ji sep by (auto split: if_splits)
  next
    assume b: "b_locked (m_bus m')"
    have "in_locked op'"
    proof (cases "locks op")
      case False
      then have "\<not> unlocks op" "b_locked (m_bus m)" using b bus by (auto split: if_splits)
      moreover obtain j where "j < NUM_CORES" "in_locked (c_micro_op (core m j))"
        using ok \<open>b_locked (m_bus m)\<close> unfolding lock_ok_def by blast
      ultimately show ?thesis using other op'(1) op_def by auto
    qed (use op'(1) in simp)
    then show "\<exists>j < NUM_CORES. in_locked (c_micro_op (core m' j))"
      using nth [OF i] i by (intro exI [of _ i]) simp
  qed
qed

text \<open>Machines reached by letting the cores run one micro-operation at a time, in any order.\<close>

inductive cpu_reach :: "machine \<Rightarrow> machine \<Rightarrow> bool" for m0 where
  start: "cpu_reach m0 m0"
| step: "cpu_reach m0 m \<Longrightarrow> i < NUM_CORES \<Longrightarrow> Step i m = Inr m' \<Longrightarrow> cpu_reach m0 m'"

lemma cpu_reach_lock_ok: "cpu_reach m0 m \<Longrightarrow> lock_ok m0 \<Longrightarrow> lock_ok m"
  by (induction rule: cpu_reach.induct) (auto dest: lock_ok_step)

end
