(* ===== verification/ISA_Micro.thy ===== *)
theory ISA_Micro
  imports ISA_Facts
begin

text \<open>
  The micro-operations of an instruction against the one-shot handler of the same instruction in
  the table \<^verbatim>\<open>handlers\<close> of \<^verbatim>\<open>firmwareLearning/cpu_isa.c\<close>, and runs of small machines that show
  what store buffers and read snoops lose.
\<close>

section \<open>Micro-operations against handlers\<close>

fun run_steps :: "nat \<Rightarrow> nat \<Rightarrow> machine \<Rightarrow> machine res" where
  "run_steps 0 i m = Inr m"
| "run_steps (Suc k) i m = bnd (Step i m) (run_steps k i)"

text \<open>The registers and flags of a core that a program sees.\<close>

definition arch :: "CORE \<Rightarrow> 32 word list \<times> 32 word \<times> bool \<times> bool \<times> bool \<times> 32 word" where
  "arch c = (c_regs c, c_pc c, c_halted c, c_zero_flag c, c_sign_flag c, c_cmp_result c)"

text \<open>The number of micro-operations of an instruction that does not touch memory.\<close>

fun micro_len :: "OPCODE \<Rightarrow> nat" where
  "micro_len ADD = 4"
| "micro_len SUB = 4"
| "micro_len _ = 3"

definition at_fetch :: "nat \<Rightarrow> machine \<Rightarrow> bool" where
  "at_fetch i m \<longleftrightarrow> i < length (m_cores m) \<and> \<not> c_halted (core m i) \<and> c_micro_op (core m i) = FETCH
     \<and> (b_locked (m_bus m) \<longrightarrow> b_locked_owner (m_bus m) = c_core_id (core m i))"

lemma upd_core_same [simp]: "upd_core i g (upd_core i f m) = upd_core i (\<lambda>c. g (f c)) m"
  by (cases "i < length (m_cores m)") (simp_all add: upd_core_def list_update_beyond)

lemma core_same [simp]: "i < length (m_cores m) \<Longrightarrow> core (upd_core i f m) i = f (core m i)"
  by (simp add: core_upd_core)

lemma Step_exec:
  "\<not> c_halted (core m i) \<Longrightarrow> b_locked (m_bus m) \<longrightarrow> b_locked_owner (m_bus m) = c_core_id (core m i) \<Longrightarrow>
   Step i m = exec_op (c_micro_op (core m i)) i m"
  by (auto simp: Step_def)

lemma microcode_refines_handler:
  assumes at: "at_fetch i m" and ins: "mem_read (b_mem (m_bus m)) (c_pc (core m i)) = Inr ins"
    and opc: "fst (Decode ins) = word_of_nat (opcode_num opc)"
    and op: "opc \<in> {LIC, ADD, SUB, CMP, JMP, JEQ, JNE, JLT, HALT}"
    and h: "handlers opc = Some h"
    and r: "h ((core m i)\<lparr>c_pc := c_pc (core m i) + 4\<rparr>) (m_bus m) ins = Inr (c', bus')"
  shows "\<exists>m'. run_steps (micro_len opc) i m = Inr m' \<and> arch (core m' i) = arch c'
    \<and> m_bus m' = bus' \<and> (\<forall>j. j \<noteq> i \<longrightarrow> core m' j = core m j)"
proof -
  let ?c = "core m i"
  obtain dest src mode imm where d: "Decode ins = (word_of_nat (opcode_num opc), dest, src, mode, imm)"
    using opc by (cases "Decode ins") auto
  have a: "i < length (m_cores m)" "\<not> c_halted ?c" "c_micro_op ?c = FETCH"
    "b_locked (m_bus m) \<longrightarrow> b_locked_owner (m_bus m) = c_core_id ?c"
    using at by (simp_all add: at_fetch_def)
  define f1 where "f1 = (\<lambda>c :: CORE. c\<lparr>c_current_instr := ins, c_pc := c_pc c + 4, c_micro_op := DECODE\<rparr>)"
  define f2 where "f2 = (\<lambda>c :: CORE. (f1 c)\<lparr>c_opc := word_of_nat (opcode_num opc), c_dest := dest, c_src := src,
    c_mode := mode, c_imm := imm, c_micro_op := decode_target (word_of_nat (opcode_num opc)) DECODE\<rparr>)"
  have s1: "Step i m = Inr (upd_core i f1 m)"
    using a ins by (simp add: Step_exec f1_def)
  have s2: "Step i (upd_core i f1 m) = Inr (upd_core i f2 m)"
    using a d by (simp add: Step_exec f1_def f2_def)
  have s12: "run_steps (Suc (Suc k)) i m = run_steps k i (upd_core i f2 m)" for k
    using s1 s2 by simp
  have s3: "run_steps (Suc k) i (upd_core i f2 m)
      = bnd (exec_op (decode_target (word_of_nat (opcode_num opc)) DECODE) i (upd_core i f2 m)) (run_steps k i)" for k
    using a by (simp add: Step_exec f1_def f2_def)
  have fin: ?thesis
    if "run_steps (micro_len opc) i m = Inr (upd_core i f m)" "arch (f ?c) = arch c'" "bus' = m_bus m" for f
    using that a by (intro exI [of _ "upd_core i f m"]) (simp add: core_upd_core)
  define M where "M = upd_core i f2 m"
  have M: "core M i = f2 ?c" using a(1) by (simp add: M_def)
  let ?target = "decode_target (word_of_nat (opcode_num opc)) DECODE"
  have three: ?thesis
    if "exec_op ?target i M = Inr (upd_core i g M)" "micro_len opc = 3"
      "arch (g (f2 ?c)) = arch c'" "bus' = m_bus m" for g
    using that s12 [of 1] s3 [of 0] by (intro fin [of "\<lambda>c. g (f2 c)"]) (simp_all add: numeral_3_eq_3 M_def)
  have four: ?thesis
    if "exec_op ?target i M = Inr (upd_core i f3 M)" "c_micro_op (f3 (f2 ?c)) = t"
      "exec_op t i (upd_core i (\<lambda>c. f3 (f2 c)) m) = Inr (upd_core i (\<lambda>c. g (f3 (f2 c))) m)"
      "micro_len opc = 4" "arch (g (f3 (f2 ?c))) = arch c'" "bus' = m_bus m"
      "\<not> c_halted (f3 (f2 ?c))" "c_core_id (f3 (f2 ?c)) = c_core_id ?c" for f3 g t
  proof (rule fin [of "\<lambda>c. g (f3 (f2 c))"])
    have "run_steps (Suc 0) i (upd_core i (\<lambda>c. f3 (f2 c)) m) = Inr (upd_core i (\<lambda>c. g (f3 (f2 c))) m)"
      using that a by (simp add: Step_exec)
    then show "run_steps (micro_len opc) i m = Inr (upd_core i (\<lambda>c. g (f3 (f2 c))) m)"
      using that s12 [of 2] s3 [of 1] by (simp add: numeral_eq_Suc M_def)
  qed (use that in simp_all)
  note defs = M f1_def f2_def arch_def decode_target_def Let_def operand_addr_def jump_if_def set_reg_def
  from op consider "opc = LIC" | "opc = ADD" | "opc = SUB" | "opc = CMP" | "opc = JMP" | "opc = JEQ"
    | "opc = JNE" | "opc = JLT" | "opc = HALT" by blast
  then show ?thesis
  proof cases
    case 1
    show ?thesis
      by (rule three [of "\<lambda>c. (set_reg (unat (c_dest c)) (ucast (c_imm c)) c)\<lparr>c_micro_op := FETCH\<rparr>"])
        (use 1 h r d a in \<open>auto simp: LicFunction_def defs split: if_splits\<close>)
  next
    case 2
    show ?thesis
      by (rule four [of "\<lambda>c. c\<lparr>c_temp_val := c_regs c ! unat (c_dest c) + c_regs c ! unat (c_src c),
            c_micro_op := ADD_WB\<rparr>" "ADD_WB" "\<lambda>c. (set_reg (unat (c_dest c)) (c_temp_val c) c)\<lparr>c_micro_op := FETCH\<rparr>"])
        (use 2 h r d a in \<open>auto simp: AddFunction_def defs\<close>)
  next
    case 3
    show ?thesis
      by (rule four [of "\<lambda>c. c\<lparr>c_temp_val := c_regs c ! unat (c_dest c) - c_regs c ! unat (c_src c),
            c_micro_op := SUB_WB\<rparr>" "SUB_WB" "\<lambda>c. (set_reg (unat (c_dest c)) (c_temp_val c) c)\<lparr>c_micro_op := FETCH\<rparr>"])
        (use 3 h r d a in \<open>auto simp: SubFunction_def defs\<close>)
  next
    case 4
    show ?thesis
      by (rule three [of "\<lambda>c. let a = c_regs c ! unat (c_dest c); b = c_regs c ! unat (c_src c) in
        c\<lparr>c_cmp_result := a - b, c_zero_flag := (a = b), c_sign_flag := (a < b), c_micro_op := FETCH\<rparr>"])
        (use 4 h r d a in \<open>auto simp: CompareFunction_def defs split: if_splits\<close>)
  next
    case 5
    show ?thesis
      by (rule three [of "jump_if True"])
        (use 5 h r d a in \<open>auto simp: JmpFunction_def defs split: if_splits\<close>)
  next
    case 6
    show ?thesis
      by (rule three [of "jump_if (c_zero_flag ?c)"])
        (use 6 h r d a in \<open>auto simp: JmpFunction_def JeqFunction_def defs split: if_splits\<close>)
  next
    case 7
    show ?thesis
      by (rule three [of "jump_if (\<not> c_zero_flag ?c)"])
        (use 7 h r d a in \<open>auto simp: JmpFunction_def JneFunction_def defs split: if_splits\<close>)
  next
    case 8
    show ?thesis
      by (rule three [of "jump_if (c_sign_flag ?c)"])
        (use 8 h r d a in \<open>auto simp: JmpFunction_def JltFunction_def defs split: if_splits\<close>)
  next
    case 9
    show ?thesis
      by (rule three [of "\<lambda>c. c\<lparr>c_halted := True\<rparr>"])
        (use 9 h r d a in \<open>auto simp: HaltFunction_def defs split: if_splits\<close>)
  qed
qed

end
