(* ===== verification/ISA_Props.thy ===== *)
theory ISA_Props
  imports ISA_Micro
begin

text \<open>
  The properties of the CPU model \<^verbatim>\<open>firmwareLearning/cpu_isa.c\<close>: instruction format, memory, cache
  coherence, store buffers, the bus lock and the micro-operations. They are instantiated at two
  cores with empty caches and store buffers.
\<close>

section \<open>Two idle cores\<close>

definition two_cores :: machine where
  "two_cores = \<lparr>m_cores = [zero_core, zero_core\<lparr>c_core_id := 1\<rparr>], m_bus = zero_bus\<rparr>"

lemma two_cores_ok: "machine_ok 2 two_cores" "coherent 2 two_cores" "lock_ok two_cores"
proof -
  have wf: "cache_wf (replicate 8 zero_line)"
    by (auto simp: cache_wf_def zero_line_def)
  show "machine_ok 2 two_cores"
    using wf by (auto simp: machine_ok_def two_cores_def core_def zero_core_def less_2_cases_iff)
  have "view two_cores i a = None" if "i < 2" for i a
    using that by (auto simp: view_def two_cores_def core_def zero_core_def less_2_cases_iff
        cached_None line_matches_def zero_line_def)
  then show "coherent 2 two_cores" by (auto simp: coherent_def)
  show "lock_ok two_cores"
    by (auto simp: lock_ok_def two_cores_def core_def zero_core_def zero_bus_def less_2_cases_iff in_locked_def)
qed

lemma two_cores_sb:
  "sb_wf (c_store_buffer (core two_cores 0))" "sb_list (c_store_buffer (core two_cores 0)) = []"
  by (simp_all add: two_cores_def core_def zero_core_def zero_store_buffer_def sb_wf_def sb_list_def)

text \<open>Core 0 after a write and core 1 after a load of the same word.\<close>

definition written :: machine where
  "written = the_res two_cores (CacheWriteDirect 0 0x200 42 2 two_cores)"

definition shared :: "32 word \<times> machine" where
  "shared = the_res (0, two_cores) (CacheLoad 1 0x200 2 written)"

lemma written_eq: "CacheWriteDirect 0 0x200 42 2 two_cores = Inr written"
proof -
  have "case CacheWriteDirect 0 0x200 42 2 two_cores of Inl e \<Rightarrow> False | Inr m \<Rightarrow> True" by code_simp
  then show ?thesis by (auto simp: written_def the_res_def split: sum.splits)
qed

lemma shared_eq: "CacheLoad 1 0x200 2 written = Inr shared"
proof -
  have "case CacheLoad 1 0x200 2 written of Inl e \<Rightarrow> False | Inr m \<Rightarrow> True" by code_simp
  then show ?thesis by (auto simp: shared_def the_res_def split: sum.splits)
qed

text \<open>A store by core 0, a fence and a load by core 1.\<close>

definition fenced :: machine where
  "fenced = the_res two_cores (FlushStoreBuffer 0 2 (CacheWrite 0 0x200 7 two_cores))"

definition fence_loaded :: "32 word \<times> machine" where
  "fence_loaded = the_res (0, two_cores) (CacheLoad 1 0x200 2 fenced)"

lemma fenced_eq: "FlushStoreBuffer 0 2 (CacheWrite 0 0x200 7 two_cores) = Inr fenced"
proof -
  have "case FlushStoreBuffer 0 2 (CacheWrite 0 0x200 7 two_cores) of Inl e \<Rightarrow> False | Inr m \<Rightarrow> True"
    by code_simp
  then show ?thesis by (auto simp: fenced_def the_res_def split: sum.splits)
qed

lemma fence_loaded_eq: "CacheLoad 1 0x200 2 fenced = Inr fence_loaded"
proof -
  have "case CacheLoad 1 0x200 2 fenced of Inl e \<Rightarrow> False | Inr m \<Rightarrow> True" by code_simp
  then show ?thesis by (auto simp: fence_loaded_def the_res_def split: sum.splits)
qed

text \<open>Core 0 about to fetch \<^verbatim>\<open>LIC R2, 42\<close>.\<close>

definition lic_machine :: machine where
  "lic_machine = two_cores\<lparr>m_bus := zero_bus\<lparr>b_mem :=
     the_res (\<lambda>_. 0) (mem_write (\<lambda>_. 0) 0 (Encode LIC 2 0 0 42))\<rparr>\<rparr>"

section \<open>Instructions and memory\<close>

text \<open>
  C36: Decoding an encoded instruction gives back the opcode, the two register numbers cut to
  four bits, the mode cut to two and the immediate cut to fourteen.
\<close>

theorem Decode_of_Encode:
  "Decode (Encode opc d s mo imm)
   = (word_of_nat (opcode_num opc), d AND 0x0F, s AND 0x0F, mo AND 0x03, imm AND 0x3FFF)"
  by (rule Decode_Encode)

text \<open>
  A word written to memory is read back at its address, and every word that does not overlap
  it reads as before.
\<close>

theorem memory_roundtrip:
  assumes "mem_write mem a v = Inr mem'"
  shows "mem_read mem' a = Inr v
    \<and> (\<forall>b. unat b + 4 \<le> unat a \<or> unat a + 4 \<le> unat b \<longrightarrow> mem_read mem' b = mem_read mem b)"
  using mem_read_write [OF assms] by blast

theorem memory_roundtrip_witness:
  "\<exists>mem'. mem_write (\<lambda>_. 0) 0x3FC 0x12345678 = Inr mem' \<and> mem_read mem' 0x3FC = Inr 0x12345678
    \<and> mem_read mem' 0x3F8 = Inr 0"
proof -
  obtain mem' where "mem_write (\<lambda>_. 0) 0x3FC 0x12345678 = Inr mem'" by (simp add: mem_write_def)
  moreover from memory_roundtrip [OF this] have "mem_read mem' 0x3FC = Inr 0x12345678"
    "mem_read mem' 0x3F8 = mem_read (\<lambda>_. 0) 0x3F8" by simp_all
  moreover have "mem_read (\<lambda>_. 0) 0x3F8 = Inr 0" by (simp add: mem_read_def)
  ultimately show ?thesis by simp
qed

section \<open>Cache coherence\<close>

text \<open>
  C37: Loads and writes through the caches keep coherence: whenever two cores hold the same line
  both hold it shared and with the same data. After a write the writer alone holds the line,
  modified and with the new word in it.
\<close>

theorem caches_stay_coherent:
  assumes "machine_ok n m" "coherent n m" "i < n"
  shows "(\<forall>w m'. CacheLoad i a n m = Inr (w, m') \<longrightarrow> machine_ok n m' \<and> coherent n m')
    \<and> (\<forall>m'. CacheWriteDirect i a v n m = Inr m' \<longrightarrow> machine_ok n m' \<and> coherent n m'
        \<and> (\<exists>d. view m' i a = Some (MESI_MODIFIED, d) \<and> d ! word_offset a = v)
        \<and> (\<forall>j < n. j \<noteq> i \<longrightarrow> view m' j a = None))"
proof (intro conjI allI impI)
  fix m' assume w: "CacheWriteDirect i a v n m = Inr m'"
  note c = CacheWriteDirect_coherent [OF assms w]
  then show "machine_ok n m'" "coherent n m'"
    "\<exists>d. view m' i a = Some (MESI_MODIFIED, d) \<and> d ! word_offset a = v" by blast+
  show "view m' j a = None" if "j < n" "j \<noteq> i" for j
  proof (cases "view m' j a")
    case (Some p)
    obtain s d where "p = (s, d)" by (cases p)
    with c Some that assms(3) show ?thesis unfolding coherent_def by (metis MESI_STATE.distinct(11))
  qed
qed (use CacheLoad_coherent(1,2) [OF assms] in blast)+

theorem caches_stay_coherent_witness:
  "coherent 2 written \<and> view written 1 0x200 = None"
  using caches_stay_coherent [OF two_cores_ok(1,2), of 0 "0x200" 42] written_eq by simp

text \<open>
  A load by any core right after a write returns the value written, whichever core wrote it
  and wherever the line was before.
\<close>

theorem load_sees_last_write:
  assumes "machine_ok n m" "coherent n m" "i < n" "j < n"
    and "CacheWriteDirect i a v n m = Inr m1" "CacheLoad j a n m1 = Inr (w, m2)"
  shows "w = v"
  using write_then_load [OF assms] .

theorem load_sees_last_write_witness: "fst shared = 42"
  using load_sees_last_write [OF two_cores_ok(1,2) _ _ written_eq, of 1 "fst shared" "snd shared"] shared_eq
  by simp

text \<open>
  The modified line is not written to memory when another core reads it: after a write of 42
  and a load by the other core, writing the modified lines of both caches back leaves 0 in
  memory. Both copies are shared, so no eviction and no final write-back stores the value.
\<close>

theorem shared_line_is_lost:
  "bnd (CacheWriteDirect 0 0x200 42 2 two_cores) (\<lambda>m1.
   bnd (CacheLoad 1 0x200 2 m1) (\<lambda>(v, m2).
   bnd (write_back (c_cache (core m2 0)) (b_mem (m_bus m2))) (\<lambda>mem.
   bnd (write_back (c_cache (core m2 1)) mem) (\<lambda>mem.
   bnd (mem_read mem 0x200) (\<lambda>w. Inr (v, w)))))) = Inr (42, 0)"
  by code_simp

section \<open>Store buffers\<close>

text \<open>
  C38: The store buffer refines a first-in first-out queue of at most four stores. Flushing
  always ends; it writes the buffered stores to the cache in order, so the effect of a flush is
  that of the writes one after the other, and leaves the buffer empty. A store into a full
  buffer is dropped.
\<close>

theorem store_buffer_flush:
  assumes "i < length (m_cores m)" "sb_wf (c_store_buffer (core m i))"
  shows "(\<exists>sb'. sb_wf sb' \<and> sb_list sb' = []
      \<and> FlushStoreBuffer i n m = bnd (write_all i n (sb_list (c_store_buffer (core m i))) m)
          (\<lambda>m1. Inr (set_sb i sb' m1)))
    \<and> sb_list (sb_push (a, v) (c_store_buffer (core m i)))
      = (if length (sb_list (c_store_buffer (core m i))) < STORE_BUFFER_SIZE
         then sb_list (c_store_buffer (core m i)) @ [(a, v)] else sb_list (c_store_buffer (core m i)))"
  using Flush_write_all [OF assms refl, of n] sb_push_list(2) [OF assms(2), of "(a, v)"] by simp

theorem store_buffer_flush_witness:
  "\<exists>sb'. sb_list sb' = [] \<and> FlushStoreBuffer 0 2 two_cores = Inr (set_sb 0 sb' two_cores)"
  using store_buffer_flush [of 0 two_cores 2] two_cores_sb by (auto simp: two_cores_def)

text \<open>
  A store followed by a fence is visible to every core: when the store buffer has room, the
  flush that a fence performs makes any later load of that address, by any core, return the
  stored value.
\<close>

theorem fence_publishes_store:
  assumes "machine_ok n m" "coherent n m" "i < n" "j < n"
    and "sb_wf (c_store_buffer (core m i))"
    and "length (sb_list (c_store_buffer (core m i))) < STORE_BUFFER_SIZE"
    and "FlushStoreBuffer i n (CacheWrite i a v m) = Inr m1" "CacheLoad j a n m1 = Inr (w, m2)"
  shows "w = v"
  using store_fence_load [OF assms(1-5) _ assms(7,8)] assms(6) by simp

theorem fence_publishes_store_witness: "fst fence_loaded = 7"
  using fence_publishes_store [OF two_cores_ok(1,2) _ _ two_cores_sb(1) _ fenced_eq,
    of 1 "fst fence_loaded" "snd fence_loaded"] fence_loaded_eq two_cores_sb(2) by simp

section \<open>The locked bus\<close>

text \<open>
  C39: The locked instructions exclude each other: in every machine reached by the micro-operations
  of the two cores in any order, a core between the locking and the unlocking of the bus owns the
  lock, so no two cores are there at once, and a locked bus always has such a core.
\<close>

theorem locked_sections_exclude:
  assumes "cpu_reach m0 m" "lock_ok m0"
  shows "lock_ok m \<and> \<not> (in_locked (c_micro_op (core m 0)) \<and> in_locked (c_micro_op (core m 1)))"
proof -
  have ok: "lock_ok m" by (rule cpu_reach_lock_ok [OF assms])
  then have "in_locked (c_micro_op (core m i)) \<Longrightarrow> b_locked_owner (m_bus m) = word_of_nat i" if "i < 2" for i
    using that by (simp add: lock_ok_def)
  from this [of 0] this [of 1] ok show ?thesis by auto
qed

theorem locked_sections_exclude_witness:
  "\<exists>m. Step 0 two_cores = Inr m \<and> lock_ok m"
proof -
  obtain m where m: "Step 0 two_cores = Inr m"
    by (simp add: Step_def two_cores_def core_def zero_core_def zero_bus_def mem_read_def)
  have "cpu_reach two_cores m" by (rule cpu_reach.step [OF cpu_reach.start _ m]) simp
  from locked_sections_exclude [OF this two_cores_ok(3)] m show ?thesis by blast
qed

text \<open>
  Two cores that each execute \<open>LOCK_INC\<close> on the same word, then a fence, leave it at 1: the
  incremented value sits in the store buffer when the bus is unlocked, and the load of the other
  core does not see it.
\<close>

theorem LOCK_INC_loses_update:
  "obnd (Some (load_program (b_mem zero_bus) 0
       [Encode LOCK_INC 0 0 0 0x200, Encode FENCE 0 0 0 0, Encode HALT 0 0 0 0])) (\<lambda>mem.
   obnd (run_cores 0 (two_cores\<lparr>m_bus := zero_bus\<lparr>b_mem := mem\<rparr>\<rparr>)) (\<lambda>(cycles, m).
   Some (bnd (CacheLoad 0 0x200 NUM_CORES m) (\<lambda>(v, m). Inr (cycles, v))))) = Some (Inr (13, 1))"
  by code_simp

section \<open>Micro-operations\<close>

text \<open>
  C40: For the instructions that do not touch memory, and for the jumps except \<open>JGT\<close>, the sequence
  of micro-operations from the fetch on has the effect of the instruction's one-shot handler on
  registers, flags and program counter, within four steps, and leaves the bus and the other
  cores alone.
\<close>

theorem micro_operations_implement_handler:
  assumes "at_fetch i m" "mem_read (b_mem (m_bus m)) (c_pc (core m i)) = Inr ins"
    and "fst (Decode ins) = word_of_nat (opcode_num opc)"
    and "opc \<in> {LIC, ADD, SUB, CMP, JMP, JEQ, JNE, JLT, HALT}" "handlers opc = Some h"
    and "h ((core m i)\<lparr>c_pc := c_pc (core m i) + 4\<rparr>) (m_bus m) ins = Inr (c', bus')"
  shows "\<exists>m'. run_steps (micro_len opc) i m = Inr m' \<and> arch (core m' i) = arch c'
    \<and> m_bus m' = bus' \<and> (\<forall>j. j \<noteq> i \<longrightarrow> core m' j = core m j)"
  using microcode_refines_handler [OF assms] .

theorem micro_operations_implement_handler_witness:
  "\<exists>m'. run_steps 3 0 lic_machine = Inr m' \<and> c_regs (core m' 0) ! 2 = 42 \<and> c_pc (core m' 0) = 4"
proof -
  have at: "at_fetch 0 lic_machine"
    by (simp add: at_fetch_def lic_machine_def two_cores_def core_def zero_core_def zero_bus_def)
  have ins: "mem_read (b_mem (m_bus lic_machine)) (c_pc (core lic_machine 0)) = Inr (Encode LIC 2 0 0 42)"
    by code_simp
  have opc: "fst (Decode (Encode LIC 2 0 0 42)) = word_of_nat (opcode_num LIC)" by (simp add: Decode_Encode)
  from micro_operations_implement_handler [OF at ins opc _ _ , of LicFunction]
  obtain m' where "run_steps 3 0 lic_machine = Inr m'"
    "arch (core m' 0) = arch (set_reg 2 42 ((core lic_machine 0)\<lparr>c_pc := c_pc (core lic_machine 0) + 4\<rparr>))"
    by (auto simp: LicFunction_def Decode_Encode)
  then show ?thesis
    by (auto simp: arch_def set_reg_def lic_machine_def two_cores_def core_def zero_core_def)
qed

end
