(* ===== verification/PCI_State.thy ===== *)
theory PCI_State
  imports Prelude "HOL-Library.Signed_Division" "HOL-Library.AList"
begin

text \<open>
  The state of the PCI kernel \<^verbatim>\<open>B_Kernel\<close>: little-endian access to byte memory, the simulated PCI
  functions of \<^verbatim>\<open>hw/pci_sim.c\<close>, the device contexts of \<^verbatim>\<open>device/OS_device.c\<close>, the drivers of
  \<^verbatim>\<open>drivers/basic_driver.c\<close> and the registered callbacks. Function pointers are values of
  datatypes with one constructor for each function the code ever stores there.
\<close>

section \<open>Little-endian bytes\<close>

text \<open>
  The source reads and writes \<^verbatim>\<open>*(uint32_t *)(data + offset)\<close>, as the little-endian processors
  it is built for do: \<open>le_read k m a\<close> reads \<open>k\<close> bytes from \<open>a\<close> on.
\<close>

type_synonym bytes = "nat \<Rightarrow> 8 word"

fun le_read :: "nat \<Rightarrow> bytes \<Rightarrow> nat \<Rightarrow> 'a :: len word" where
  "le_read 0 m a = 0"
| "le_read (Suc k) m a = ucast (m a) OR push_bit 8 (le_read k m (a + 1))"

fun le_write :: "nat \<Rightarrow> 'a :: len word \<Rightarrow> nat \<Rightarrow> bytes \<Rightarrow> bytes" where
  "le_write 0 v a m = m"
| "le_write (Suc k) v a m = (le_write k (drop_bit 8 v) (a + 1) m)(a := ucast v)"

lemma le_write_at:
  "le_write k v a m b = (if a \<le> b \<and> b < a + k then ucast (drop_bit (8 * (b - a)) v) else m b)"
proof (induction k v a m arbitrary: b rule: le_write.induct)
  case (2 k v a m)
  have "Suc a \<le> b \<Longrightarrow> 8 * (b - Suc a) + 8 = 8 * (b - a)" by simp
  then show ?case by (auto simp: 2 [simplified] add.commute)
qed auto

lemma bit_le_read:
  "bit (le_read k m a :: 'a :: len word) n
   \<longleftrightarrow> n < LENGTH('a) \<and> n < 8 * k \<and> bit (m (a + n div 8)) (n mod 8)"
proof (induction k m a arbitrary: n rule: le_read.induct)
  case (2 k m a)
  show ?case
  proof (cases "n < 8")
    case True
    then show ?thesis by (auto simp: bit_simps)
  next
    case False
    then have "n = (n - 8) + 8" by simp
    then obtain j where n: "n = j + 8" by blast
    have "\<not> bit (m a) (j + 8)" by (auto dest: bit_imp_le_length)
    moreover have "(j + 8) div 8 = Suc (j div 8)" by simp
    ultimately show ?thesis using n by (auto simp: bit_simps 2 [simplified])
  qed
qed simp

lemma le_read_cong: "(\<And>b. a \<le> b \<Longrightarrow> b < a + k \<Longrightarrow> m b = m' b) \<Longrightarrow> le_read k m a = le_read k m' a"
  by (induction k m a rule: le_read.induct) auto

lemma le_read_other:
  "b + k \<le> a \<or> a + l \<le> b \<Longrightarrow> le_read k (le_write l v a m) b = le_read k m b"
  by (rule le_read_cong) (auto simp: le_write_at)

lemma le_read_write: "(le_read k (le_write k v a m) a :: 'a :: len word) = take_bit (8 * k) v"
proof (rule bit_word_eqI)
  fix n assume "n < LENGTH('a)"
  then show "bit (le_read k (le_write k v a m) a :: 'a word) n \<longleftrightarrow> bit (take_bit (8 * k) v) n"
    by (auto simp: bit_le_read le_write_at bit_simps less_mult_imp_div_less mult.commute)
qed

lemma le_read_write_full:
  "LENGTH('a) = 8 * k \<Longrightarrow> (le_read k (le_write k v a m) a :: 'a :: len word) = v"
  by (metis le_read_write order_refl take_bit_length_eq)

lemma le_write_read:
  assumes "8 * k \<le> LENGTH('a)"
  shows "le_write k (le_read k m a :: 'a :: len word) a m = m"
proof
  fix b
  show "le_write k (le_read k m a :: 'a word) a m b = m b"
  proof (cases "a \<le> b \<and> b < a + k")
    case True
    then obtain i where i: "b = a + i" "i < k" using le_Suc_ex by auto
    have "bit (ucast (drop_bit (8 * i) (le_read k m a :: 'a word)) :: 8 word) n = bit (m b) n"
      if "n < 8" for n
      using i that assms by (auto simp: bit_simps bit_le_read)
    with i show ?thesis by (auto simp: le_write_at intro!: bit_word_eqI)
  qed (auto simp: le_write_at)
qed

text \<open>The same write into an array held as a list.\<close>

fun list_write :: "nat \<Rightarrow> 'a :: len word \<Rightarrow> nat \<Rightarrow> 8 word list \<Rightarrow> 8 word list" where
  "list_write 0 v a xs = xs"
| "list_write (Suc k) v a xs = (list_write k (drop_bit 8 v) (a + 1) xs)[a := ucast v]"

lemma length_list_write [simp]: "length (list_write k v a xs) = length xs"
  by (induction k v a xs rule: list_write.induct) simp_all

lemma nth_list_write: "a + k \<le> length xs \<Longrightarrow> (!) (list_write k v a xs) = le_write k v a ((!) xs)"
  by (induction k v a xs rule: list_write.induct) (auto simp: fun_eq_iff nth_list_update)

section \<open>The simulated functions\<close>

definition MAX_BUS :: nat where "MAX_BUS = 2"
definition MAX_DEVICE :: nat where "MAX_DEVICE = 32"
definition MAX_FUNCTION :: nat where "MAX_FUNCTION = 8"

lemmas pci_consts [simp] = MAX_BUS_def MAX_DEVICE_def MAX_FUNCTION_def

text \<open>The three arguments \<^verbatim>\<open>uint8_t bus, uint8_t dev, uint8_t func\<close>.\<close>

type_synonym PCI_ADDR = "8 word \<times> 8 word \<times> 8 word"

text \<open>
  The pointer \<^verbatim>\<open>bar_mem[i]\<close>: never assigned (\<^verbatim>\<open>malloc\<close> does not clear the device), null, or a block of
  \<^verbatim>\<open>bar_size[i]\<close> bytes that nothing else points to.
\<close>

datatype BAR_MEM = BarUnset | BarNull | BarBlock bytes

record PCI_DEVICE =
  pd_config :: "8 word list"
  pd_bar_size :: "64 word list"
  pd_bar_mem :: "BAR_MEM list"
  pd_discovery_active :: int
  pd_mask_low :: "32 word list"
  pd_mask_high :: "32 word list"

definition CONFIG_SIZE :: nat where "CONFIG_SIZE = 256"

record BAR_CFG =
  bc_size :: "64 word"
  bc_is_io :: bool
  bc_is_64 :: bool

section \<open>Contexts and drivers of the operating system\<close>

record PCI_BAR_INFO =
  bi_base_address :: "64 word"
  bi_size :: "64 word"
  bi_is_io :: bool
  bi_is_64bit :: bool

definition zero_bar_info :: PCI_BAR_INFO where
  "zero_bar_info = \<lparr>bi_base_address = 0, bi_size = 0, bi_is_io = False, bi_is_64bit = False\<rparr>"

datatype BAR_CALLBACK = BarChangeHandler_fn
datatype DEVICE_CALLBACK = OS_HandleNewPciDevice_fn
datatype NEW_DEVICE_NOTIFIER = DriverManagerHandleNewDevice_fn
datatype PROBE = TestBarDriverProbe_fn | DummyProbe_fn
datatype INIT = TestBarDriverInit_fn | DummyInit_fn

record PCI_DRIVER =
  dr_name :: string
  dr_vendor_id :: "16 word"
  dr_device_id :: "16 word"
  dr_probe :: "PROBE option"
  dr_init :: "INIT option"

text \<open>
  The union \<^verbatim>\<open>select_bar\<close> is its larger member, six raw BAR values; \<^verbatim>\<open>type1_bars\<close> are the first two.
  \<open>dc_ops\<close> says that the three function pointers \<^verbatim>\<open>fBarGetMem\<close>, \<^verbatim>\<open>fBarRead\<close> and \<^verbatim>\<open>fBarWrite\<close> are
  set (always together, always to the same functions). \<^verbatim>\<open>device_data\<close> is only ever null and left
  out.
\<close>

record PCI_DEVICE_CONTEXT =
  dc_addr :: PCI_ADDR
  dc_vendor_id :: "16 word"
  dc_device_id :: "16 word"
  dc_revision_id :: "8 word"
  dc_prog_if :: "8 word"
  dc_subclass :: "8 word"
  dc_class_code :: "8 word"
  dc_header_type :: "8 word"
  dc_bars :: "32 word list"
  dc_bar_info :: "PCI_BAR_INFO list"
  dc_driver :: "nat option"
  dc_ops :: bool

definition zero_context :: PCI_DEVICE_CONTEXT where
  "zero_context = \<lparr>dc_addr = (0, 0, 0), dc_vendor_id = 0, dc_device_id = 0, dc_revision_id = 0,
     dc_prog_if = 0, dc_subclass = 0, dc_class_code = 0, dc_header_type = 0,
     dc_bars = replicate 6 0, dc_bar_info = replicate 6 zero_bar_info, dc_driver = None,
     dc_ops = False\<rparr>"

section \<open>The state\<close>

text \<open>
  \<open>g_pci_bus\<close> lists the slots of the array of that name that do not hold a null pointer, and
  \<open>h_pctx\<close> holds the allocated contexts, which are addressed by index; \<open>g_pciDevCtx\<close> is the used
  prefix of the array of that name, so its length is \<^verbatim>\<open>g_dev_count\<close>, and likewise \<open>g_drivers\<close>.
  The \<open>n\<close>-th call of \<^verbatim>\<open>malloc\<close> or \<^verbatim>\<open>calloc\<close> succeeds when \<open>p_alloc_ok n\<close>. \<open>bar_tests\<close> records what
  the test driver reports.
\<close>

record bkernel =
  g_pci_bus :: "(PCI_ADDR \<times> PCI_DEVICE) list"
  gPciDeviceCallback :: "DEVICE_CALLBACK option"
  gPciBarChangeCallback :: "BAR_CALLBACK option"
  h_pctx :: "PCI_DEVICE_CONTEXT list"
  g_pciDevCtx :: "nat list"
  gNextMimoAddr :: "64 word"
  gNextIoAddr :: "64 word"
  fgNewDeviceNotifier :: "NEW_DEVICE_NOTIFIER option"
  g_drivers :: "PCI_DRIVER list"
  p_alloc_ok :: "nat \<Rightarrow> bool"
  p_allocs :: nat
  bar_tests :: "bool list"

definition initial_bkernel :: "(nat \<Rightarrow> bool) \<Rightarrow> bkernel" where
  "initial_bkernel ok = \<lparr>g_pci_bus = [], gPciDeviceCallback = None,
     gPciBarChangeCallback = None, h_pctx = [], g_pciDevCtx = [], gNextMimoAddr = 0xf0000000,
     gNextIoAddr = 0x1000, fgNewDeviceNotifier = None, g_drivers = [], p_alloc_ok = ok,
     p_allocs = 0, bar_tests = []\<rparr>"

definition p_alloc :: "bkernel \<Rightarrow> bool \<times> bkernel" where
  "p_alloc s = (p_alloc_ok s (p_allocs s), s\<lparr>p_allocs := p_allocs s + 1\<rparr>)"

text \<open>The read \<^verbatim>\<open>g_pci_bus[bus][dev][func]\<close>, and a change of the device a slot points to.\<close>

fun pci_in_range :: "PCI_ADDR \<Rightarrow> bool" where
  "pci_in_range (b, d, f) \<longleftrightarrow> unat b < MAX_BUS \<and> unat d < MAX_DEVICE \<and> unat f < MAX_FUNCTION"

definition pci_dev :: "PCI_ADDR \<Rightarrow> bkernel \<Rightarrow> PCI_DEVICE option" where
  "pci_dev a s = map_of (g_pci_bus s) a"

definition pci_slot :: "PCI_ADDR \<Rightarrow> bkernel \<Rightarrow> PCI_DEVICE option res" where
  "pci_slot a s = (if pci_in_range a then Inr (pci_dev a s) else Inl (Undefined ''array index''))"

definition upd_slot :: "PCI_ADDR \<Rightarrow> (PCI_DEVICE \<Rightarrow> PCI_DEVICE) \<Rightarrow> bkernel \<Rightarrow> bkernel" where
  "upd_slot a f = g_pci_bus_update (AList.map_entry a f)"

definition get_pctx :: "nat \<Rightarrow> bkernel \<Rightarrow> PCI_DEVICE_CONTEXT res" where
  "get_pctx c s = aread (h_pctx s) c"

definition upd_pctx :: "nat \<Rightarrow> (PCI_DEVICE_CONTEXT \<Rightarrow> PCI_DEVICE_CONTEXT) \<Rightarrow> bkernel \<Rightarrow> bkernel" where
  "upd_pctx c f = h_pctx_update (\<lambda>xs. xs[c := f (xs ! c)])"

lemma map_entry_comp: "AList.map_entry k f (AList.map_entry k g xs) = AList.map_entry k (\<lambda>x. f (g x)) xs"
  by (induction xs) auto

lemma map_entry_cong:
  "map_of xs k = Some d \<Longrightarrow> f d = g d \<Longrightarrow> AList.map_entry k f xs = AList.map_entry k g xs"
  by (induction xs) (auto split: if_splits)

lemma map_entry_id: "map_of xs k = Some d \<Longrightarrow> f d = d \<Longrightarrow> AList.map_entry k f xs = xs"
  by (induction xs) (auto split: if_splits)

lemma pci_slot_eq_Inr [res_simps]: "pci_slot a s = Inr x \<longleftrightarrow> pci_in_range a \<and> pci_dev a s = x"
  by (simp add: pci_slot_def)

lemma pci_dev_upd_slot [simp]:
  "pci_dev b (upd_slot a f s) = (if b = a then map_option f (pci_dev a s) else pci_dev b s)"
  by (simp add: pci_dev_def upd_slot_def map_of_map_entry split: option.split)

lemma upd_slot_comp [simp]: "upd_slot a f (upd_slot a g s) = upd_slot a (\<lambda>d. f (g d)) s"
  by (cases s) (simp add: upd_slot_def map_entry_comp)

lemma upd_slot_id: "pci_dev a s = Some d \<Longrightarrow> f d = d \<Longrightarrow> upd_slot a f s = s"
  by (cases s) (simp add: upd_slot_def map_entry_id pci_dev_def)

lemma upd_slot_cong: "pci_dev a s = Some d \<Longrightarrow> f d = g d \<Longrightarrow> upd_slot a f s = upd_slot a g s"
  by (cases s) (simp add: upd_slot_def pci_dev_def cong: map_entry_cong)

end
