(* ===== verification/PCI_Sim.thy ===== *)
theory PCI_Sim
  imports PCI_State
begin

text \<open>
  The simulated hardware of \<^verbatim>\<open>B_Kernel/hw/pci_sim.c\<close>: building devices with their configuration
  headers and BAR memory, the discovery state of the BAR sizing protocol, and access to BAR
  memory.
\<close>

section \<open>Configuration space\<close>

definition cfg16 :: "PCI_DEVICE \<Rightarrow> nat \<Rightarrow> 16 word" where
  "cfg16 d off = le_read 2 ((!) (pd_config d)) off"

definition cfg32 :: "PCI_DEVICE \<Rightarrow> nat \<Rightarrow> 32 word" where
  "cfg32 d off = le_read 4 ((!) (pd_config d)) off"

definition set_cfg32 :: "nat \<Rightarrow> 32 word \<Rightarrow> PCI_DEVICE \<Rightarrow> PCI_DEVICE" where
  "set_cfg32 off v = pd_config_update (list_write 4 v off)"

definition set_cfg16 :: "nat \<Rightarrow> 16 word \<Rightarrow> PCI_DEVICE \<Rightarrow> PCI_DEVICE" where
  "set_cfg16 off v = pd_config_update (list_write 2 v off)"

text \<open>Assignments to the members of a packed header: offset, width in bytes and value.\<close>

fun write_fields :: "(nat \<times> nat \<times> 32 word) list \<Rightarrow> 8 word list \<Rightarrow> 8 word list" where
  "write_fields [] xs = xs"
| "write_fields ((off, k, v) # fs) xs = write_fields fs (list_write k v off xs)"

definition set_fields :: "(nat \<times> nat \<times> 32 word) list \<Rightarrow> PCI_DEVICE \<Rightarrow> PCI_DEVICE" where
  "set_fields fs = pd_config_update (write_fields fs)"

definition bar_offset :: "nat \<Rightarrow> nat" where
  "bar_offset i = 0x10 + i * 4"

section \<open>Building a device\<close>

definition CreatePciDevice :: "bkernel \<Rightarrow> PCI_DEVICE option \<times> bkernel" where
  "CreatePciDevice s =
     (let (ok, s) = p_alloc s
      in if \<not> ok then (None, s)
         else (Some \<lparr>pd_config = replicate CONFIG_SIZE 0, pd_bar_size = replicate 6 0,
                     pd_bar_mem = replicate 6 BarUnset, pd_discovery_active = 0,
                     pd_mask_low = replicate 6 0, pd_mask_high = replicate 6 0\<rparr>, s))"

text \<open>A \<^verbatim>\<open>char\<close> is signed; the hash is computed on 32 bits and cut to 16.\<close>

definition GenerateRandomID :: "string \<Rightarrow> 16 word" where
  "GenerateRandomID name =
     ucast (foldl (\<lambda>hash c. (push_bit 5 hash + hash) + scast (of_char c :: 8 word)) (5381 :: 32 word) name)"

definition SetupCommonHeader :: "16 word \<Rightarrow> 8 word \<Rightarrow> 8 word \<Rightarrow> 8 word \<Rightarrow> 8 word \<Rightarrow> PCI_DEVICE
    \<Rightarrow> PCI_DEVICE" where
  "SetupCommonHeader vid type subc cc pf =
     set_fields [(0x00, 2, ucast vid), (0x02, 2, ucast (vid * 13)), (0x04, 2, 0), (0x06, 2, 0),
       (0x08, 1, ucast vid), (0x09, 1, ucast pf), (0x0a, 1, ucast subc), (0x0b, 1, ucast cc),
       (0x0c, 1, 0x10), (0x0d, 1, 0), (0x0e, 1, ucast type), (0x0f, 1, 0)]"

definition set_bar :: "nat \<Rightarrow> 64 word \<Rightarrow> BAR_MEM \<Rightarrow> 32 word \<Rightarrow> PCI_DEVICE \<Rightarrow> PCI_DEVICE" where
  "set_bar i n mem flags d = set_cfg32 (bar_offset i) flags
     (pd_bar_size_update (\<lambda>xs. xs[i := n]) (pd_bar_mem_update (\<lambda>xs. xs[i := mem]) d))"

definition clear_bar :: "nat \<Rightarrow> PCI_DEVICE \<Rightarrow> PCI_DEVICE" where
  "clear_bar i = set_bar i 0 BarNull 0"

text \<open>
  One BAR of a non-zero size. The memory is cleared before the test for null, so a failing
  \<^verbatim>\<open>malloc\<close> is a write through a null pointer.
\<close>

definition install_bar :: "nat \<Rightarrow> BAR_CFG \<Rightarrow> PCI_DEVICE \<Rightarrow> bkernel \<Rightarrow> (PCI_DEVICE \<times> bkernel) res" where
  "install_bar i b d s =
     (let (ok, s) = p_alloc s
      in if \<not> ok then Inl (Undefined ''null pointer'')
         else if bc_is_io b \<and> bc_is_64 b then Inl (Bugcheck ''IO BAR cannot be 64-bit'')
         else let flags = (if bc_is_io b then 0x1 else if bc_is_64 b then push_bit 1 2 else 0)
              in Inr (set_bar i (bc_size b) (BarBlock (\<lambda>_. 0)) flags d, s))"

text \<open>
  The loop over the first \<open>n\<close> BARs; \<open>skip\<close> is what the code does at a BAR of size zero. A 64-bit
  BAR consumes the next slot, which is outside the array when it is the last one.
\<close>

function setup_bars :: "(nat \<Rightarrow> PCI_DEVICE \<Rightarrow> PCI_DEVICE) \<Rightarrow> nat \<Rightarrow> BAR_CFG list \<Rightarrow> nat
    \<Rightarrow> PCI_DEVICE \<Rightarrow> bkernel \<Rightarrow> (PCI_DEVICE \<times> bkernel) res" where
  "setup_bars skip n bars i d s =
     (if i < n
      then bnd (aread bars i) (\<lambda>b.
        if bc_size b = 0 then setup_bars skip n bars (i + 1) (skip i d) s
        else bnd (install_bar i b d s) (\<lambda>(d, s).
          if \<not> bc_is_64 b then setup_bars skip n bars (i + 1) d s
          else if i + 1 < n
               then setup_bars skip n bars (i + 2) (set_cfg32 (bar_offset (i + 1)) 0 d) s
               else Inl (Undefined ''array index'')))
      else Inr (d, s))"
  by pat_completeness auto
termination by (relation "measure (\<lambda>(skip, n, bars, i, d, s). n - i)") auto

definition SetupType0Header :: "16 word \<Rightarrow> BAR_CFG list \<Rightarrow> PCI_DEVICE \<Rightarrow> bkernel
    \<Rightarrow> (PCI_DEVICE \<times> bkernel) res" where
  "SetupType0Header vid bars d s =
     bnd (setup_bars clear_bar 6 bars 0 d s) (\<lambda>(d, s).
     Inr (set_fields [(0x28, 4, 0), (0x2c, 2, ucast vid), (0x2e, 2, ucast vid), (0x30, 4, 0),
       (0x34, 1, 0), (0x35, 1, 0), (0x36, 1, 0), (0x37, 1, 0), (0x38, 4, 0), (0x3c, 1, 0),
       (0x3d, 1, 1), (0x3e, 1, 0), (0x3f, 1, 0)] d, s))"

definition SetupType1Header :: "16 word \<Rightarrow> BAR_CFG list \<Rightarrow> PCI_DEVICE \<Rightarrow> bkernel
    \<Rightarrow> (PCI_DEVICE \<times> bkernel) res" where
  "SetupType1Header mmL bars d s =
     bnd (setup_bars (\<lambda>i d. d) 2 bars 0 (fold clear_bar [0..<6] d) s) (\<lambda>(d, s).
     Inr (set_fields [(0x18, 1, 0), (0x19, 1, 1), (0x1a, 1, 1), (0x1b, 1, 0), (0x1c, 1, 0),
       (0x1d, 1, 0), (0x1e, 2, 0), (0x20, 2, 0), (0x22, 2, ucast mmL), (0x24, 2, 0), (0x26, 2, 0),
       (0x28, 4, 0), (0x2c, 4, 0), (0x30, 2, 0), (0x32, 2, 0), (0x34, 1, 0), (0x38, 4, 0),
       (0x3c, 1, 0), (0x3d, 1, 1), (0x3e, 2, 0)] d, s))"

definition CreateFakeDevice :: "string \<Rightarrow> 8 word \<Rightarrow> 8 word \<Rightarrow> 8 word \<Rightarrow> 8 word \<Rightarrow> 16 word \<Rightarrow> BAR_CFG list
    \<Rightarrow> bkernel \<Rightarrow> (PCI_DEVICE option \<times> bkernel) res" where
  "CreateFakeDevice name type subclass classcode prog_if mmL bars s =
     (case CreatePciDevice s of
        (None, s) \<Rightarrow> Inr (None, s)
      | (Some d, s) \<Rightarrow>
          let vid = GenerateRandomID name;
              d = SetupCommonHeader vid type subclass classcode prog_if d
          in bnd (if type = 0 then SetupType0Header vid bars d s else SetupType1Header mmL bars d s)
               (\<lambda>(d, s). Inr (Some d, s)))"

definition install :: "PCI_ADDR \<Rightarrow> PCI_DEVICE option \<Rightarrow> bkernel \<Rightarrow> bkernel" where
  "install a p = g_pci_bus_update (case p of None \<Rightarrow> AList.delete a | Some d \<Rightarrow> AList.update a d)"

definition no_bar :: BAR_CFG where
  "no_bar = \<lparr>bc_size = 0, bc_is_io = False, bc_is_64 = False\<rparr>"

definition PciDevicePool :: "bkernel \<Rightarrow> bkernel res" where
  "PciDevicePool s =
     (let bars = replicate 6 no_bar;
          disk_bars = bars[0 := \<lparr>bc_size = 0x2000, bc_is_io = False, bc_is_64 = False\<rparr>];
          net_bars = bars[0 := \<lparr>bc_size = 0x4000, bc_is_io = False, bc_is_64 = True\<rparr>];
          gpu_bars = bars[0 := \<lparr>bc_size = 0x100000, bc_is_io = False, bc_is_64 = True\<rparr>,
                          2 := \<lparr>bc_size = 0x1000, bc_is_io = True, bc_is_64 = False\<rparr>];
          bridge_bars = (replicate 2 no_bar)[0 := \<lparr>bc_size = 0x4000, bc_is_io = False, bc_is_64 = False\<rparr>]
      in bnd (CreateFakeDevice ''disk'' 0 0x06 0x01 0x01 0 disk_bars s) (\<lambda>(d, s).
         bnd (CreateFakeDevice ''net'' 0 0x00 0x02 0x00 0 net_bars (install (0, 0, 0) d s)) (\<lambda>(d, s).
         bnd (CreateFakeDevice ''gpu'' 0 0x00 0x03 0x00 0 gpu_bars (install (0, 1, 0) d s)) (\<lambda>(d, s).
         bnd (CreateFakeDevice ''bridge'' 1 0x04 0x06 0x00 0 bridge_bars (install (1, 0, 0) d s)) (\<lambda>(d, s).
         Inr (install (0, 2, 0) d s))))))"

section \<open>The interface to the upper layers\<close>

definition PCI_CMD_SUPPORTED_BASIC :: "16 word" where
  "PCI_CMD_SUPPORTED_BASIC = 0x0001 OR 0x0002 OR 0x0004"

definition PCI_CMD_SUPPORTED_FULL :: "16 word" where
  "PCI_CMD_SUPPORTED_FULL = PCI_CMD_SUPPORTED_BASIC OR 0x0010 OR 0x0040 OR 0x0100"

definition PciSimGetDeviceCommandMask :: "PCI_DEVICE \<Rightarrow> 16 word" where
  "PciSimGetDeviceCommandMask d =
     (let header_type = pd_config d ! 0x0e AND 0x7f;
          class_code = pd_config d ! 0x0b;
          m = (if header_type = 1 then PCI_CMD_SUPPORTED_FULL else PCI_CMD_SUPPORTED_BASIC)
      in if class_code = 0x01 then m OR 0x0010
         else if class_code = 0x02 then m OR 0x0010
         else if class_code = 0x03 then m OR (0x0010 OR 0x0020)
         else m)"

text \<open>
  The accessors of the discovery state test the three indices; a bar index outside 0 to 5 and an
  empty slot read as 0 and ignore writes.
\<close>

definition sim_device :: "PCI_ADDR \<Rightarrow> bkernel \<Rightarrow> PCI_DEVICE option" where
  "sim_device a s = (if pci_in_range a then pci_dev a s else None)"

definition sim_update :: "PCI_ADDR \<Rightarrow> (PCI_DEVICE \<Rightarrow> PCI_DEVICE) \<Rightarrow> bkernel \<Rightarrow> bkernel" where
  "sim_update a f s = (if pci_in_range a then upd_slot a f s else s)"

definition PciSimSetDiscoveryMode :: "PCI_ADDR \<Rightarrow> int \<Rightarrow> bkernel \<Rightarrow> bkernel" where
  "PciSimSetDiscoveryMode a active = sim_update a (\<lambda>d. d\<lparr>pd_discovery_active := active\<rparr>)"

definition PciSimGetDiscoveryMode :: "PCI_ADDR \<Rightarrow> bkernel \<Rightarrow> int" where
  "PciSimGetDiscoveryMode a s =
     (case sim_device a s of None \<Rightarrow> 0 | Some d \<Rightarrow> pd_discovery_active d)"

definition PciSimSetDiscoveryMaskLow :: "PCI_ADDR \<Rightarrow> int \<Rightarrow> 32 word \<Rightarrow> bkernel \<Rightarrow> bkernel" where
  "PciSimSetDiscoveryMaskLow a i m s =
     (if i < 0 \<or> i \<ge> 6 then s
      else sim_update a (\<lambda>d. d\<lparr>pd_mask_low := (pd_mask_low d)[nat i := m]\<rparr>) s)"

definition PciSimSetDiscoveryMaskHigh :: "PCI_ADDR \<Rightarrow> int \<Rightarrow> 32 word \<Rightarrow> bkernel \<Rightarrow> bkernel" where
  "PciSimSetDiscoveryMaskHigh a i m s =
     (if i < 0 \<or> i \<ge> 6 then s
      else sim_update a (\<lambda>d. d\<lparr>pd_mask_high := (pd_mask_high d)[nat i := m]\<rparr>) s)"

definition PciSimGetDiscoveryMaskLow :: "PCI_ADDR \<Rightarrow> int \<Rightarrow> bkernel \<Rightarrow> 32 word" where
  "PciSimGetDiscoveryMaskLow a i s =
     (if i < 0 \<or> i \<ge> 6 then 0
      else case sim_device a s of None \<Rightarrow> 0 | Some d \<Rightarrow> pd_mask_low d ! nat i)"

definition PciSimGetDiscoveryMaskHigh :: "PCI_ADDR \<Rightarrow> int \<Rightarrow> bkernel \<Rightarrow> 32 word" where
  "PciSimGetDiscoveryMaskHigh a i s =
     (if i < 0 \<or> i \<ge> 6 then 0
      else case sim_device a s of None \<Rightarrow> 0 | Some d \<Rightarrow> pd_mask_high d ! nat i)"

definition clear_discovery :: "PCI_DEVICE \<Rightarrow> PCI_DEVICE" where
  "clear_discovery d = d\<lparr>pd_discovery_active := 0, pd_mask_low := replicate 6 0,
     pd_mask_high := replicate 6 0\<rparr>"

definition PciSimClearDiscovery :: "PCI_ADDR \<Rightarrow> bkernel \<Rightarrow> bkernel" where
  "PciSimClearDiscovery a = sim_update a clear_discovery"

text \<open>The functions below use the indices without a test.\<close>

definition PciSimGetConfig :: "PCI_ADDR \<Rightarrow> bkernel \<Rightarrow> 8 word list option res" where
  "PciSimGetConfig a s = bnd (pci_slot a s) (\<lambda>p. Inr (map_option pd_config p))"

definition PciSimGetBarSize :: "PCI_ADDR \<Rightarrow> int \<Rightarrow> bkernel \<Rightarrow> 64 word res" where
  "PciSimGetBarSize a i s = bnd (pci_slot a s) (\<lambda>p.
     case p of None \<Rightarrow> Inr 0
     | Some d \<Rightarrow> if i < 0 \<or> i \<ge> 6 then Inr 0 else Inr (pd_bar_size d ! nat i))"

definition PciSimGetBarMemory :: "PCI_ADDR \<Rightarrow> int \<Rightarrow> bkernel \<Rightarrow> BAR_MEM res" where
  "PciSimGetBarMemory a i s = bnd (pci_slot a s) (\<lambda>p.
     case p of None \<Rightarrow> Inr BarNull
     | Some d \<Rightarrow> if i < 0 \<or> i \<ge> 6 then Inr BarNull else Inr (pd_bar_mem d ! nat i))"

definition set_bar_block :: "PCI_ADDR \<Rightarrow> int \<Rightarrow> bytes \<Rightarrow> bkernel \<Rightarrow> bkernel" where
  "set_bar_block a i m = upd_slot a (\<lambda>d. d\<lparr>pd_bar_mem := (pd_bar_mem d)[nat i := BarBlock m]\<rparr>)"

text \<open>
  The test \<^verbatim>\<open>offset + size > bar_size\<close> is made modulo \<open>2 ^ 64\<close>; an access that passes it because
  the sum wraps is outside the block.
\<close>

definition PciSimReadBar :: "PCI_ADDR \<Rightarrow> int \<Rightarrow> 64 word \<Rightarrow> int \<Rightarrow> bkernel \<Rightarrow> 64 word res" where
  "PciSimReadBar a i off sz s =
     bnd (PciSimGetBarMemory a i s) (\<lambda>mem. bnd (PciSimGetBarSize a i s) (\<lambda>bar_size.
     case mem of
       BarUnset \<Rightarrow> Inl (Undefined ''uninitialised pointer'')
     | BarNull \<Rightarrow> Inr 0
     | BarBlock m \<Rightarrow>
         if off + word_of_int sz > bar_size then Inr 0
         else if sz \<notin> {1, 2, 4, 8} then Inr 0
         else if unat off + nat sz \<le> unat bar_size then Inr (le_read (nat sz) m (unat off))
         else Inl (Undefined ''outside the block'')))"

definition PciSimWriteBar :: "PCI_ADDR \<Rightarrow> int \<Rightarrow> 64 word \<Rightarrow> 64 word \<Rightarrow> int \<Rightarrow> bkernel \<Rightarrow> bkernel res" where
  "PciSimWriteBar a i off v sz s =
     bnd (PciSimGetBarMemory a i s) (\<lambda>mem. bnd (PciSimGetBarSize a i s) (\<lambda>bar_size.
     case mem of
       BarUnset \<Rightarrow> Inl (Undefined ''uninitialised pointer'')
     | BarNull \<Rightarrow> Inr s
     | BarBlock m \<Rightarrow>
         if off + word_of_int sz > bar_size then Inr s
         else if sz \<notin> {1, 2, 4, 8} then Inr s
         else if unat off + nat sz \<le> unat bar_size
         then Inr (set_bar_block a i (le_write (nat sz) v (unat off) m) s)
         else Inl (Undefined ''outside the block'')))"

end
