(* ===== verification/PCI_Logic.thy ===== *)
theory PCI_Logic
  imports PCI_Sim
begin

text \<open>
  The PCI bus logic of \<^verbatim>\<open>B_Kernel/bus/pci_logic.c\<close>: configuration reads and writes with the BAR
  sizing protocol, BAR information and assignment, and the address checks of devices and
  bridges. The bar change callback is \<open>BarChangeHandler\<close> of \<^verbatim>\<open>device/OS_device.c\<close>.
\<close>

section \<open>The bar change callback\<close>

text \<open>The search for the context of a function is shared by the code that walks \<^verbatim>\<open>g_pciDevCtx\<close>.\<close>

definition find_context :: "PCI_ADDR \<Rightarrow> bkernel \<Rightarrow> nat option" where
  "find_context a s = find (\<lambda>c. dc_addr (h_pctx s ! c) = a) (g_pciDevCtx s)"

definition set_base_address :: "nat \<Rightarrow> 64 word \<Rightarrow> PCI_DEVICE_CONTEXT \<Rightarrow> PCI_DEVICE_CONTEXT" where
  "set_base_address i addr =
     dc_bar_info_update (\<lambda>bs. bs[i := (bs ! i)\<lparr>bi_base_address := addr\<rparr>])"

definition BarChangeHandler :: "PCI_ADDR \<Rightarrow> nat \<Rightarrow> 64 word \<Rightarrow> bkernel \<Rightarrow> bkernel" where
  "BarChangeHandler a i addr s =
     (case find_context a s of None \<Rightarrow> s | Some c \<Rightarrow> upd_pctx c (set_base_address i addr) s)"

definition PciRegisterBarChangeCallback :: "BAR_CALLBACK option \<Rightarrow> bkernel \<Rightarrow> bkernel" where
  "PciRegisterBarChangeCallback f s = s\<lparr>gPciBarChangeCallback := f\<rparr>"

definition PciSetDeviceCallback :: "DEVICE_CALLBACK option \<Rightarrow> bkernel \<Rightarrow> bkernel" where
  "PciSetDeviceCallback f s = s\<lparr>gPciDeviceCallback := f\<rparr>"

definition NotifyBarChange :: "PCI_ADDR \<Rightarrow> nat \<Rightarrow> 64 word \<Rightarrow> bkernel \<Rightarrow> bkernel" where
  "NotifyBarChange a i addr s =
     (case gPciBarChangeCallback s of None \<Rightarrow> s
      | Some BarChangeHandler_fn \<Rightarrow> BarChangeHandler a i addr s)"

section \<open>Configuration reads\<close>

definition PciReadVendor :: "PCI_ADDR \<Rightarrow> bkernel \<Rightarrow> 16 word res" where
  "PciReadVendor a s = bnd (pci_slot a s) (\<lambda>p.
     case p of None \<Rightarrow> Inr 0xffff | Some d \<Rightarrow> Inr (cfg16 d 0))"

text \<open>\<^verbatim>\<open>((offset - 0x10) % 8 == 4) && (offset > 0x10)\<close> and \<^verbatim>\<open>(low >> 1) & 0x3\<close>.\<close>

definition is_high_dword :: "8 word \<Rightarrow> bool" where
  "is_high_dword off \<longleftrightarrow> (int (unat off) - 0x10) smod 8 = 4 \<and> off > 0x10"

definition bar_type :: "32 word \<Rightarrow> 32 word" where
  "bar_type low = drop_bit 1 low AND 0x3"

definition discovery_mask :: "PCI_ADDR \<Rightarrow> PCI_DEVICE \<Rightarrow> 8 word \<Rightarrow> bkernel \<Rightarrow> 32 word" where
  "discovery_mask a d off s =
     (let bar_index = (int (unat off) - 0x10) sdiv 4
      in if is_high_dword off
         then if bar_type (cfg32 d (unat off - 4)) = 2
              then PciSimGetDiscoveryMaskHigh a (bar_index - 1) s else 0
         else PciSimGetDiscoveryMaskLow a bar_index s)"

text \<open>
  A read during discovery answers the mask and ends the discovery. The lower bound of the offsets
  is 10, not 0x10, in the code.
\<close>

definition PciConfigRead32 :: "PCI_ADDR \<Rightarrow> 8 word \<Rightarrow> bkernel \<Rightarrow> (32 word \<times> bkernel) res" where
  "PciConfigRead32 a off s = bnd (pci_slot a s) (\<lambda>p.
     case p of
       None \<Rightarrow> Inr (0xffffffff, s)
     | Some d \<Rightarrow>
         let m = (if PciSimGetDiscoveryMode a s \<noteq> 0 \<and> 10 \<le> unat off \<and> unat off < 0x28
                  then discovery_mask a d off s else 0)
         in if m \<noteq> 0 then Inr (m, PciSimClearDiscovery a s)
            else if unat off + 4 \<le> CONFIG_SIZE then Inr (cfg32 d (unat off), s)
            else Inl (Undefined ''array index''))"

section \<open>Configuration writes\<close>

text \<open>The command register: only the bits the device supports change.\<close>

definition write_command :: "32 word \<Rightarrow> PCI_DEVICE \<Rightarrow> PCI_DEVICE" where
  "write_command v d =
     (let writeable_bits = PciSimGetDeviceCommandMask d AND 0x07ff;
          new_cmd = (cfg16 d 0x04 AND NOT writeable_bits) OR (ucast v AND writeable_bits);
          d = set_cfg16 0x04 new_cmd d
      in set_cfg32 0x04 ((cfg32 d 0x04 AND 0xffff0000) OR ucast new_cmd) d)"

text \<open>The BAR that a write at an offset is about, and whether it is a 64-bit BAR.\<close>

definition bar_of_offset :: "PCI_DEVICE \<Rightarrow> 8 word \<Rightarrow> nat \<times> bool" where
  "bar_of_offset d off =
     (let bar_index = (unat off - 0x10) div 4
      in if is_high_dword off
         then if bar_type (cfg32 d (unat off - 4)) = 2 then (bar_index - 1, True)
              else (bar_index, False)
         else (bar_index, bar_type (cfg32 d (unat off)) = 2))"

text \<open>The low and the high mask that answer the sizing write; \<open>orig\<close> is the register written.\<close>

definition sizing_masks :: "64 word \<Rightarrow> bool \<Rightarrow> 32 word \<Rightarrow> 32 word \<times> 32 word" where
  "sizing_masks bar_size is_64bit orig =
     (let mask64 = NOT (bar_size - 1)
      in if orig AND 0x1 \<noteq> 0
         then ((ucast mask64 AND NOT 0x3) OR (orig AND 0x3), 0)
         else if is_64bit
         then ((ucast (mask64 AND 0xffffffff) AND NOT 0xf) OR (orig AND 0xf), ucast (drop_bit 32 mask64))
         else ((ucast mask64 AND NOT 0xf) OR (orig AND 0xf), 0))"

text \<open>What the hardware stores for a value written to a low register.\<close>

definition masked_bar_value :: "64 word \<Rightarrow> 32 word \<Rightarrow> 32 word \<Rightarrow> 32 word" where
  "masked_bar_value bar_size orig v =
     (let size_32 = ucast bar_size; size_mask = NOT (size_32 - 1)
      in (v AND size_mask AND NOT 0xf) OR (orig AND 0xf))"

text \<open>The address a BAR holds, as the low register \<open>low\<close> and the one after it give it.\<close>

definition bar_address :: "32 word \<Rightarrow> 32 word \<Rightarrow> 64 word" where
  "bar_address low high =
     (if low AND 0x1 \<noteq> 0 then ucast (low AND NOT 0x3)
      else if bar_type low = 2 then push_bit 32 (ucast high) OR ucast (low AND NOT 0xf)
      else ucast (low AND NOT 0xf))"

definition start_sizing :: "PCI_ADDR \<Rightarrow> PCI_DEVICE \<Rightarrow> 8 word \<Rightarrow> nat \<Rightarrow> bool \<Rightarrow> 64 word \<Rightarrow> bkernel \<Rightarrow> bkernel" where
  "start_sizing a d off actual_bar is_64bit bar_size s =
     (let masks = sizing_masks bar_size is_64bit (cfg32 d (unat off))
      in PciSimSetDiscoveryMaskHigh a (int actual_bar) (snd masks)
           (PciSimSetDiscoveryMaskLow a (int actual_bar) (fst masks) (PciSimSetDiscoveryMode a 1 s)))"

definition notify_write :: "PCI_ADDR \<Rightarrow> 8 word \<Rightarrow> nat \<Rightarrow> bkernel \<Rightarrow> bkernel res" where
  "notify_write a off actual_bar s =
     (if is_high_dword off then Inr s
      else bnd (bnd (pci_slot a s) deref) (\<lambda>d.
        Inr (NotifyBarChange a actual_bar (bar_address (cfg32 d (unat off)) (cfg32 d (unat off + 4))) s)))"

text \<open>A write to one of the six BAR registers; the header type is read for a debug message.\<close>

definition write_bar_register :: "PCI_ADDR \<Rightarrow> PCI_DEVICE \<Rightarrow> 8 word \<Rightarrow> 32 word \<Rightarrow> bkernel \<Rightarrow> (32 word \<times> bkernel) res" where
  "write_bar_register a d off v s =
     bnd (PciConfigRead32 a 0x0C s) (\<lambda>(header, s).
     let (actual_bar, is_64bit) = bar_of_offset d off
     in bnd (PciSimGetBarSize a (int actual_bar) s) (\<lambda>bar_size.
        if v = 0xffffffff
        then if bar_size = 0 then Inr (0, s)
             else Inr (0, start_sizing a d off actual_bar is_64bit bar_size s)
        else let stored = (if bar_size > 0 \<and> \<not> is_high_dword off
                           then masked_bar_value bar_size (cfg32 d (unat off)) v else v)
             in bnd (notify_write a off actual_bar
                      (upd_slot a (set_cfg32 (unat off) stored) (PciSimClearDiscovery a s)))
                  (\<lambda>s. Inr (0, s))))"

definition PciConfigWrite32 :: "PCI_ADDR \<Rightarrow> 8 word \<Rightarrow> 32 word \<Rightarrow> bkernel \<Rightarrow> (32 word \<times> bkernel) res" where
  "PciConfigWrite32 a off v s = bnd (pci_slot a s) (\<lambda>p.
     case p of
       None \<Rightarrow> Inr (0xffffffff, s)
     | Some d \<Rightarrow>
         if 0x04 \<le> off \<and> off < 0x08
         then if off = 0x04 then Inr (v, upd_slot a (write_command v) s) else Inr (0, s)
         else if 0x10 \<le> off \<and> off < 0x28 then write_bar_register a d off v s
         else if unat off + 4 \<le> CONFIG_SIZE then Inr (0, upd_slot a (set_cfg32 (unat off) v) s)
         else Inl (Undefined ''array index''))"

section \<open>BAR information\<close>

text \<open>The sizing protocol: write all ones, read back.\<close>

definition size_probe :: "PCI_ADDR \<Rightarrow> 8 word \<Rightarrow> bkernel \<Rightarrow> (32 word \<times> bkernel) res" where
  "size_probe a off s = bnd (PciConfigWrite32 a off 0xffffffff s) (\<lambda>(_, s). PciConfigRead32 a off s)"

definition io_bar_info :: "32 word \<Rightarrow> 32 word \<Rightarrow> PCI_BAR_INFO" where
  "io_bar_info orig_low size_low =
     (if size_low \<noteq> 0 \<and> size_low \<noteq> 0xffffffff
      then \<lparr>bi_base_address = ucast (orig_low AND NOT 0x3),
            bi_size = ucast (NOT (size_low AND NOT 0x3) + 1), bi_is_io = True, bi_is_64bit = False\<rparr>
      else zero_bar_info)"

definition mem_bar_info :: "bool \<Rightarrow> 32 word \<Rightarrow> 32 word \<Rightarrow> 32 word \<Rightarrow> 32 word \<Rightarrow> PCI_BAR_INFO" where
  "mem_bar_info is_64 orig_low orig_high size_low size_high =
     (if size_low \<noteq> 0 \<and> size_low \<noteq> 0xffffffff
      then if is_64
           then let mask = (ucast size_low AND 0xfffffff0) OR push_bit 32 (ucast size_high) :: 64 word;
                    sz = NOT mask + 1
                in \<lparr>bi_base_address = push_bit 32 (ucast orig_high) OR ucast (orig_low AND NOT 0xf),
                    bi_size = (if sz = 0 \<and> mask \<noteq> 0 then push_bit 63 1 else sz),
                    bi_is_io = False, bi_is_64bit = True\<rparr>
           else \<lparr>bi_base_address = ucast (orig_low AND NOT 0xf),
                 bi_size = ucast (NOT (size_low AND NOT 0xf) + 1),
                 bi_is_io = False, bi_is_64bit = False\<rparr>
      else zero_bar_info)"

definition check_size :: "PCI_BAR_INFO \<Rightarrow> PCI_BAR_INFO" where
  "check_size pbi =
     (if bi_size pbi = 0 \<or> bi_size pbi AND (bi_size pbi - 1) \<noteq> 0 \<or> bi_size pbi < 4
      then pbi\<lparr>bi_size := 0\<rparr> else pbi)"

definition GetPciBarInfo :: "PCI_ADDR \<Rightarrow> 32 word \<Rightarrow> bkernel \<Rightarrow> (PCI_BAR_INFO \<times> bkernel) res" where
  "GetPciBarInfo a bar s =
     (let off = ucast (0x10 + bar * 4) :: 8 word
      in bnd (PciConfigRead32 a off s) (\<lambda>(orig_low, s).
         if orig_low AND 1 \<noteq> 0
         then bnd (size_probe a off s) (\<lambda>(size_low, s).
              bnd (PciConfigWrite32 a off orig_low s) (\<lambda>(_, s).
              Inr (check_size (io_bar_info orig_low size_low), s)))
         else let is_64 = (bar_type orig_low = 2)
              in if is_64 \<and> bar \<ge> 5 then Inr (zero_bar_info, s)
                 else bnd (if is_64 then PciConfigRead32 a (off + 4) s else Inr (0, s)) (\<lambda>(orig_high, s).
                      bnd (size_probe a off s) (\<lambda>(size_low, s).
                      bnd (if is_64 then size_probe a (off + 4) s else Inr (0, s)) (\<lambda>(size_high, s).
                      bnd (PciConfigWrite32 a off orig_low s) (\<lambda>(_, s).
                      bnd (if is_64 then PciConfigWrite32 a (off + 4) orig_high s else Inr (0, s)) (\<lambda>(_, s).
                      Inr (check_size (mem_bar_info is_64 orig_low orig_high size_low size_high), s))))))))"

definition PciGetHeaderType :: "PCI_ADDR \<Rightarrow> bkernel \<Rightarrow> (8 word \<times> bkernel) res" where
  "PciGetHeaderType a s = bnd (PciConfigRead32 a 0x0c s) (\<lambda>(v, s). Inr (ucast (drop_bit 16 v AND 0x7f), s))"

definition PciGetSecondaryBus :: "PCI_ADDR \<Rightarrow> bkernel \<Rightarrow> (8 word \<times> bkernel) res" where
  "PciGetSecondaryBus a s = bnd (PciConfigRead32 a 0x18 s) (\<lambda>(v, s). Inr (ucast (drop_bit 8 v AND 0xff), s))"

definition PciSetBarAddress :: "PCI_ADDR \<Rightarrow> int \<Rightarrow> 64 word \<Rightarrow> bkernel \<Rightarrow> bkernel res" where
  "PciSetBarAddress a i address s =
     (let off = word_of_int (0x10 + i * 4) :: 8 word
      in bnd (PciConfigRead32 a off s) (\<lambda>(orig, s).
         if orig AND 0x1 \<noteq> 0
         then bnd (PciConfigWrite32 a off (ucast (address AND 0xfffffffc) OR (orig AND 0x3)) s) (\<lambda>(_, s). Inr s)
         else if bar_type orig = 2
         then bnd (PciConfigWrite32 a off (ucast (address AND 0xfffffff0) OR (orig AND 0xf)) s) (\<lambda>(_, s).
              bnd (PciConfigWrite32 a (off + 4) (ucast (drop_bit 32 address)) s) (\<lambda>(_, s). Inr s))
         else bnd (PciConfigWrite32 a off (ucast (address AND 0xfffffff0) OR (orig AND 0xf)) s) (\<lambda>(_, s). Inr s)))"

definition PciGetBarMemory :: "PCI_ADDR \<Rightarrow> int \<Rightarrow> bkernel \<Rightarrow> BAR_MEM res" where
  "PciGetBarMemory = PciSimGetBarMemory"

definition PciReadBar :: "PCI_ADDR \<Rightarrow> int \<Rightarrow> 64 word \<Rightarrow> int \<Rightarrow> bkernel \<Rightarrow> 64 word res" where
  "PciReadBar = PciSimReadBar"

definition PciWriteBar :: "PCI_ADDR \<Rightarrow> int \<Rightarrow> 64 word \<Rightarrow> 64 word \<Rightarrow> int \<Rightarrow> bkernel \<Rightarrow> bkernel res" where
  "PciWriteBar = PciSimWriteBar"

section \<open>Address checks\<close>

text \<open>The loop over the BARs; a 64-bit BAR consumes two of them.\<close>

function validate_bars :: "PCI_DEVICE \<Rightarrow> 64 word \<Rightarrow> nat \<Rightarrow> bool" where
  "validate_bars d address i =
     (if i < 6
      then let bar_size = pd_bar_size d ! i;
               bar_raw = cfg32 d (bar_offset i);
               is_64 = (bar_raw AND 0x7 = 0x4);
               bar_addr = ucast (bar_raw AND NOT 0xf)
                 OR (if is_64 then push_bit 32 (ucast (cfg32 d (bar_offset (i + 1)))) else 0);
               next_bar = (if is_64 then i + 2 else i + 1)
           in if bar_size = 0 then validate_bars d address (i + 1)
              else if bar_addr \<noteq> 0 \<and> address \<ge> bar_addr \<and> address < bar_addr + bar_size then True
              else validate_bars d address next_bar
      else False)"
  by pat_completeness auto
termination by (relation "measure (\<lambda>(d, address, i). 6 - i)") (auto split: if_splits)

definition PciValidateAccess :: "PCI_ADDR \<Rightarrow> 64 word \<Rightarrow> bool \<Rightarrow> bkernel \<Rightarrow> bool res" where
  "PciValidateAccess a address is_io s = bnd (pci_slot a s) (\<lambda>p.
     case p of
       None \<Rightarrow> Inr False
     | Some d \<Rightarrow>
         let command = cfg16 d 0x04
         in if is_io \<and> command AND 0x0001 = 0 then Inr False
            else if \<not> is_io \<and> command AND 0x0002 = 0 then Inr False
            else Inr (validate_bars d address 0))"

text \<open>
  The windows of a bridge. In the prefetchable window a 16-bit value is shifted into the sign bit
  of an \<^verbatim>\<open>int\<close> when it is 0x8000 or more, which C leaves undefined.
\<close>

definition in_io_window :: "PCI_DEVICE \<Rightarrow> 64 word \<Rightarrow> bool" where
  "in_io_window d address =
     (let io_base = pd_config d ! 0x1c; io_limit = pd_config d ! 0x1d;
          io_addr = ucast address :: 16 word;
          window_base = push_bit 8 (ucast (io_base AND 0xf0)) :: 16 word;
          window_limit = push_bit 8 (ucast (io_limit AND 0xf0)) OR 0xfff :: 16 word
      in io_base \<noteq> 0 \<and> io_limit \<noteq> 0 \<and> io_addr \<ge> window_base \<and> io_addr \<le> window_limit)"

definition window_base :: "16 word \<Rightarrow> 64 word" where
  "window_base b = push_bit 16 (ucast (b AND 0xfff0))"

definition window_limit :: "16 word \<Rightarrow> 64 word" where
  "window_limit l = push_bit 16 (ucast (l AND 0xfff0)) OR 0xfffff"

definition in_memory_window :: "PCI_DEVICE \<Rightarrow> 64 word \<Rightarrow> bool" where
  "in_memory_window d address =
     (let mem_window = cfg32 d 0x20;
          mem_base = ucast mem_window; mem_limit = ucast (drop_bit 16 mem_window)
      in (mem_base \<noteq> 0 \<or> mem_limit \<noteq> 0) \<and> address \<ge> window_base mem_base \<and> address \<le> window_limit mem_limit)"

definition in_prefetch_window :: "PCI_DEVICE \<Rightarrow> 64 word \<Rightarrow> bool res" where
  "in_prefetch_window d address =
     (let pref_base = cfg16 d 0x24; pref_limit = cfg16 d 0x26;
          base_upper = push_bit 32 (ucast (cfg32 d 0x28)); limit_upper = push_bit 32 (ucast (cfg32 d 0x2c))
      in if pref_base = 0 \<or> pref_limit = 0 then Inr False
         else if pref_base \<ge> 0x8000 \<or> pref_limit \<ge> 0x8000 then Inl (Undefined ''shift overflow'')
         else Inr (address \<ge> window_base pref_base OR base_upper \<and> address \<le> window_limit pref_limit OR limit_upper))"

definition PciBridgeValidateForward :: "PCI_ADDR \<Rightarrow> 64 word \<Rightarrow> bool \<Rightarrow> bkernel \<Rightarrow> bool res" where
  "PciBridgeValidateForward a address is_io s = bnd (pci_slot a s) (\<lambda>p.
     case p of
       None \<Rightarrow> Inr False
     | Some d \<Rightarrow>
         let header_type = pd_config d ! 0x0e AND 0x7f; command = cfg16 d 0x04
         in if header_type \<noteq> 1 then Inr False
            else if command AND 0x0004 = 0 then Inr False
            else if is_io
            then Inr (command AND 0x0001 \<noteq> 0 \<and> in_io_window d address)
            else if command AND 0x0002 = 0 then Inr False
            else if in_memory_window d address then Inr True
            else in_prefetch_window d address)"

end
