(* ===== verification/PCI_Facts.thy ===== *)
theory PCI_Facts
  imports PCI_Logic
begin

text \<open>
  Facts about \<open>PCI_Sim\<close> and \<open>PCI_Logic\<close>: registers of a configuration space, well-formed and idle
  devices, and the arithmetic of the sizing masks.
\<close>

section \<open>Registers\<close>

definition dev_wf :: "PCI_DEVICE \<Rightarrow> bool" where
  "dev_wf d \<longleftrightarrow> length (pd_config d) = CONFIG_SIZE \<and> length (pd_bar_size d) = 6
     \<and> length (pd_bar_mem d) = 6 \<and> length (pd_mask_low d) = 6 \<and> length (pd_mask_high d) = 6"

text \<open>No BAR is being sized.\<close>

definition idle :: "PCI_DEVICE \<Rightarrow> bool" where
  "idle d \<longleftrightarrow> pd_discovery_active d = 0 \<and> pd_mask_low d = replicate 6 0 \<and> pd_mask_high d = replicate 6 0"

lemma set_cfg_sel [simp]:
  "pd_bar_size (set_cfg32 off v d) = pd_bar_size d" "pd_bar_mem (set_cfg32 off v d) = pd_bar_mem d"
  "pd_discovery_active (set_cfg32 off v d) = pd_discovery_active d"
  "pd_mask_low (set_cfg32 off v d) = pd_mask_low d" "pd_mask_high (set_cfg32 off v d) = pd_mask_high d"
  "length (pd_config (set_cfg32 off v d)) = length (pd_config d)"
  "pd_bar_size (set_cfg16 off w d) = pd_bar_size d" "pd_bar_mem (set_cfg16 off w d) = pd_bar_mem d"
  "pd_discovery_active (set_cfg16 off w d) = pd_discovery_active d"
  "pd_mask_low (set_cfg16 off w d) = pd_mask_low d" "pd_mask_high (set_cfg16 off w d) = pd_mask_high d"
  "length (pd_config (set_cfg16 off w d)) = length (pd_config d)"
  by (cases d, simp add: set_cfg32_def set_cfg16_def)+

lemma set_cfg_wf [simp]:
  "dev_wf (set_cfg32 off v d) = dev_wf d" "idle (set_cfg32 off v d) = idle d"
  "dev_wf (set_cfg16 off w d) = dev_wf d" "idle (set_cfg16 off w d) = idle d"
  by (simp_all add: dev_wf_def idle_def)

lemma clear_discovery_sel [simp]:
  "pd_config (clear_discovery d) = pd_config d" "pd_bar_size (clear_discovery d) = pd_bar_size d"
  "pd_bar_mem (clear_discovery d) = pd_bar_mem d" "idle (clear_discovery d)"
  "cfg32 (clear_discovery d) off = cfg32 d off" "cfg16 (clear_discovery d) off = cfg16 d off"
  by (simp_all add: clear_discovery_def idle_def cfg32_def cfg16_def)

lemma clear_discovery_idle: "idle d \<Longrightarrow> clear_discovery d = d"
  by (cases d) (simp add: clear_discovery_def idle_def)

lemma cfg32_set [simp]:
  "dev_wf d \<Longrightarrow> off + 4 \<le> CONFIG_SIZE \<Longrightarrow> cfg32 (set_cfg32 off v d) off = v"
  by (cases d) (simp add: cfg32_def set_cfg32_def dev_wf_def nth_list_write le_read_write_full)

lemma cfg32_set_other:
  "dev_wf d \<Longrightarrow> off + 4 \<le> CONFIG_SIZE \<Longrightarrow> off' + 4 \<le> off \<or> off + 4 \<le> off' \<Longrightarrow>
   cfg32 (set_cfg32 off v d) off' = cfg32 d off'"
  by (cases d) (simp add: cfg32_def set_cfg32_def dev_wf_def nth_list_write le_read_other)

lemma cfg16_set_other:
  "dev_wf d \<Longrightarrow> off + 4 \<le> CONFIG_SIZE \<Longrightarrow> off' + 2 \<le> off \<or> off + 4 \<le> off' \<Longrightarrow>
   cfg16 (set_cfg32 off v d) off' = cfg16 d off'"
  by (cases d) (simp add: cfg16_def set_cfg32_def dev_wf_def nth_list_write le_read_other)

lemma list_write_read: "a + k \<le> length xs \<Longrightarrow> 8 * k \<le> LENGTH('a) \<Longrightarrow>
    list_write k (le_read k ((!) xs) a :: 'a :: len word) a xs = xs"
  by (intro nth_equalityI) (simp_all add: nth_list_write le_write_read)

lemma set_cfg32_cfg32: "dev_wf d \<Longrightarrow> off + 4 \<le> CONFIG_SIZE \<Longrightarrow> set_cfg32 off (cfg32 d off) d = d"
  by (cases d) (simp add: cfg32_def set_cfg32_def dev_wf_def list_write_read)

lemma dev_wf_config_lengths: "dev_wf d \<Longrightarrow> length (pd_config d) = 256"
  by (simp add: dev_wf_def CONFIG_SIZE_def)

section \<open>Offsets of the BARs\<close>

definition bar_reg :: "nat \<Rightarrow> 8 word" where
  "bar_reg b = word_of_nat (bar_offset b)"

lemma unat_bar_reg [simp]: "b < 8 \<Longrightarrow> unat (bar_reg b) = 0x10 + b * 4"
  by (simp add: bar_reg_def bar_offset_def unat_of_nat del: of_nat_add of_nat_mult)

lemma uint_bar_reg [simp]: "b < 8 \<Longrightarrow> uint (bar_reg b) = 0x10 + int b * 4"
  by (subst uint_nat, subst unat_bar_reg) simp_all

lemma signed_nonneg: "0 \<le> x \<Longrightarrow> (x :: int) smod 8 = x mod 8" "0 \<le> x \<Longrightarrow> x sdiv 4 = x div 4"
  by (auto simp: signed_modulo_int_def signed_divide_int_def sgn_if)

lemma bar_reg_high: "b < 6 \<Longrightarrow> is_high_dword (bar_reg b) \<longleftrightarrow> odd b"
proof -
  assume b: "b < 6"
  then have "(int b * 4) mod 8 = 4 \<longleftrightarrow> odd b" by presburger
  with b show ?thesis by (auto simp: is_high_dword_def signed_nonneg word_less_nat_alt odd_pos)
qed

lemma bar_reg_next: "b < 7 \<Longrightarrow> bar_reg b + 4 = bar_reg (b + 1)"
  by (simp add: bar_reg_def bar_offset_def)

lemma bar_reg_range [simp]:
  "b < 6 \<Longrightarrow> 0x10 \<le> bar_reg b" "b < 6 \<Longrightarrow> bar_reg b < 0x28" "b < 6 \<Longrightarrow> \<not> bar_reg b < 8"
  by (simp_all add: word_le_nat_alt word_less_nat_alt)

section \<open>Reads and writes of an idle device\<close>

lemma sim_device_slot: "pci_in_range a \<Longrightarrow> sim_device a s = pci_dev a s"
  by (simp add: sim_device_def)

lemma PciConfigRead32_idle:
  assumes "pci_in_range a" "pci_dev a s = Some d" "idle d" "unat off + 4 \<le> CONFIG_SIZE"
  shows "PciConfigRead32 a off s = Inr (cfg32 d (unat off), s)"
  using assms by (simp add: PciConfigRead32_def pci_slot_def PciSimGetDiscoveryMode_def sim_device_def idle_def)

lemma bar_of_offset_low:
  "b < 6 \<Longrightarrow> even b \<Longrightarrow> bar_of_offset d (bar_reg b) = (b, bar_type (cfg32 d (bar_offset b)) = 2)"
  by (simp add: bar_of_offset_def bar_reg_high bar_offset_def)

lemma bar_of_offset_high:
  "b < 5 \<Longrightarrow> even b \<Longrightarrow> bar_type (cfg32 d (bar_offset b)) = 2 \<Longrightarrow> bar_of_offset d (bar_reg (b + 1)) = (b, True)"
  by (simp add: bar_of_offset_def bar_reg_high bar_offset_def)


section \<open>The sizing protocol\<close>

text \<open>
  The sizing write puts the device into discovery with the two masks; the read that answers a
  mask that is not zero puts it back.
\<close>

definition sizing :: "nat \<Rightarrow> 32 word \<times> 32 word \<Rightarrow> PCI_DEVICE \<Rightarrow> PCI_DEVICE" where
  "sizing b masks d = d\<lparr>pd_discovery_active := 1, pd_mask_low := (pd_mask_low d)[b := fst masks],
     pd_mask_high := (pd_mask_high d)[b := snd masks]\<rparr>"

lemma clear_sizing: "idle d \<Longrightarrow> clear_discovery (sizing b masks d) = d"
  by (cases d) (simp add: clear_discovery_def idle_def sizing_def)

lemma sizing_sel [simp]:
  "pd_config (sizing b masks d) = pd_config d" "cfg32 (sizing b masks d) off = cfg32 d off"
  "pd_discovery_active (sizing b masks d) = 1"
  "pd_mask_low (sizing b masks d) = (pd_mask_low d)[b := fst masks]"
  "pd_mask_high (sizing b masks d) = (pd_mask_high d)[b := snd masks]"
  by (simp_all add: sizing_def cfg32_def)

lemma start_sizing_eq:
  assumes "pci_in_range a" "b < 6"
  shows "start_sizing a d off b is_64 n s = upd_slot a (sizing b (sizing_masks n is_64 (cfg32 d (unat off)))) s"
  using assms
  by (simp add: start_sizing_def PciSimSetDiscoveryMaskHigh_def PciSimSetDiscoveryMaskLow_def
      PciSimSetDiscoveryMode_def sim_update_def Let_def sizing_def cong: option.map_cong)
    (rule arg_cong [where f = "\<lambda>f. upd_slot a f s"], simp add: fun_eq_iff sizing_def)

locale idle_slot =
  fixes a :: PCI_ADDR and s :: bkernel and d :: PCI_DEVICE
  assumes in_range: "pci_in_range a"
    and dev: "pci_dev a s = Some d"
    and wf: "dev_wf d"
    and idle: "idle d"
begin

lemma read_register: "b < 6 \<Longrightarrow> PciConfigRead32 a (bar_reg b) s = Inr (cfg32 d (bar_offset b), s)"
  using PciConfigRead32_idle [OF in_range dev idle] by (simp add: CONFIG_SIZE_def bar_offset_def)

lemma sizing_write:
  assumes "b < 6" "bar_of_offset d (bar_reg b) = (b', is_64)" "b' < 6" "pd_bar_size d ! b' \<noteq> 0"
  shows "PciConfigWrite32 a (bar_reg b) 0xffffffff s
    = Inr (0, upd_slot a (sizing b' (sizing_masks (pd_bar_size d ! b') is_64 (cfg32 d (bar_offset b)))) s)"
  using assms in_range dev PciConfigRead32_idle [OF in_range dev idle, of "0x0C"]
  by (simp add: PciConfigWrite32_def pci_slot_def write_bar_register_def CONFIG_SIZE_def
      PciSimGetBarSize_def start_sizing_eq bar_offset_def)

lemma probe:
  assumes "b < 6" "bar_of_offset d (bar_reg b) = (b', is_64)" "b' < 6" "pd_bar_size d ! b' \<noteq> 0"
    and "m = (if even b then fst (sizing_masks (pd_bar_size d ! b') is_64 (cfg32 d (bar_offset b)))
              else snd (sizing_masks (pd_bar_size d ! b') is_64 (cfg32 d (bar_offset b))))"
    and "even b \<or> bar_type (cfg32 d (bar_offset b')) = 2 \<and> b = b' + 1" "even b \<Longrightarrow> b' = b" "m \<noteq> 0"
  shows "size_probe a (bar_reg b) s = Inr (m, s)"
proof -
  let ?masks = "sizing_masks (pd_bar_size d ! b') is_64 (cfg32 d (bar_offset b))"
  define d1 where "d1 = sizing b' ?masks d"
  define s1 where "s1 = upd_slot a (sizing b' ?masks) s"
  have p: "pci_dev a s1 = Some d1" using dev by (simp add: s1_def d1_def)
  then have sd: "sim_device a s1 = Some d1" using in_range by (simp add: sim_device_def)
  have lens: "length (pd_mask_low d) = 6" "length (pd_mask_high d) = 6" using wf by (simp_all add: dev_wf_def)
  have idx: "(int (unat (bar_reg b)) - 16) sdiv 4 = int b" using assms(1) by (simp add: signed_nonneg)
  have "discovery_mask a d1 (bar_reg b) s1 = m"
  proof (cases "even b")
    case True
    then show ?thesis using assms lens sd idx
      by (simp add: discovery_mask_def bar_reg_high PciSimGetDiscoveryMaskLow_def d1_def)
  next
    case False
    then have b: "bar_type (cfg32 d (bar_offset b')) = 2" "b = b' + 1" using assms(6) by simp_all
    with False show ?thesis using assms(1,3,5) lens sd idx
      by (simp add: discovery_mask_def bar_reg_high PciSimGetDiscoveryMaskHigh_def d1_def bar_offset_def)
  qed
  moreover have "PciSimClearDiscovery a s1 = s"
    using in_range dev clear_sizing [OF idle]
    by (simp add: PciSimClearDiscovery_def sim_update_def upd_slot_id s1_def)
  moreover have "PciConfigWrite32 a (bar_reg b) 0xffffffff s = Inr (0, s1)"
    using sizing_write [OF assms(1-4)] by (simp add: s1_def)
  moreover have "PciSimGetDiscoveryMode a s1 = 1" using sd by (simp add: PciSimGetDiscoveryMode_def d1_def)
  ultimately show ?thesis
    using p in_range assms(1,8) by (simp add: size_probe_def PciConfigRead32_def pci_slot_def)
qed

lemma clear_idle: "PciSimClearDiscovery a s = s"
  using in_range dev clear_discovery_idle [OF idle]
  by (simp add: PciSimClearDiscovery_def sim_update_def upd_slot_id)

lemma write_low:
  assumes "b < 6" "even b" "v \<noteq> 0xffffffff"
    and "w = (if pd_bar_size d ! b > 0 then masked_bar_value (pd_bar_size d ! b) (cfg32 d (bar_offset b)) v else v)"
  shows "PciConfigWrite32 a (bar_reg b) v s
    = Inr (0, NotifyBarChange a b (bar_address w (cfg32 d (bar_offset (b + 1))))
                (upd_slot a (set_cfg32 (bar_offset b) w) s))"
proof -
  have off: "unat (bar_reg b) = bar_offset b" using assms(1) by (simp add: bar_offset_def)
  have "cfg32 (set_cfg32 (bar_offset b) w d) (bar_offset b + 4) = cfg32 d (bar_offset (b + 1))" for w
    using assms(1) wf by (simp add: cfg32_set_other CONFIG_SIZE_def bar_offset_def)
  moreover have "cfg32 (set_cfg32 (bar_offset b) w d) (bar_offset b) = w" for w
    using assms(1) wf by (simp add: CONFIG_SIZE_def bar_offset_def)
  ultimately show ?thesis
    using assms in_range dev PciConfigRead32_idle [OF in_range dev idle, of "0x0C"] clear_idle off
    by (simp add: PciConfigWrite32_def pci_slot_def write_bar_register_def CONFIG_SIZE_def
        PciSimGetBarSize_def bar_of_offset_low bar_reg_high notify_write_def Let_def)
qed

lemma write_high:
  assumes "b < 6" "odd b" "v \<noteq> 0xffffffff"
  shows "PciConfigWrite32 a (bar_reg b) v s = Inr (0, upd_slot a (set_cfg32 (bar_offset b) v) s)"
proof -
  obtain b' is_64 where b': "bar_of_offset d (bar_reg b) = (b', is_64)" by fastforce
  have off: "unat (bar_reg b) = bar_offset b" using assms(1) by (simp add: bar_offset_def)
  show ?thesis
    using assms in_range dev PciConfigRead32_idle [OF in_range dev idle, of "0x0C"] clear_idle off b'
    by (simp add: PciConfigWrite32_def pci_slot_def write_bar_register_def CONFIG_SIZE_def
        PciSimGetBarSize_def bar_reg_high notify_write_def)
qed

end

text \<open>The callback changes only contexts.\<close>

lemma NotifyBarChange_bus [simp]:
  "g_pci_bus (NotifyBarChange a i addr s) = g_pci_bus s"
  "pci_dev b (NotifyBarChange a i addr s) = pci_dev b s"
  by (simp_all add: NotifyBarChange_def BarChangeHandler_def upd_pctx_def pci_dev_def
      split: option.split BAR_CALLBACK.split)

lemma idle_slot_notify: "idle_slot a s d \<Longrightarrow> idle_slot a (NotifyBarChange a' i addr s) d"
  by (simp add: idle_slot_def)

section \<open>Arithmetic of the masks\<close>

lemma mask_words: "(0xf :: 'a :: len word) = mask 4" "(0x3 :: 'a word) = mask 2"
  "(0x7 :: 'a word) = mask 3" "(1 :: 'a word) = mask 1"
  by (simp_all add: mask_numeral)

lemma exp_minus_1: "(2 :: 'a :: len word) ^ k - 1 = mask k"
  by (simp add: mask_eq_exp_minus_1)

text \<open>The stored value of a register is the value itself when the value keeps the flags and is aligned.\<close>

lemma masked_bar_value_same:
  assumes "bar_size = 2 ^ k" "k < 64" "low AND NOT 0xf AND mask k = 0"
  shows "masked_bar_value bar_size low low = low"
proof -
  have "(ucast bar_size - 1 :: 32 word) = mask k"
  proof (cases "k < 32")
    case True
    then have "ucast bar_size = (2 ^ k :: 32 word)"
      by (intro bit_word_eqI) (auto simp: assms(1) bit_simps)
    then show ?thesis by (simp add: exp_minus_1)
  next
    case False
    then have "ucast bar_size = (0 :: 32 word)"
      by (intro bit_word_eqI) (auto simp: assms(1) bit_simps)
    with False show ?thesis by (intro bit_word_eqI) (simp add: bit_simps)
  qed
  moreover have "(low AND NOT (mask k) AND NOT 0xf) OR (low AND 0xf) = low"
  proof (rule bit_word_eqI)
    fix n assume n: "n < LENGTH(32)"
    have "bit (low AND NOT 0xf AND mask k) n = False" using assms(3) by simp
    then show "bit ((low AND NOT (mask k) AND NOT 0xf) OR (low AND 0xf)) n = bit low n"
      using n by (auto simp: bit_simps)
  qed
  ultimately show ?thesis by (simp add: masked_bar_value_def Let_def)
qed

text \<open>The size computed from the mask a 32-bit BAR answers.\<close>

lemma size_of_mask:
  fixes f :: "32 word"
  assumes "j \<le> k" "k < 32" "bar_size = (2 ^ k :: 64 word)"
    and "m = (ucast (NOT (bar_size - 1)) AND NOT (mask j)) OR (f AND mask j)"
  shows "ucast (NOT (m AND NOT (mask j)) + 1 :: 32 word) = bar_size" "m \<noteq> 0"
proof -
  have "NOT (m AND NOT (mask j)) = mask k"
    using assms(1,2) by (intro bit_word_eqI) (auto simp: assms(3,4) exp_minus_1 bit_simps)
  then have "NOT (m AND NOT (mask j)) + 1 = (2 ^ k :: 32 word)"
    by (simp add: mask_eq_exp_minus_1)
  then show "ucast (NOT (m AND NOT (mask j)) + 1 :: 32 word) = bar_size"
    using assms(2) by (simp add: assms(3)) (intro bit_word_eqI, auto simp: bit_simps)
  have "bit m 31" using assms(1,2) by (auto simp: assms(3,4) exp_minus_1 bit_simps)
  then show "m \<noteq> 0" by auto
qed

lemma unat_exp: "k < LENGTH('a) \<Longrightarrow> unat (2 ^ k :: 'a :: len word) = 2 ^ k"
proof -
  assume k: "k < LENGTH('a)"
  have "unat (word_of_nat (2 ^ k) :: 'a word) = 2 ^ k"
    using k by (simp only: unat_of_nat take_bit_nat_eq_self power_strict_increasing_iff) simp
  then show ?thesis by simp
qed

lemma check_size_power:
  assumes "bi_size bi = 2 ^ k" "2 \<le> k" "k < 64"
  shows "check_size bi = bi"
proof -
  have "bi_size bi AND (bi_size bi - 1) = 0"
    by (simp add: assms(1) exp_minus_1) (intro bit_word_eqI, auto simp: bit_simps)
  moreover have "unat (2 ^ k :: 64 word) = 2 ^ k" by (rule unat_exp) (use assms(3) in simp)
  moreover have "(4 :: nat) \<le> 2 ^ k" using assms(2) power_increasing [of 2 k "2 :: nat"] by simp
  ultimately show ?thesis
    using assms(1) by (simp add: check_size_def word_less_nat_alt)
qed

end
