(* ===== verification/PCI_Bars.thy ===== *)
theory PCI_Bars
  imports PCI_Facts
begin

text \<open>
  What the sizing protocol of \<open>GetPciBarInfo\<close> finds out, and that it leaves the device as it was: first
  as an interface (\<open>sizing_protocol\<close>), then for the registers of \<^verbatim>\<open>B_Kernel\<close>.
\<close>

lemma bar_reg_word: "b < 6 \<Longrightarrow> ucast (0x10 + word_of_nat b * 4 :: 32 word) = bar_reg b"
proof -
  assume "b < 6"
  then have "b \<in> {0, 1, 2, 3, 4, 5}" by auto
  then show ?thesis by (auto simp: bar_reg_def bar_offset_def)
qed

text \<open>
  A register is aligned to the size of its BAR when the address bits below the size are zero; the
  code can restore only such a value.
\<close>

definition bar_aligned :: "64 word \<Rightarrow> 32 word \<Rightarrow> bool" where
  "bar_aligned n low \<longleftrightarrow> low AND NOT 0xf AND ucast (n - 1) = 0"

lemma ucast_mask_32: "(ucast (mask k :: 64 word) :: 32 word) = mask k"
  by (intro bit_word_eqI) (auto simp: bit_simps)

lemma bar_aligned_exp: "bar_aligned (2 ^ k) low \<longleftrightarrow> low AND NOT 0xf AND mask k = 0"
  by (simp add: bar_aligned_def exp_minus_1 ucast_mask_32)

lemma check_size_exp:
  "2 \<le> k \<Longrightarrow> k < 64 \<Longrightarrow> check_size \<lparr>bi_base_address = x, bi_size = 2 ^ k, bi_is_io = y, bi_is_64bit = z\<rparr>
   = \<lparr>bi_base_address = x, bi_size = 2 ^ k, bi_is_io = y, bi_is_64bit = z\<rparr>"
  by (rule check_size_power) simp_all

lemma even_not_ones: "(x :: 32 word) AND 1 = 0 \<Longrightarrow> x \<noteq> 0xffffffff"
  by auto

text \<open>The two halves of the mask of a 64-bit BAR give the whole mask.\<close>

lemma size_of_masks:
  fixes f :: "32 word"
  assumes "4 \<le> k" "k < 64" "bar_size = (2 ^ k :: 64 word)"
    and "lo = (ucast (NOT (bar_size - 1) AND 0xffffffff) AND NOT 0xf) OR (f AND 0xf)"
    and "hi = (ucast (drop_bit 32 (NOT (bar_size - 1))) :: 32 word)"
  shows "(ucast lo AND 0xfffffff0) OR push_bit 32 (ucast hi) = NOT (mask k :: 64 word)" "hi \<noteq> 0"
proof -
  have c: "(0xfffffff0 :: 64 word) = push_bit 4 (mask 28)" "(0xffffffff :: 64 word) = mask 32"
    by (simp_all add: mask_numeral)
  show "(ucast lo AND 0xfffffff0) OR push_bit 32 (ucast hi) = NOT (mask k :: 64 word)"
    unfolding assms(4,5) assms(3) exp_minus_1 mask_words(1) c
    by (rule bit_word_eqI) (use assms(1,2) in \<open>auto simp: bit_simps\<close>)
  have "bit hi 31" using assms(2) by (auto simp: assms(3,5) exp_minus_1 bit_simps)
  then show "hi \<noteq> 0" by auto
qed

lemma bar_type_flags: "bar_type ((x AND NOT 0xf) OR (low AND 0xf)) = bar_type low"
  unfolding bar_type_def mask_words by (rule bit_word_eqI) (auto simp: bit_simps)

lemma wide_masks:
  "low AND 1 = 0 \<Longrightarrow> sizing_masks n True low
     = ((ucast (NOT (n - 1) AND 0xffffffff) AND NOT 0xf) OR (low AND 0xf), ucast (drop_bit 32 (NOT (n - 1))))"
  by (simp add: sizing_masks_def Let_def)

lemma wide_mask_type: "low AND 1 = 0 \<Longrightarrow> bar_type (fst (sizing_masks n True low)) = bar_type low"
  by (simp only: wide_masks fst_conv bar_type_flags)

lemma wide_mask_nonzero: "low AND 1 = 0 \<Longrightarrow> bar_type low = 2 \<Longrightarrow> fst (sizing_masks n True low) \<noteq> 0"
  using wide_mask_type [of low n] by (auto simp: bar_type_def)

lemma exp_nonzero: "k < 64 \<Longrightarrow> (2 ^ k :: 64 word) \<noteq> 0"
  using unat_exp [of k, where 'a = 64] by auto

section \<open>The sizing protocol as an interface\<close>

text \<open>
  What \<^verbatim>\<open>GetPciBarInfo\<close> relies on: a read, a write and a probe of a configuration register. \<^verbatim>\<open>B_Kernel\<close>
  and \<^verbatim>\<open>PCI_ReFresh.c\<close> run the same protocol over different hardware. When the probe answers the masks
  of a BAR, the protocol answers its address, kind and size.
\<close>

definition narrow :: "32 word \<Rightarrow> bool" where
  "narrow low \<longleftrightarrow> \<not> (low AND 1 = 0 \<and> bar_type low = 2)"

locale sizing_protocol =
  fixes info :: "32 word \<Rightarrow> 's \<Rightarrow> (PCI_BAR_INFO \<times> 's) res"
    and rd probe :: "8 word \<Rightarrow> 's \<Rightarrow> (32 word \<times> 's) res"
    and wr :: "8 word \<Rightarrow> 32 word \<Rightarrow> 's \<Rightarrow> (32 word \<times> 's) res"
  assumes protocol: "b < 6 \<Longrightarrow> rd (bar_reg b) s = Inr (low, s) \<Longrightarrow> info (word_of_nat b) s =
      (if low AND 1 \<noteq> 0
       then bnd (probe (bar_reg b) s) (\<lambda>(m, s). bnd (wr (bar_reg b) low s) (\<lambda>(_, s).
            Inr (check_size (io_bar_info low m), s)))
       else let wide = (bar_type low = 2)
            in if wide \<and> b \<ge> 5 then Inr (zero_bar_info, s)
               else bnd (if wide then rd (bar_reg (b + 1)) s else Inr (0, s)) (\<lambda>(high, s).
                    bnd (probe (bar_reg b) s) (\<lambda>(lo, s).
                    bnd (if wide then probe (bar_reg (b + 1)) s else Inr (0, s)) (\<lambda>(hi, s).
                    bnd (wr (bar_reg b) low s) (\<lambda>(_, s).
                    bnd (if wide then wr (bar_reg (b + 1)) high s else Inr (0, s)) (\<lambda>(_, s).
                    Inr (check_size (mem_bar_info wide low high lo hi), s)))))))"
begin

lemma sizing_narrow:
  assumes b: "b < 6" and k: "4 \<le> k" "k < 32" and low: "narrow low"
    and rd: "rd (bar_reg b) s = Inr (low, s)"
    and probe: "probe (bar_reg b) s = Inr (fst (sizing_masks (2 ^ k) False low), s1)"
    and wr: "wr (bar_reg b) low s1 = Inr (x, s2)"
  shows "info (word_of_nat b) s
    = Inr (\<lparr>bi_base_address = bar_address low high, bi_size = 2 ^ k, bi_is_io = (low AND 1 \<noteq> 0),
            bi_is_64bit = False\<rparr>, s2)"
proof -
  let ?m = "fst (sizing_masks (2 ^ k) False low)"
  have k': "2 \<le> k" "k < 64" using k by simp_all
  note [simp] = check_size_exp [OF k']
  show ?thesis
  proof (cases "low AND 1 = 0")
    case False
    then have m: "?m = (ucast (NOT (2 ^ k - 1 :: 64 word)) AND NOT 0x3) OR (low AND 0x3)" by (simp add: sizing_masks_def Let_def)
    have "\<not> bit ?m 3" using k(1) by (auto simp: m exp_minus_1 bit_simps mask_words(2))
    moreover have "bit (0xffffffff :: 32 word) 3" by simp
    ultimately have full: "?m \<noteq> 0xffffffff" by metis
    have "io_bar_info low ?m = \<lparr>bi_base_address = bar_address low high, bi_size = 2 ^ k, bi_is_io = True,
        bi_is_64bit = False\<rparr>"
      using size_of_mask [OF k'(1) k(2) refl m [unfolded mask_words(2)], folded mask_words(2)] full False
      by (simp add: io_bar_info_def bar_address_def)
    with False show ?thesis by (simp add: protocol [OF b rd] probe wr)
  next
    case True
    with low have t: "bar_type low \<noteq> 2" by (simp add: narrow_def)
    from True have m: "?m = (ucast (NOT (2 ^ k - 1 :: 64 word)) AND NOT 0xf) OR (low AND 0xf)" by (simp add: sizing_masks_def Let_def)
    have full: "?m \<noteq> 0xffffffff"
      using even_not_ones [of ?m] True unfolding m by (simp add: bit.conj_disj_distrib2 and.assoc)
    have "mem_bar_info False low 0 ?m 0 = \<lparr>bi_base_address = bar_address low high, bi_size = 2 ^ k, bi_is_io = False,
        bi_is_64bit = False\<rparr>"
      using size_of_mask [OF k refl m [unfolded mask_words(1)], folded mask_words(1)] full True t
      by (simp add: mem_bar_info_def bar_address_def)
    with True t show ?thesis by (simp add: protocol [OF b rd] probe wr)
  qed
qed

lemma sizing_wide:
  assumes b: "b < 5" and k: "4 \<le> k" "k < 64" and low: "low AND 1 = 0" "bar_type low = 2"
    and rd: "rd (bar_reg b) s = Inr (low, s)" "rd (bar_reg (b + 1)) s = Inr (high, s)"
    and probe: "probe (bar_reg b) s = Inr (fst (sizing_masks (2 ^ k) True low), s1)"
      "probe (bar_reg (b + 1)) s1 = Inr (snd (sizing_masks (2 ^ k) True low), s2)"
    and wr: "wr (bar_reg b) low s2 = Inr (x, s3)" "wr (bar_reg (b + 1)) high s3 = Inr (y, s4)"
  shows "info (word_of_nat b) s
    = Inr (\<lparr>bi_base_address = bar_address low high, bi_size = 2 ^ k, bi_is_io = False, bi_is_64bit = True\<rparr>, s4)"
proof -
  let ?n = "2 ^ k :: 64 word"
  let ?lo = "(ucast (NOT (?n - 1) AND 0xffffffff) AND NOT 0xf) OR (low AND 0xf) :: 32 word"
  let ?hi = "ucast (drop_bit 32 (NOT (?n - 1))) :: 32 word"
  note masks = wide_masks [OF low(1), of ?n]
  have "?lo \<noteq> 0" using wide_mask_nonzero [OF low, of ?n] unfolding masks fst_conv .
  moreover have "?lo \<noteq> 0xffffffff" using even_not_ones [of ?lo] low(1) by (simp add: bit.conj_disj_distrib2 and.assoc)
  moreover have "NOT (NOT (mask k)) + 1 = ?n" by (simp add: mask_eq_exp_minus_1)
  ultimately have "check_size (mem_bar_info True low high ?lo ?hi)
      = \<lparr>bi_base_address = bar_address low high, bi_size = 2 ^ k, bi_is_io = False, bi_is_64bit = True\<rparr>"
    using size_of_masks(1) [of k ?n ?lo low ?hi, OF k refl refl refl] exp_nonzero [OF k(2)] low check_size_exp [of k] k
    by (simp add: mem_bar_info_def bar_address_def Let_def)
  then show ?thesis using b low probe wr rd(2) protocol [OF _ rd(1)] by (simp add: masks)
qed

end

lemma bar_too_high: "b < 6 \<Longrightarrow> (5 :: 32 word) \<le> word_of_nat b \<longleftrightarrow> 5 \<le> b"
  by (simp add: word_le_nat_alt unat_of_nat)

interpretation bk: sizing_protocol "GetPciBarInfo a" "PciConfigRead32 a" "size_probe a" "PciConfigWrite32 a" for a
  by unfold_locales (simp add: GetPciBarInfo_def bar_reg_word bar_reg_next bar_too_high Let_def)

section \<open>Sizing in B_Kernel\<close>

context idle_slot
begin

lemma restore_low:
  assumes "b < 6" "even b" "pd_bar_size d ! b = 2 ^ k" "k < 64"
    and "bar_aligned (2 ^ k) (cfg32 d (bar_offset b))" "cfg32 d (bar_offset b) \<noteq> 0xffffffff"
  shows "PciConfigWrite32 a (bar_reg b) (cfg32 d (bar_offset b)) s
    = Inr (0, NotifyBarChange a b (bar_address (cfg32 d (bar_offset b)) (cfg32 d (bar_offset (b + 1)))) s)"
proof -
  let ?low = "cfg32 d (bar_offset b)"
  have "masked_bar_value (pd_bar_size d ! b) ?low ?low = ?low"
    using masked_bar_value_same [OF assms(3,4)] assms(5) by (simp add: bar_aligned_exp)
  moreover have "upd_slot a (set_cfg32 (bar_offset b) ?low) s = s"
    using assms(1) by (intro upd_slot_id [OF dev] set_cfg32_cfg32 [OF wf]) (simp add: bar_offset_def CONFIG_SIZE_def)
  ultimately show ?thesis using write_low [OF assms(1,2,6) refl] by simp
qed

lemma restore_high:
  assumes "b < 6" "odd b" "cfg32 d (bar_offset b) \<noteq> 0xffffffff"
  shows "PciConfigWrite32 a (bar_reg b) (cfg32 d (bar_offset b)) s = Inr (0, s)"
proof -
  have "upd_slot a (set_cfg32 (bar_offset b) (cfg32 d (bar_offset b))) s = s"
    using assms(1) by (intro upd_slot_id [OF dev] set_cfg32_cfg32 [OF wf]) (simp add: bar_offset_def CONFIG_SIZE_def)
  then show ?thesis using write_high [OF assms] by simp
qed

lemma size_nonzero: "pd_bar_size d ! b = 2 ^ k \<Longrightarrow> k < 64 \<Longrightarrow> pd_bar_size d ! b \<noteq> 0"
  using exp_nonzero by simp

text \<open>The probe of a BAR of even index.\<close>

lemma probe_low:
  assumes "b < 6" "even b" "pd_bar_size d ! b \<noteq> 0"
    and "m = fst (sizing_masks (pd_bar_size d ! b) (bar_type (cfg32 d (bar_offset b)) = 2) (cfg32 d (bar_offset b)))"
    and "m \<noteq> 0"
  shows "size_probe a (bar_reg b) s = Inr (m, s)"
  using probe [OF assms(1) bar_of_offset_low [OF assms(1,2)] assms(1,3) _ _ _ assms(5)] assms(2,4) by simp

lemma sizing_32:
  assumes "b < 6" "even b" "pd_bar_size d ! b = 2 ^ k" "4 \<le> k" "k < 32"
    and "low = cfg32 d (bar_offset b)" "bar_aligned (2 ^ k) low" "low \<noteq> 0xffffffff" "narrow low"
  shows "GetPciBarInfo a (word_of_nat b) s
    = Inr (\<lparr>bi_base_address = bar_address low (cfg32 d (bar_offset (b + 1))), bi_size = 2 ^ k,
            bi_is_io = (low AND 1 \<noteq> 0), bi_is_64bit = False\<rparr>,
           NotifyBarChange a b (bar_address low (cfg32 d (bar_offset (b + 1)))) s)"
proof (rule bk.sizing_narrow [OF assms(1,4,5,9)])
  have k: "2 \<le> k" "k < 64" using assms(4,5) by simp_all
  have m: "sizing_masks n (bar_type low = 2) low = sizing_masks n False low" for n
    using assms(9) by (auto simp: narrow_def sizing_masks_def Let_def)
  have "fst (sizing_masks (2 ^ k) False low) \<noteq> 0"
    using size_of_mask(2) [OF k(1) assms(5) refl refl, where f = low, folded mask_words(2)]
      size_of_mask(2) [OF assms(4,5) refl refl, where f = low, folded mask_words(1)]
    by (simp add: sizing_masks_def Let_def)
  then show "size_probe a (bar_reg b) s = Inr (fst (sizing_masks (2 ^ k) False low), s)"
    using probe_low [OF assms(1,2) _ refl] exp_nonzero [OF k(2)] m assms(3,6) by simp
  show "PciConfigWrite32 a (bar_reg b) low s
      = Inr (0, NotifyBarChange a b (bar_address low (cfg32 d (bar_offset (b + 1)))) s)"
    using restore_low [OF assms(1-3) k(2)] assms(6-8) by simp
qed (use read_register [OF assms(1)] assms(6) in simp)

lemma sizing_64:
  assumes "b < 5" "even b" "pd_bar_size d ! b = 2 ^ k" "4 \<le> k" "k < 64"
    and "low = cfg32 d (bar_offset b)" "bar_aligned (2 ^ k) low" "low AND 1 = 0" "bar_type low = 2"
    and "high = cfg32 d (bar_offset (b + 1))" "high AND 1 = 0"
  shows "GetPciBarInfo a (word_of_nat b) s
    = Inr (\<lparr>bi_base_address = bar_address low high, bi_size = 2 ^ k, bi_is_io = False, bi_is_64bit = True\<rparr>,
           NotifyBarChange a b (bar_address low high) s)"
proof (rule bk.sizing_wide [OF assms(1,4,5,8,9)])
  let ?s = "NotifyBarChange a b (bar_address low high) s"
  have b: "b < 6" "b + 1 < 6" "odd (b + 1)" using assms(1,2) by simp_all
  have ones: "low \<noteq> 0xffffffff" "high \<noteq> 0xffffffff" using even_not_ones assms(8,11) by blast+
  show "PciConfigRead32 a (bar_reg b) s = Inr (low, s)" "PciConfigRead32 a (bar_reg (b + 1)) s = Inr (high, s)"
    using read_register b assms(6,10) by simp_all
  note nz = size_nonzero [OF assms(3,5)]
  show "size_probe a (bar_reg b) s = Inr (fst (sizing_masks (2 ^ k) True low), s)"
    using probe_low [OF b(1) assms(2) nz refl] wide_mask_nonzero [OF assms(8,9)] assms(3,6,9) by simp
  have "snd (sizing_masks (2 ^ k) b' high) = snd (sizing_masks (2 ^ k) True low)" if b' for b'
    using assms(8,11) that by (simp add: wide_masks)
  moreover have "snd (sizing_masks (2 ^ k) True low) \<noteq> 0"
    using size_of_masks(2) [OF assms(4,5) refl refl refl] assms(8) by (simp add: wide_masks)
  ultimately show "size_probe a (bar_reg (b + 1)) s = Inr (snd (sizing_masks (2 ^ k) True low), s)"
    using probe [OF b(2) bar_of_offset_high [OF assms(1,2)] b(1) nz refl] assms(2,3,6,9,10) by simp
  show "PciConfigWrite32 a (bar_reg b) low s = Inr (0, ?s)"
    using restore_low [OF b(1) assms(2,3,5)] assms(6,7,10) ones(1) by simp
  show "PciConfigWrite32 a (bar_reg (b + 1)) high ?s = Inr (0, ?s)"
    using idle_slot.restore_high [OF idle_slot_notify [OF idle_slot_axioms] b(2,3)] ones(2) assms(10) by simp
qed

text \<open>
  A 32-bit BAR of odd index never answers a mask: the read takes the register for the high half of
  a 64-bit BAR, finds that there is none, and returns the register itself.
\<close>

lemma read_header_sizing:
  "PciConfigRead32 a 0x0C (upd_slot a (sizing b m) s) = Inr (cfg32 d 0x0C, upd_slot a (sizing b m) s)"
proof -
  have "discovery_mask a e 0x0C t = 0" for e t
    by (simp add: discovery_mask_def is_high_dword_def signed_modulo_int_def signed_divide_int_def
        PciSimGetDiscoveryMaskLow_def)
  then show ?thesis using in_range dev by (simp add: PciConfigRead32_def pci_slot_def CONFIG_SIZE_def)
qed

lemma write_odd_sizing:
  assumes "b < 6" "odd b" "v \<noteq> 0xffffffff"
  shows "PciConfigWrite32 a (bar_reg b) v (upd_slot a (sizing b' m) s)
    = Inr (0, upd_slot a (set_cfg32 (bar_offset b) v) s)"
proof -
  let ?s = "upd_slot a (sizing b' m) s"
  have "PciSimClearDiscovery a ?s = s"
    using in_range dev clear_sizing [OF idle] by (simp add: PciSimClearDiscovery_def sim_update_def upd_slot_id)
  moreover obtain c is_64 where "bar_of_offset (sizing b' m d) (bar_reg b) = (c, is_64)" by fastforce
  moreover have "unat (bar_reg b) = bar_offset b" using assms(1) by (simp add: bar_offset_def)
  ultimately show ?thesis
    using assms in_range dev read_header_sizing [of b' m]
    by (simp add: PciConfigWrite32_def pci_slot_def write_bar_register_def CONFIG_SIZE_def
        PciSimGetBarSize_def bar_reg_high notify_write_def)
qed

lemma probe_odd:
  assumes "b < 6" "odd b" "bar_type (cfg32 d (bar_offset (b - 1))) \<noteq> 2"
  shows "\<exists>s1. PciConfigWrite32 a (bar_reg b) 0xffffffff s = Inr (0, s1)
    \<and> PciConfigRead32 a (bar_reg b) s1 = Inr (cfg32 d (bar_offset b), s1)
    \<and> (\<forall>v. v \<noteq> 0xffffffff \<longrightarrow>
         PciConfigWrite32 a (bar_reg b) v s1 = Inr (0, upd_slot a (set_cfg32 (bar_offset b) v) s))"
proof -
  have bo: "bar_of_offset d (bar_reg b) = (b, False)"
    using assms by (auto simp: bar_of_offset_def bar_reg_high bar_offset_def elim!: oddE)
  show ?thesis
  proof (cases "pd_bar_size d ! b = 0")
    case True
    then show ?thesis
      using assms(1) in_range dev PciConfigRead32_idle [OF in_range dev idle, of "0x0C"] read_register [OF assms(1)] bo
        write_high [OF assms(1,2)]
      by (simp add: PciConfigWrite32_def pci_slot_def write_bar_register_def CONFIG_SIZE_def
          PciSimGetBarSize_def bar_offset_def)
  next
    case False
    let ?m = "sizing_masks (pd_bar_size d ! b) False (cfg32 d (bar_offset b))"
    have "pci_dev a (upd_slot a (sizing b ?m) s) = Some (sizing b ?m d)" using dev by simp
    moreover have "discovery_mask a (sizing b ?m d) (bar_reg b) (upd_slot a (sizing b ?m) s) = 0"
      using assms by (auto simp: discovery_mask_def bar_reg_high bar_offset_def elim!: oddE)
    ultimately show ?thesis
      using sizing_write [OF assms(1) bo assms(1) False] in_range assms(1) dev write_odd_sizing [OF assms(1,2)]
      by (simp add: PciConfigRead32_def pci_slot_def CONFIG_SIZE_def bar_offset_def)
  qed
qed

end

text \<open>All three kinds of BAR together.\<close>

lemma idle_slot_sizing:
  assumes slot: "idle_slot a s d"
    and "b < 6" "even b" "low = cfg32 d (bar_offset b)" "high = cfg32 d (bar_offset (b + 1))"
    and "pd_bar_size d ! b = 2 ^ k" "4 \<le> k" "bar_aligned (2 ^ k) low" "low \<noteq> 0xffffffff"
    and "wide \<longleftrightarrow> low AND 1 = 0 \<and> bar_type low = 2"
    and "if wide then k < 64 \<and> high AND 1 = 0 else k < 32"
  shows "\<exists>s'. GetPciBarInfo a (word_of_nat b) s
      = Inr (\<lparr>bi_base_address = bar_address low high, bi_size = 2 ^ k,
              bi_is_io = (low AND 1 \<noteq> 0), bi_is_64bit = wide\<rparr>, s')
    \<and> g_pci_bus s' = g_pci_bus s"
proof (cases wide)
  case True
  then have "b < 5" using assms(2,3) by presburger
  with True show ?thesis using idle_slot.sizing_64 [OF slot _ assms(3,6,7) _ assms(4,8)] assms(5,10,11) by simp
next
  case False
  then show ?thesis
    using idle_slot.sizing_32 [OF slot assms(2,3,6,7) _ assms(4,8,9)] assms(5,10,11) by (simp add: narrow_def)
qed

end
