(* ===== verification/PCI_Access.thy ===== *)
theory PCI_Access
  imports PCI_Bars
begin

text \<open>
  Configuration access in general: on well-formed devices it is defined at every register inside
  the configuration space and keeps the devices well formed. The command register, the BAR
  memory, and the address check after an assignment.
\<close>

section \<open>Well-formed buses\<close>

definition bus_wf :: "bkernel \<Rightarrow> bool" where
  "bus_wf s \<longleftrightarrow> list_all (\<lambda>(a, d). dev_wf d) (g_pci_bus s)"

lemma bus_wf_dev: "bus_wf s \<Longrightarrow> pci_dev a s = Some d \<Longrightarrow> dev_wf d"
  by (auto simp: bus_wf_def list_all_iff pci_dev_def dest!: map_of_SomeD)

lemma set_map_entry: "set (AList.map_entry k f xs) \<subseteq> set xs \<union> (\<lambda>(a, d). (a, f d)) ` set xs"
  by (induction xs) auto

lemma bus_wf_upd_slot:
  assumes "bus_wf s" "\<And>d. dev_wf d \<Longrightarrow> dev_wf (f d)"
  shows "bus_wf (upd_slot a f s)"
  using assms set_map_entry [of a f "g_pci_bus s"]
  by (cases s) (fastforce simp: bus_wf_def upd_slot_def list_all_iff)

lemma bus_wf_sim_update:
  "bus_wf s \<Longrightarrow> (\<And>d. dev_wf d \<Longrightarrow> dev_wf (f d)) \<Longrightarrow> bus_wf (sim_update a f s)"
  by (simp add: sim_update_def bus_wf_upd_slot)

lemma bus_wf_notify [simp]: "bus_wf (NotifyBarChange a i addr s) = bus_wf s"
  by (simp add: bus_wf_def)

lemma dev_wf_discovery [simp]:
  "dev_wf (clear_discovery d) = (length (pd_config d) = CONFIG_SIZE \<and> length (pd_bar_size d) = 6 \<and> length (pd_bar_mem d) = 6)"
  "dev_wf (d\<lparr>pd_discovery_active := n\<rparr>) = dev_wf d"
  "dev_wf (d\<lparr>pd_mask_low := xs\<rparr>) = (dev_wf (d\<lparr>pd_mask_low := replicate 6 0\<rparr>) \<and> length xs = 6)"
  "dev_wf (d\<lparr>pd_mask_high := xs\<rparr>) = (dev_wf (d\<lparr>pd_mask_high := replicate 6 0\<rparr>) \<and> length xs = 6)"
  by (auto simp: dev_wf_def clear_discovery_def)

lemma bus_wf_clear: "bus_wf s \<Longrightarrow> bus_wf (PciSimClearDiscovery a s)"
  unfolding PciSimClearDiscovery_def by (rule bus_wf_sim_update) (simp_all add: dev_wf_def clear_discovery_def)

lemma bus_wf_start_sizing: "bus_wf s \<Longrightarrow> bus_wf (start_sizing a d off b is_64 n s)"
  by (auto simp: start_sizing_def Let_def PciSimSetDiscoveryMaskHigh_def PciSimSetDiscoveryMaskLow_def
      PciSimSetDiscoveryMode_def dev_wf_def intro!: bus_wf_sim_update)

lemma write_command_wf: "dev_wf d \<Longrightarrow> dev_wf (write_command v d)"
  by (simp add: write_command_def Let_def)

lemma PciConfigRead32_wf:
  assumes "bus_wf s" "pci_in_range a" "unat off + 4 \<le> CONFIG_SIZE"
  shows "\<exists>v s'. PciConfigRead32 a off s = Inr (v, s') \<and> bus_wf s'"
  using assms by (auto simp: PciConfigRead32_def pci_slot_def Let_def bus_wf_clear split: option.split)

lemma PciSimClearDiscovery_slot [simp]:
  "pci_dev b (PciSimClearDiscovery a s)
   = (if b = a \<and> pci_in_range a then map_option clear_discovery (pci_dev a s) else pci_dev b s)"
  by (auto simp: PciSimClearDiscovery_def sim_update_def)

lemma PciConfigRead32_slot:
  "PciConfigRead32 a off s = Inr (v, s') \<Longrightarrow> pci_dev b s' = None \<longleftrightarrow> pci_dev b s = None"
  by (auto simp: PciConfigRead32_def pci_slot_def Let_def split: option.splits if_splits)

lemma write_bar_register_wf:
  assumes "bus_wf s" "pci_in_range a" "pci_dev a s = Some d" "unat off < 0x28"
  shows "\<exists>r s'. write_bar_register a d off v s = Inr (r, s') \<and> bus_wf s'"
proof -
  obtain h s1 where r: "PciConfigRead32 a 0x0C s = Inr (h, s1)" "bus_wf s1"
    using PciConfigRead32_wf [OF assms(1,2), of "0x0C"] by (auto simp: CONFIG_SIZE_def)
  have "pci_dev a s1 \<noteq> None" using PciConfigRead32_slot [OF r(1), of a] assms(3) by simp
  then obtain d1 where d1: "pci_dev a s1 = Some d1" by auto
  obtain b is_64 where b: "bar_of_offset d off = (b, is_64)" by fastforce
  obtain n where n: "PciSimGetBarSize a (int b) s1 = Inr n"
    using assms(2) d1 by (cases "6 \<le> b") (auto simp: PciSimGetBarSize_def pci_slot_def)
  have "\<exists>s'. notify_write a off b (upd_slot a (set_cfg32 (unat off) w) (PciSimClearDiscovery a s1)) = Inr s' \<and> bus_wf s'" for w
    using assms(2) d1 bus_wf_clear [OF r(2), of a] by (auto simp: notify_write_def pci_slot_def intro!: bus_wf_upd_slot)
  then obtain f where f: "notify_write a off b (upd_slot a (set_cfg32 (unat off) w) (PciSimClearDiscovery a s1)) = Inr (f w)"
      "bus_wf (f w)" for w by metis
  show ?thesis
    using bus_wf_start_sizing [OF r(2)] r(2) f(2)
    by (simp add: write_bar_register_def r(1) b n f(1) Let_def)
qed

lemma PciConfigWrite32_wf:
  assumes "bus_wf s" "pci_in_range a" "unat off + 4 \<le> CONFIG_SIZE"
  shows "\<exists>r s'. PciConfigWrite32 a off v s = Inr (r, s') \<and> bus_wf s'"
proof (cases "pci_dev a s")
  case None
  then show ?thesis using assms by (auto simp: PciConfigWrite32_def pci_slot_def)
next
  case (Some d)
  have "off < 0x28 \<Longrightarrow> unat off < 0x28" by (simp add: word_less_nat_alt)
  with write_bar_register_wf [OF assms(1,2) Some, of off v] show ?thesis
    using Some assms
    by (auto simp: PciConfigWrite32_def pci_slot_def intro!: bus_wf_upd_slot write_command_wf)
qed

section \<open>The command register\<close>

lemma cfg16_set32:
  assumes "dev_wf d" "off + 4 \<le> CONFIG_SIZE"
  shows "cfg16 (set_cfg32 off v d) off = ucast v"
proof (rule bit_word_eqI)
  fix n assume n: "n < LENGTH(16)"
  have "(!) (pd_config (set_cfg32 off v d)) = le_write 4 v off ((!) (pd_config d))"
    using assms by (cases d) (simp add: set_cfg32_def dev_wf_def nth_list_write)
  then have "bit (cfg16 (set_cfg32 off v d) off) n = bit (le_read 4 (le_write 4 v off ((!) (pd_config d))) off :: 32 word) n"
    using n by (simp add: cfg16_def bit_le_read)
  also have "\<dots> = bit v n" by (simp add: le_read_write_full)
  finally show "bit (cfg16 (set_cfg32 off v d) off) n = bit (ucast v :: 16 word) n"
    using n by (simp add: bit_simps)
qed

lemma nth_set_cfg32:
  "dev_wf d \<Longrightarrow> off + 4 \<le> CONFIG_SIZE \<Longrightarrow> i < off \<or> off + 4 \<le> i \<Longrightarrow>
   pd_config (set_cfg32 off v d) ! i = pd_config d ! i"
  by (cases d) (auto simp: set_cfg32_def dev_wf_def nth_list_write le_write_at)

lemma nth_set_cfg16:
  "dev_wf d \<Longrightarrow> off + 2 \<le> CONFIG_SIZE \<Longrightarrow> i < off \<or> off + 2 \<le> i \<Longrightarrow>
   pd_config (set_cfg16 off v d) ! i = pd_config d ! i"
  by (cases d) (auto simp: set_cfg16_def dev_wf_def nth_list_write le_write_at)

text \<open>The status register, the upper half of the dword, is written back as it was.\<close>

lemma cfg32_byte:
  "dev_wf d \<Longrightarrow> off + 4 \<le> CONFIG_SIZE \<Longrightarrow> i < 4 \<Longrightarrow>
   pd_config (set_cfg32 off v d) ! (off + i) = ucast (drop_bit (8 * i) v)"
  by (cases d) (auto simp: set_cfg32_def dev_wf_def nth_list_write le_write_at)

lemma byte_of_cfg32:
  assumes "i < 4"
  shows "ucast (drop_bit (8 * i) (cfg32 d off)) = pd_config d ! (off + i)"
proof (rule bit_word_eqI)
  fix n assume "n < LENGTH(8)"
  moreover from this have "(8 * i + n) div 8 = i" "(8 * i + n) mod 8 = n" by simp_all
  ultimately show "bit (ucast (drop_bit (8 * i) (cfg32 d off)) :: 8 word) n = bit (pd_config d ! (off + i)) n"
    using assms by (simp add: cfg32_def bit_simps bit_le_read)
qed

lemma write_command_config:
  assumes "dev_wf d" "m = PciSimGetDeviceCommandMask d AND 0x07ff"
  shows "cfg16 (write_command v d) 0x04 = (cfg16 d 0x04 AND NOT m) OR (ucast v AND m)"
    and "i \<notin> {0x04, 0x05} \<Longrightarrow> pd_config (write_command v d) ! i = pd_config d ! i"
    and "length (pd_config (write_command v d)) = length (pd_config d)"
    and "pd_bar_size (write_command v d) = pd_bar_size d" "pd_bar_mem (write_command v d) = pd_bar_mem d"
proof -
  define c where "c = (cfg16 d 0x04 AND NOT m) OR (ucast v AND m)"
  define d1 where "d1 = set_cfg16 0x04 c d"
  have eq: "write_command v d = set_cfg32 0x04 ((cfg32 d1 0x04 AND 0xffff0000) OR ucast c) d1"
    by (simp add: write_command_def Let_def assms(2) c_def d1_def)
  have wf: "dev_wf d1" using assms(1) by (simp add: d1_def)
  have ones: "(0xffff0000 :: 32 word) = push_bit 16 (mask 16)" by (simp add: mask_numeral)
  have "ucast ((cfg32 d1 0x04 AND 0xffff0000) OR ucast c) = c"
    unfolding ones by (rule bit_word_eqI) (auto simp: bit_simps)
  then show "cfg16 (write_command v d) 0x04 = (cfg16 d 0x04 AND NOT m) OR (ucast v AND m)"
    using cfg16_set32 [OF wf, of "0x04"] by (simp add: eq CONFIG_SIZE_def c_def)
  show "pd_config (write_command v d) ! i = pd_config d ! i" if i: "i \<notin> {0x04, 0x05}"
  proof (cases "i \<in> {0x06, 0x07}")
    case True
    then have "pd_config (write_command v d) ! (0x04 + (i - 4)) = pd_config d1 ! (0x04 + (i - 4))"
      unfolding eq using cfg32_byte [OF wf, of "0x04" "i - 4"] byte_of_cfg32 [of "i - 4" d1 "0x04", symmetric]
      by (auto simp: CONFIG_SIZE_def ones intro!: bit_word_eqI) (auto simp: bit_simps dest: bit_imp_le_length)
    with True show ?thesis using nth_set_cfg16 [OF assms(1), of "0x04" i] by (auto simp: d1_def CONFIG_SIZE_def)
  next
    case False
    with i have "i < 4 \<or> 8 \<le> i" by auto
    then show ?thesis
      using nth_set_cfg32 [OF wf, of "0x04" i] nth_set_cfg16 [OF assms(1), of "0x04" i]
      by (auto simp: eq d1_def CONFIG_SIZE_def)
  qed
qed (simp_all add: write_command_def Let_def)

section \<open>BAR memory\<close>

text \<open>A BAR whose memory is a block, with the bounds the code checks.\<close>

definition bar_block :: "PCI_ADDR \<Rightarrow> nat \<Rightarrow> bytes \<Rightarrow> 64 word \<Rightarrow> bkernel \<Rightarrow> bool" where
  "bar_block a i m n s \<longleftrightarrow> pci_in_range a \<and> i < 6 \<and>
     (\<exists>d. pci_dev a s = Some d \<and> length (pd_bar_mem d) = 6 \<and> pd_bar_mem d ! i = BarBlock m \<and> pd_bar_size d ! i = n)"

lemma no_wrap:
  assumes "unat off + nat sz \<le> unat (n :: 64 word)" "0 \<le> sz"
  shows "\<not> off + word_of_int sz > n"
proof -
  have n: "unat n < 2 ^ 64" using unsigned_less [of n] by simp
  have "nat sz < 2 ^ 64" using assms(1) n by simp
  then have "unat (word_of_int sz :: 64 word) = nat sz"
    using assms(2) unat_of_nat [of "nat sz", where 'a = 64] by (simp add: take_bit_nat_eq_self)
  moreover from this have "unat (off + word_of_int sz) = unat off + nat sz"
    using assms(1) n by (simp add: unat_plus_if_size word_size)
  ultimately show ?thesis using assms(1) by (simp add: word_less_nat_alt)
qed

lemma PciSimReadBar_block:
  assumes "bar_block a i m n s" "sz \<in> {1, 2, 4, 8}" "unat off + nat sz \<le> unat n"
  shows "PciSimReadBar a (int i) off sz s = Inr (le_read (nat sz) m (unat off))"
  using assms no_wrap [OF assms(3)]
  by (auto simp: bar_block_def PciSimReadBar_def PciSimGetBarMemory_def PciSimGetBarSize_def pci_slot_def)

lemma PciSimWriteBar_block:
  assumes "bar_block a i m n s" "sz \<in> {1, 2, 4, 8}" "unat off + nat sz \<le> unat n"
  shows "PciSimWriteBar a (int i) off v sz s = Inr (set_bar_block a (int i) (le_write (nat sz) v (unat off) m) s)"
  using assms no_wrap [OF assms(3)]
  by (auto simp: bar_block_def PciSimWriteBar_def PciSimGetBarMemory_def PciSimGetBarSize_def pci_slot_def)

lemma set_bar_block_block:
  "bar_block a i m n s \<Longrightarrow> bar_block a i m' n (set_bar_block a (int i) m' s)"
  by (auto simp: bar_block_def set_bar_block_def)

section \<open>Assigned addresses\<close>

lemma validate_bars_none: "(\<forall>j. i \<le> j \<and> j < 6 \<longrightarrow> pd_bar_size d ! j = 0) \<Longrightarrow> \<not> validate_bars d x i"
  by (induction d x i rule: validate_bars.induct) (subst validate_bars.simps, simp add: Let_def)

lemma validate_bars_skip:
  "i \<le> b \<Longrightarrow> b < 6 \<Longrightarrow> (\<forall>j. i \<le> j \<and> j < b \<longrightarrow> pd_bar_size d ! j = 0) \<Longrightarrow> validate_bars d x i = validate_bars d x b"
proof (induction d x i rule: validate_bars.induct)
  case (1 d x i)
  then show ?case
    by (cases "i = b") (simp_all add: validate_bars.simps [of d x i] Let_def)
qed

text \<open>An aligned address survives the masks the code applies to it.\<close>

lemma aligned_address:
  fixes x low :: "32 word"
  assumes "4 \<le> k" "k < 32" "x AND mask k = 0"
    and "v = ucast ((ucast x :: 64 word) AND 0xfffffff0) OR (low AND 0xf)"
  shows "masked_bar_value (2 ^ k) low v = x OR (low AND 0xf)"
    and "(x OR (low AND 0xf)) AND NOT 0xf = x" and "(x OR (low AND 0xf)) AND 0xf = low AND 0xf"
    and "v AND 0xf = low AND 0xf"
proof -
  have x: "\<not> bit x n" if "n < k" for n
  proof
    assume "bit x n"
    with that assms(2) have "bit (x AND mask k) n" by (simp add: bit_simps)
    with assms(3) show False by simp
  qed
  then have x4: "n < 4 \<Longrightarrow> \<not> bit x n" for n using assms(1) by simp
  have c: "(0xfffffff0 :: 64 word) = push_bit 4 (mask 28)" by (simp add: mask_numeral)
  have "(ucast (2 ^ k :: 64 word) - 1 :: 32 word) = mask k"
  proof -
    have "ucast (2 ^ k :: 64 word) = (2 ^ k :: 32 word)"
      using assms(2) by (intro bit_word_eqI) (auto simp: bit_simps)
    then show ?thesis by (simp add: exp_minus_1)
  qed
  then show "masked_bar_value (2 ^ k) low v = x OR (low AND 0xf)"
    unfolding masked_bar_value_def Let_def assms(4) c mask_words(1)
    using assms(1,2) x by (intro bit_word_eqI) (auto simp: bit_simps intro: leI dest: bit_imp_le_length x4)
  show "(x OR (low AND 0xf)) AND NOT 0xf = x" "(x OR (low AND 0xf)) AND 0xf = low AND 0xf"
    unfolding mask_words using x4 by (intro bit_word_eqI, auto simp: bit_simps dest: bit_imp_le_length)+
  show "v AND 0xf = low AND 0xf"
    unfolding assms(4) c mask_words using x4 by (intro bit_word_eqI) (auto simp: bit_simps dest: bit_imp_le_length)
qed

lemma and_1_of_and_f: "(x :: 32 word) AND 0xf = y AND 0xf \<Longrightarrow> x AND 1 = y AND 1"
  "(x :: 32 word) AND 0xf = y AND 0xf \<Longrightarrow> bar_type x = bar_type y"
  "(x :: 32 word) AND 0xf = y AND 0xf \<Longrightarrow> x AND 0x7 = y AND 0x7"
proof -
  assume "x AND 0xf = y AND 0xf"
  then have *: "n < 4 \<Longrightarrow> bit x n = bit y n" for n
    by (metis (no_types, lifting) bit_and_iff bit_mask_iff mask_words(1) possible_bit_word linorder_not_less order.strict_trans1 bit_imp_le_length)
  show "x AND 1 = y AND 1" "bar_type x = bar_type y" "x AND 0x7 = y AND 0x7"
    unfolding bar_type_def mask_words using * by (intro bit_word_eqI, auto simp: bit_simps)+
qed

lemma bar_reg_int: "0x10 + word_of_nat b * 4 = bar_reg b"
  by (simp add: bar_reg_def bar_offset_def)

lemma low_flags: "(low :: 32 word) AND 1 = 0 \<Longrightarrow> bar_type low \<noteq> 2 \<Longrightarrow> low AND 0x7 \<noteq> 0x4"
proof
  assume "low AND 0x7 = 0x4" "bar_type low \<noteq> 2"
  then have "bit low n = bit (4 :: 32 word) n" if "n < 3" for n
    using that by (metis bit_and_iff bit_mask_iff mask_words(3) possible_bit_word bit_imp_le_length)
  then have "bar_type low = bar_type 4"
    unfolding bar_type_def mask_words by (intro bit_word_eqI) (auto simp: bit_simps)
  with \<open>bar_type low \<noteq> 2\<close> show False by (simp add: bar_type_def)
qed

context idle_slot
begin

lemma set_address:
  assumes "b < 6" "even b" "pd_bar_size d ! b = 2 ^ k" "4 \<le> k" "k < 32"
    and "low = cfg32 d (bar_offset b)" "low AND 1 = 0" "bar_type low \<noteq> 2" "x AND mask k = 0"
  shows "PciSetBarAddress a (int b) (ucast x) s
    = Inr (NotifyBarChange a b (ucast x) (upd_slot a (set_cfg32 (bar_offset b) (x OR (low AND 0xf))) s))"
proof -
  let ?v = "ucast ((ucast x :: 64 word) AND 0xfffffff0) OR (low AND 0xf)"
  note al = aligned_address [OF assms(4,5,9) refl, of low]
  have "?v AND 1 = 0" using and_1_of_and_f(1) [OF al(4)] assms(7) by simp
  then have v: "?v \<noteq> 0xffffffff" by (rule even_not_ones)
  have nz: "pd_bar_size d ! b \<noteq> 0" using size_nonzero [OF assms(3)] assms(5) by simp
  then have w: "x OR (low AND 0xf) = (if pd_bar_size d ! b > 0
      then masked_bar_value (pd_bar_size d ! b) (cfg32 d (bar_offset b)) ?v else ?v)"
    using al(1) assms(3,6) by (simp add: word_gt_0)
  have "bar_address (x OR (low AND 0xf)) h = ucast x" for h
    using al(2) and_1_of_and_f [OF al(3)] assms(7,8) by (simp add: bar_address_def)
  then show ?thesis
    using write_low [OF assms(1,2) v w] assms(1,6,7,8) read_register [OF assms(1)]
    by (simp add: PciSetBarAddress_def bar_reg_int Let_def)
qed

lemma validate_assigned:
  assumes "b < 6" "even b" "pd_bar_size d ! b = 2 ^ k" "4 \<le> k" "k < 32"
    and "low = cfg32 d (bar_offset b)" "low AND 1 = 0" "bar_type low \<noteq> 2" "x AND mask k = 0" "x \<noteq> 0"
    and "\<forall>j < 6. j \<noteq> b \<longrightarrow> pd_bar_size d ! j = 0"
  shows "validate_bars (set_cfg32 (bar_offset b) (x OR (low AND 0xf)) d) addr 0
    \<longleftrightarrow> ucast x \<le> addr \<and> addr < ucast x + 2 ^ k"
proof -
  let ?d = "set_cfg32 (bar_offset b) (x OR (low AND 0xf)) d"
  note al = aligned_address [OF assms(4,5,9) refl, of low]
  have reg: "cfg32 ?d (bar_offset b) = x OR (low AND 0xf)"
    using assms(1) wf by (simp add: CONFIG_SIZE_def bar_offset_def)
  have "\<not> validate_bars ?d addr (b + 1)" using assms(11) by (intro validate_bars_none) simp
  moreover have "validate_bars ?d addr 0 = validate_bars ?d addr b"
    using assms(1,11) by (intro validate_bars_skip) simp_all
  moreover have "(x OR (low AND 0xf)) AND 0x7 \<noteq> 0x4"
    using and_1_of_and_f(3) [OF al(3)] low_flags [OF assms(7,8)] by simp
  moreover have "ucast (ucast x :: 64 word) = x" by (rule bit_word_eqI) (simp add: bit_simps)
  then have "(ucast x :: 64 word) \<noteq> 0" using assms(10) by force
  ultimately show ?thesis
    using assms(1,3) reg al(2) size_nonzero [OF assms(3)] assms(5)
    by (simp add: validate_bars.simps [of ?d addr b] Let_def)
qed

end

end
