(* ===== verification/OS_Device.thy ===== *)
theory OS_Device
  imports PCI_Logic
begin

text \<open>
  Device contexts, address assignment and drivers of the PCI kernel: \<^verbatim>\<open>B_Kernel/device/OS_device.c\<close>
  and \<^verbatim>\<open>B_Kernel/drivers/basic_driver.c\<close>.
\<close>

section \<open>Address assignment\<close>

definition MAX_REAL_DEVICE :: nat where "MAX_REAL_DEVICE = 8192"

definition AllocateMmioAddress :: "64 word \<Rightarrow> bkernel \<Rightarrow> 64 word \<times> bkernel" where
  "AllocateMmioAddress sz s =
     (let addr = (gNextMimoAddr s + sz - 1) AND NOT (sz - 1)
      in (addr, s\<lparr>gNextMimoAddr := addr + sz\<rparr>))"

definition AllocateIoAddress :: "64 word \<Rightarrow> bkernel \<Rightarrow> 64 word \<times> bkernel" where
  "AllocateIoAddress sz s = (gNextIoAddr s, s\<lparr>gNextIoAddr := gNextIoAddr s + sz\<rparr>)"

text \<open>
  The address of BAR \<open>i\<close>. The size asked for is that of \<^verbatim>\<open>ctx->bar_info\<close>, which is BAR 0, whatever
  \<open>i\<close> is.
\<close>

definition assign_bar :: "nat \<Rightarrow> nat \<Rightarrow> bkernel \<Rightarrow> bkernel res" where
  "assign_bar c i s = bnd (get_pctx c s) (\<lambda>ctx.
     if bi_size (dc_bar_info ctx ! i) = 0 then Inr s
     else let sz = bi_size (dc_bar_info ctx ! 0);
              (addr, s) = (if bi_is_io (dc_bar_info ctx ! i) then AllocateIoAddress sz s
                           else AllocateMmioAddress sz s)
          in bnd (PciSetBarAddress (dc_addr ctx) (int i) addr s) (\<lambda>s.
             Inr (upd_pctx c (set_base_address i addr) s)))"

definition AssignBarAddress :: "nat \<Rightarrow> bkernel \<Rightarrow> bkernel res" where
  "AssignBarAddress c = run_seq (assign_bar c) [0..<6]"

definition OS_RegisterDeviceFoundCallback :: "NEW_DEVICE_NOTIFIER option \<Rightarrow> bkernel \<Rightarrow> bkernel" where
  "OS_RegisterDeviceFoundCallback f s = s\<lparr>fgNewDeviceNotifier := f\<rparr>"

definition OS_InitPciCallbacks :: "bkernel \<Rightarrow> bkernel" where
  "OS_InitPciCallbacks = PciRegisterBarChangeCallback (Some BarChangeHandler_fn)"

section \<open>Access to BAR memory through a context\<close>

definition DeviceGetBarMemory :: "PCI_DEVICE_CONTEXT \<Rightarrow> int \<Rightarrow> bkernel \<Rightarrow> BAR_MEM res" where
  "DeviceGetBarMemory ctx i s =
     (if i < 0 \<or> i \<ge> 6 then Inr BarNull else PciGetBarMemory (dc_addr ctx) i s)"

definition DeviceBarRead :: "PCI_DEVICE_CONTEXT \<Rightarrow> int \<Rightarrow> 64 word \<Rightarrow> int \<Rightarrow> bkernel \<Rightarrow> 64 word res" where
  "DeviceBarRead ctx = PciReadBar (dc_addr ctx)"

definition DeviceBarWrite :: "PCI_DEVICE_CONTEXT \<Rightarrow> int \<Rightarrow> 64 word \<Rightarrow> 64 word \<Rightarrow> int \<Rightarrow> bkernel \<Rightarrow> bkernel res" where
  "DeviceBarWrite ctx = PciWriteBar (dc_addr ctx)"

section \<open>Creating a context\<close>

definition set_bar_info :: "nat \<Rightarrow> PCI_BAR_INFO \<Rightarrow> PCI_DEVICE_CONTEXT \<Rightarrow> PCI_DEVICE_CONTEXT" where
  "set_bar_info b bi = dc_bar_info_update (\<lambda>xs. xs[b := bi])"

definition set_raw_bar :: "nat \<Rightarrow> 32 word \<Rightarrow> PCI_DEVICE_CONTEXT \<Rightarrow> PCI_DEVICE_CONTEXT" where
  "set_raw_bar b raw = dc_bars_update (\<lambda>xs. xs[b := raw])"

text \<open>
  The loop over the BARs. Each BAR that has a size makes \<open>AssignBarAddress\<close> assign all BARs known
  so far again.
\<close>

function create_bars :: "nat \<Rightarrow> nat \<Rightarrow> PCI_ADDR \<Rightarrow> nat \<Rightarrow> bkernel \<Rightarrow> bkernel res" where
  "create_bars limit c a b s =
     (if b < limit
      then bnd (GetPciBarInfo a (word_of_nat b) s) (\<lambda>(bi, s).
           bnd (PciConfigRead32 a (word_of_nat (0x10 + b * 4)) (upd_pctx c (set_bar_info b bi) s)) (\<lambda>(raw, s).
           let s = upd_pctx c (set_raw_bar b raw) s
           in if bi_size bi = 0 then create_bars limit c a (b + 1) s
              else bnd (AssignBarAddress c s) (\<lambda>s.
                   create_bars limit c a (if bi_is_64bit bi then b + 2 else b + 1) s)))
      else Inr s)"
  by pat_completeness auto
termination by (relation "measure (\<lambda>(limit, c, a, b, s). limit - b)") (auto split: if_splits)

definition DeviceCreateFromPci :: "PCI_ADDR \<Rightarrow> bkernel \<Rightarrow> (nat option \<times> bkernel) res" where
  "DeviceCreateFromPci a s =
     (let (ok, s) = p_alloc s
      in if \<not> ok then Inr (None, s)
         else let c = length (h_pctx s); s = s\<lparr>h_pctx := h_pctx s @ [zero_context]\<rparr>
         in bnd (PciConfigRead32 a 0x00 s) (\<lambda>(reg0, s).
            bnd (PciConfigRead32 a 0x08 s) (\<lambda>(reg2, s).
            bnd (PciConfigRead32 a 0x0c s) (\<lambda>(reg3, s).
            let header_type = ucast (drop_bit 16 reg3 AND 0x7f);
                s = upd_pctx c (\<lambda>x. x\<lparr>dc_addr := a, dc_vendor_id := ucast reg0,
                      dc_device_id := ucast (drop_bit 16 reg0), dc_revision_id := ucast reg2,
                      dc_prog_if := ucast (drop_bit 8 reg2), dc_subclass := ucast (drop_bit 16 reg2),
                      dc_class_code := ucast (drop_bit 24 reg2), dc_header_type := header_type\<rparr>) s
            in bnd (create_bars (if header_type = 1 then 2 else 6) c a 0 s) (\<lambda>s.
               Inr (Some c, upd_pctx c (\<lambda>x. x\<lparr>dc_driver := None, dc_ops := True\<rparr>) s))))))"

section \<open>Drivers\<close>

definition MAX_DRIVERS :: nat where "MAX_DRIVERS = 32"

definition DummyProbe :: "PCI_DEVICE_CONTEXT \<Rightarrow> 16 word" where
  "DummyProbe ctx = (if dc_vendor_id ctx = 0xB350 then 1 else 0)"

definition DummyInit :: "nat \<Rightarrow> bkernel \<Rightarrow> (int \<times> bkernel) res" where
  "DummyInit c s = Inr (0, s)"

definition TestBarDriverProbe :: "PCI_DEVICE_CONTEXT \<Rightarrow> 16 word" where
  "TestBarDriverProbe ctx =
     (if list_ex (\<lambda>b. bi_size b \<ge> 0x1000 \<and> \<not> bi_is_io b) (take 6 (dc_bar_info ctx)) then 50 else 0)"

text \<open>
  The direct memory test writes sixteen bytes through the pointer \<^verbatim>\<open>fBarGetMem\<close> returns and reads
  them back.
\<close>

definition test_pattern :: "nat \<Rightarrow> 8 word" where
  "test_pattern i = 0xA0 + word_of_nat i"

definition direct_memory_test :: "PCI_ADDR \<Rightarrow> nat \<Rightarrow> BAR_MEM \<Rightarrow> bkernel \<Rightarrow> bkernel res" where
  "direct_memory_test a i mem s =
     (case mem of
        BarUnset \<Rightarrow> Inl (Undefined ''uninitialised pointer'')
      | BarNull \<Rightarrow> Inr s
      | BarBlock m \<Rightarrow> bnd (PciSimGetBarSize a (int i) s) (\<lambda>n.
          if unat n < 16 then Inl (Undefined ''outside the block'')
          else let m' = fold (\<lambda>j m. m(j := test_pattern j)) [0..<16] m;
                   ok = list_all (\<lambda>j. m' j = test_pattern j) [0..<16]
               in Inr (bar_tests_update (\<lambda>l. l @ [ok]) (set_bar_block a (int i) m' s))))"

definition TestBarDriverInit :: "nat \<Rightarrow> bkernel \<Rightarrow> (int \<times> bkernel) res" where
  "TestBarDriverInit c s = bnd (get_pctx c s) (\<lambda>ctx.
     case find (\<lambda>i. bi_size (dc_bar_info ctx ! i) > 0 \<and> \<not> bi_is_io (dc_bar_info ctx ! i)) [0..<6] of
       None \<Rightarrow> Inr (-1, s)
     | Some i \<Rightarrow>
         if \<not> dc_ops ctx then Inl (Undefined ''null pointer'')
         else bnd (DeviceGetBarMemory ctx (int i) s) (\<lambda>mem.
              bnd (direct_memory_test (dc_addr ctx) i mem s) (\<lambda>s.
              bnd (DeviceBarWrite ctx (int i) 0x100 0xDFBADEEF 4 s) (\<lambda>s.
              bnd (DeviceBarRead ctx (int i) 0x100 4 s) (\<lambda>v.
              Inr (0, bar_tests_update (\<lambda>l. l @ [ucast v = (0xDFBADEEF :: 32 word)]) s))))))"

fun run_probe :: "PROBE \<Rightarrow> PCI_DEVICE_CONTEXT \<Rightarrow> 16 word" where
  "run_probe TestBarDriverProbe_fn ctx = TestBarDriverProbe ctx"
| "run_probe DummyProbe_fn ctx = DummyProbe ctx"

fun run_init :: "INIT \<Rightarrow> nat \<Rightarrow> bkernel \<Rightarrow> (int \<times> bkernel) res" where
  "run_init TestBarDriverInit_fn c s = TestBarDriverInit c s"
| "run_init DummyInit_fn c s = DummyInit c s"

text \<open>The first driver, from number \<open>i\<close> on, whose probe accepts the device gets it.\<close>

fun offer_device :: "nat \<Rightarrow> nat \<Rightarrow> PCI_DRIVER list \<Rightarrow> bkernel \<Rightarrow> bkernel res" where
  "offer_device c i [] s = Inr s"
| "offer_device c i (drv # drvs) s = bnd (get_pctx c s) (\<lambda>ctx.
     case dr_probe drv of
       None \<Rightarrow> offer_device c (i + 1) drvs s
     | Some p \<Rightarrow>
         if run_probe p ctx = 0 then offer_device c (i + 1) drvs s
         else let s = upd_pctx c (dc_driver_update (\<lambda>_. Some i)) s
              in (case dr_init drv of None \<Rightarrow> Inr s
                  | Some f \<Rightarrow> bnd (run_init f c s) (\<lambda>(_, s). Inr s)))"

definition DriverManagerHandleNewDevice :: "nat \<Rightarrow> bkernel \<Rightarrow> bkernel res" where
  "DriverManagerHandleNewDevice c s = offer_device c 0 (g_drivers s) s"

definition DriverFrameworkInit :: "bkernel \<Rightarrow> bkernel" where
  "DriverFrameworkInit = OS_RegisterDeviceFoundCallback (Some DriverManagerHandleNewDevice_fn)"

definition RegisterDriver :: "PCI_DRIVER \<Rightarrow> bkernel \<Rightarrow> bkernel" where
  "RegisterDriver drv s =
     (if length (g_drivers s) \<ge> MAX_DRIVERS then s else s\<lparr>g_drivers := g_drivers s @ [drv]\<rparr>)"

definition DriverPool :: "bkernel \<Rightarrow> bkernel" where
  "DriverPool = RegisterDriver \<lparr>dr_name = ''BAR Test Driver'', dr_vendor_id = 0xB350,
     dr_device_id = 0x1B10, dr_probe = Some TestBarDriverProbe_fn, dr_init = Some TestBarDriverInit_fn\<rparr>"

section \<open>A new device\<close>

definition OS_HandleNewPciDevice :: "PCI_ADDR \<Rightarrow> bkernel \<Rightarrow> bkernel res" where
  "OS_HandleNewPciDevice a s = bnd (DeviceCreateFromPci a s) (\<lambda>(c, s).
     case c of
       None \<Rightarrow> Inr s
     | Some c \<Rightarrow>
         if length (g_pciDevCtx s) \<ge> MAX_REAL_DEVICE then Inl (Bugcheck ''INVALID count of device'')
         else let s = g_pciDevCtx_update (\<lambda>l. l @ [c]) s
              in (case fgNewDeviceNotifier s of
                    None \<Rightarrow> Inr s
                  | Some DriverManagerHandleNewDevice_fn \<Rightarrow> DriverManagerHandleNewDevice c s))"

section \<open>Enumeration\<close>

definition run_device_callback :: "PCI_ADDR \<Rightarrow> bkernel \<Rightarrow> bkernel res" where
  "run_device_callback a s =
     (case gPciDeviceCallback s of None \<Rightarrow> Inr s
      | Some OS_HandleNewPciDevice_fn \<Rightarrow> OS_HandleNewPciDevice a s)"

text \<open>
  What the scan does at one function: the callback, then the header type and, for a bridge, the
  bus behind it that is to be scanned.
\<close>

definition visit_function :: "PCI_ADDR \<Rightarrow> bkernel \<Rightarrow> (8 word option \<times> bkernel) res" where
  "visit_function a s = bnd (run_device_callback a s) (\<lambda>s.
     bnd (PciGetHeaderType a s) (\<lambda>(header, s).
     if header = 1
     then bnd (PciGetSecondaryBus a s) (\<lambda>(sec_bus, s).
          Inr (if sec_bus \<noteq> fst a \<and> unat sec_bus < MAX_BUS then Some sec_bus else None, s))
     else Inr (None, s)))"

text \<open>
  \<^verbatim>\<open>PciScanBus\<close> from device \<open>dev\<close>, function \<open>func\<close> of a bus on. The scan of a bus behind a bridge
  is a recursive call, and nothing bounds its depth: two bridges that name each other's bus make
  it run for ever.
\<close>

partial_function (option) scan_bus :: "8 word \<Rightarrow> nat \<Rightarrow> nat \<Rightarrow> bkernel \<Rightarrow> bkernel res option" where
  "scan_bus bus dev func s =
     (if dev \<ge> MAX_DEVICE then Some (Inr s)
      else if func \<ge> MAX_FUNCTION then scan_bus bus (dev + 1) 0 s
      else (case PciReadVendor (bus, word_of_nat dev, word_of_nat func) s of
          Inl e \<Rightarrow> Some (Inl e)
        | Inr vendor \<Rightarrow>
            if vendor = 0xffff
            then (if func = 0 then scan_bus bus (dev + 1) 0 s else scan_bus bus dev (func + 1) s)
            else (case visit_function (bus, word_of_nat dev, word_of_nat func) s of
                Inl e \<Rightarrow> Some (Inl e)
              | Inr (None, s1) \<Rightarrow> scan_bus bus dev (func + 1) s1
              | Inr (Some sec_bus, s1) \<Rightarrow>
                  Option.bind (scan_bus sec_bus 0 0 s1) (\<lambda>r.
                    case r of Inl e \<Rightarrow> Some (Inl e) | Inr s2 \<Rightarrow> scan_bus bus dev (func + 1) s2))))"

lemmas scan_bus_code [code] = scan_bus.simps

definition PciScanBus :: "8 word \<Rightarrow> bkernel \<Rightarrow> bkernel res option" where
  "PciScanBus bus = scan_bus bus 0 0"

definition PciEnumerate :: "bkernel \<Rightarrow> bkernel res option" where
  "PciEnumerate = PciScanBus 0"

definition b_kernel_main :: "bkernel \<Rightarrow> bkernel res option" where
  "b_kernel_main s = obnd (Some (PciDevicePool s)) (\<lambda>s.
     PciEnumerate (DriverFrameworkInit (OS_InitPciCallbacks
       (PciSetDeviceCallback (Some OS_HandleNewPciDevice_fn) (DriverPool s)))))"

end
