(* ===== verification/PCI_Enum.thy ===== *)
theory PCI_Enum
  imports PCI_Facts OS_Device
begin

text \<open>
  When the enumeration of \<open>PCI_Logic\<close> returns, with no device callback registered: which functions
  make the scan of one bus call the scan of the other one.
\<close>

section \<open>What the scan sees\<close>

definition fn_addr :: "8 word \<Rightarrow> nat \<Rightarrow> nat \<Rightarrow> PCI_ADDR" where
  "fn_addr bus dev func = (bus, word_of_nat dev, word_of_nat func)"

definition seen :: "bkernel \<Rightarrow> PCI_ADDR \<Rightarrow> bool" where
  "seen s a \<longleftrightarrow> (case pci_dev a s of None \<Rightarrow> False | Some d \<Rightarrow> cfg16 d 0 \<noteq> 0xffff)"

text \<open>The bus behind a bridge, if the scan goes there.\<close>

definition bus_behind :: "PCI_ADDR \<Rightarrow> PCI_DEVICE \<Rightarrow> 8 word option" where
  "bus_behind a d =
     (let sec = ucast (drop_bit 8 (cfg32 d 0x18))
      in if ucast (drop_bit 16 (cfg32 d 0x0c) AND 0x7f) = (1 :: 8 word) \<and> sec \<noteq> fst a \<and> unat sec < MAX_BUS
         then Some sec else None)"

definition leads_at :: "bkernel \<Rightarrow> 8 word \<Rightarrow> nat \<Rightarrow> nat \<Rightarrow> bool" where
  "leads_at s bus dev func \<longleftrightarrow> seen s (fn_addr bus dev 0) \<and> seen s (fn_addr bus dev func)
     \<and> (case pci_dev (fn_addr bus dev func) s of None \<Rightarrow> False | Some d \<Rightarrow> bus_behind (fn_addr bus dev func) d \<noteq> None)"

text \<open>Some function on the bus leads to the other bus.\<close>

definition leads :: "bkernel \<Rightarrow> 8 word \<Rightarrow> bool" where
  "leads s bus \<longleftrightarrow> (\<exists>dev < MAX_DEVICE. \<exists>func < MAX_FUNCTION. leads_at s bus dev func)"

definition quiet :: "bkernel \<Rightarrow> bool" where
  "quiet s \<longleftrightarrow> gPciDeviceCallback s = None \<and> list_all (\<lambda>(a, d). idle d) (g_pci_bus s)"

lemma quiet_idle: "quiet s \<Longrightarrow> pci_dev a s = Some d \<Longrightarrow> idle d"
  by (auto simp: quiet_def list_all_iff pci_dev_def dest!: map_of_SomeD)

lemma fn_addr_in_range:
  "unat bus < 2 \<Longrightarrow> dev < 32 \<Longrightarrow> func < 8 \<Longrightarrow> pci_in_range (fn_addr bus dev func)"
  by (simp add: fn_addr_def unat_of_nat take_bit_nat_eq_self)

lemma vendor_seen:
  "pci_in_range a \<Longrightarrow> \<exists>v. PciReadVendor a s = Inr v \<and> (v = 0xffff \<longleftrightarrow> \<not> seen s a)"
  by (auto simp: PciReadVendor_def pci_slot_def seen_def split: option.split)

lemma visit_quiet:
  assumes "quiet s" "pci_in_range a" "pci_dev a s = Some d"
  shows "visit_function a s = Inr (bus_behind a d, s)"
proof -
  note rd = PciConfigRead32_idle [OF assms(2,3) quiet_idle [OF assms(1,3)]]
  have ff: "(0xff :: 32 word) = mask 8" by (simp add: mask_numeral)
  have "ucast (x AND 0xff) = (ucast x :: 8 word)" for x :: "32 word"
    unfolding ff by (rule bit_word_eqI) (auto simp: bit_simps)
  then show ?thesis
    using assms(1) rd [of "0x0c"] rd [of "0x18"]
    by (simp add: visit_function_def run_device_callback_def quiet_def PciGetHeaderType_def
        PciGetSecondaryBus_def bus_behind_def CONFIG_SIZE_def Let_def)
qed

lemma bus_behind_range: "bus_behind a d = Some sec \<Longrightarrow> unat sec < 2 \<and> sec \<noteq> fst a"
  by (auto simp: bus_behind_def Let_def split: if_splits)

section \<open>The scan returns\<close>

lemma scan_returns:
  assumes "quiet s" "unat bus < 2"
    and "\<And>dev func sec d. dev < 32 \<Longrightarrow> func < 8 \<Longrightarrow> leads_at s bus dev func \<Longrightarrow> unat sec < 2 \<Longrightarrow> sec \<noteq> bus
      \<Longrightarrow> scan_bus sec 0 0 s = Some (Inr s)"
    and "func = 0 \<or> seen s (fn_addr bus dev 0)"
  shows "scan_bus bus dev func s = Some (Inr s)"
  using assms(4)
proof (induction "(32 - dev) * 10 + (9 - func)" arbitrary: dev func rule: less_induct)
  case less
  show ?case
  proof (cases "dev < 32 \<and> func < 8")
    case False
    then show ?thesis using less.hyps [of "dev + 1" 0]
      by (cases "dev < 32") (simp_all add: scan_bus.simps [of bus dev func])
  next
    case True
    let ?a = "fn_addr bus dev func"
    have inr: "pci_in_range ?a" using fn_addr_in_range [OF assms(2)] True by simp
    obtain v where v: "PciReadVendor ?a s = Inr v" "v = 0xffff \<longleftrightarrow> \<not> seen s ?a"
      using vendor_seen [OF inr] by blast
    from True have "32 - dev = 31 - dev + 1" by presburger
    then have next_dev: "scan_bus bus (dev + 1) 0 s = Some (Inr s)" using True by (intro less.hyps) auto
    have next_func: "seen s (fn_addr bus dev 0) \<Longrightarrow> scan_bus bus dev (func + 1) s = Some (Inr s)"
      using True by (intro less.hyps) auto
    show ?thesis
    proof (cases "seen s ?a")
      case False
      then show ?thesis using True v next_dev next_func less.prems
        by (cases "func = 0") (simp_all add: scan_bus.simps [of bus dev func] scan_bus.simps [of bus dev 0] fn_addr_def)
    next
      case vis: True
      then obtain d where d: "pci_dev ?a s = Some d" by (auto simp: seen_def split: option.splits)
      have s0: "seen s (fn_addr bus dev 0)" using vis less.prems by auto
      note visit = visit_quiet [OF assms(1) inr d]
      show ?thesis
      proof (cases "bus_behind ?a d")
        case None
        then show ?thesis using True v vis visit next_func [OF s0]
          by (simp add: scan_bus.simps [of bus dev func] fn_addr_def)
      next
        case (Some sec)
        then have "leads_at s bus dev func" using vis s0 d by (simp add: leads_at_def)
        then have "scan_bus sec 0 0 s = Some (Inr s)"
          using assms(3) [of dev func sec] True bus_behind_range [OF Some] by (simp add: fn_addr_def)
        then show ?thesis using True v vis visit next_func [OF s0] Some
          by (simp add: scan_bus.simps [of bus dev func] fn_addr_def)
      qed
    qed
  qed
qed

section \<open>The scan runs for ever\<close>

text \<open>A function that leads to the other bus still lies ahead of the scan.\<close>

definition ahead :: "bkernel \<Rightarrow> 8 word \<Rightarrow> nat \<Rightarrow> nat \<Rightarrow> bool" where
  "ahead s bus dev func \<longleftrightarrow> (\<exists>dev' func'. dev' < 32 \<and> func' < 8 \<and> leads_at s bus dev' func'
     \<and> (dev < dev' \<or> dev = dev' \<and> func \<le> func'))"

lemma ahead_leads: "leads s bus \<Longrightarrow> ahead s bus 0 0"
  by (auto simp: leads_def ahead_def)

lemma ahead_next_func: "ahead s bus dev func \<Longrightarrow> \<not> leads_at s bus dev func \<Longrightarrow> ahead s bus dev (func + 1)"
  unfolding ahead_def by (metis Suc_eq_plus1 Suc_leI le_neq_implies_less)

lemma ahead_next_dev:
  "ahead s bus dev func \<Longrightarrow> 8 \<le> func \<or> \<not> seen s (fn_addr bus dev 0) \<Longrightarrow> ahead s bus (dev + 1) 0"
proof -
  assume "ahead s bus dev func" and *: "8 \<le> func \<or> \<not> seen s (fn_addr bus dev 0)"
  then obtain dev' func' where h: "dev' < 32" "func' < 8" "leads_at s bus dev' func'"
      "dev < dev' \<or> dev = dev' \<and> func \<le> func'" by (auto simp: ahead_def)
  with * have "dev < dev'" by (auto simp: leads_at_def)
  then have "dev + 1 < dev' \<or> dev + 1 = dev' \<and> 0 \<le> func'" by auto
  with h show ?thesis unfolding ahead_def by blast
qed

lemma scan_diverges:
  assumes "scan_bus bus dev func t = Some r" "quiet s" "leads s 0" "leads s 1"
  shows "\<not> (t = s \<and> unat bus < 2 \<and> ahead s bus dev func)"
proof (rule scan_bus.raw_induct [OF _ assms(1)], goal_cases)
  case (1 f bus dev func t r)
  have IH: "f b i j s = Some r' \<Longrightarrow> unat b < 2 \<Longrightarrow> \<not> ahead s b i j" for b i j r' using 1(1) by blast
  show ?case
  proof (rule notI, elim conjE)
    assume t: "t = s" and bus: "unat bus < 2" and a: "ahead s bus dev func"
    have dev: "dev < 32" using a by (auto simp: ahead_def)
    have "func < 8"
    proof (rule ccontr)
      assume "\<not> func < 8"
      then have "f bus (dev + 1) 0 s = Some r" "ahead s bus (dev + 1) 0"
        using 1(2) dev t ahead_next_dev [OF a] by simp_all
      with IH bus show False by blast
    qed
    have inr: "pci_in_range (fn_addr bus dev func)" using fn_addr_in_range [OF bus dev \<open>func < 8\<close>] .
    then obtain v where v: "PciReadVendor (fn_addr bus dev func) s = Inr v" "v = 0xffff \<longleftrightarrow> \<not> seen s (fn_addr bus dev func)"
      using vendor_seen by blast
    show False
    proof (cases "seen s (fn_addr bus dev func)")
      case False
      then have no: "\<not> leads_at s bus dev func" by (simp add: leads_at_def)
      have "func = 0 \<Longrightarrow> f bus (dev + 1) 0 s = Some r" "func \<noteq> 0 \<Longrightarrow> f bus dev (func + 1) s = Some r"
        using 1(2) dev \<open>func < 8\<close> t v False by (simp_all add: fn_addr_def)
      then show False using IH bus False ahead_next_func [OF a no] ahead_next_dev [OF a] by (cases "func = 0") auto
    next
      case vis: True
      then obtain d where d: "pci_dev (fn_addr bus dev func) s = Some d" by (auto simp: seen_def split: option.splits)
      note visit = visit_quiet [OF assms(2) inr d]
      show False
      proof (cases "bus_behind (fn_addr bus dev func) d")
        case None
        then have "\<not> leads_at s bus dev func" using d by (simp add: leads_at_def)
        moreover have "f bus dev (func + 1) s = Some r"
          using 1(2) dev \<open>func < 8\<close> t v vis visit None by (simp add: fn_addr_def)
        ultimately show False using IH bus ahead_next_func [OF a] by blast
      next
        case (Some sec)
        then obtain r' where "f sec 0 0 s = Some r'"
          using 1(2) dev \<open>func < 8\<close> t v vis visit by (auto simp: fn_addr_def bind_eq_Some_conv)
        moreover have sec: "unat sec < 2" using bus_behind_range [OF Some] by simp
        then have "sec = 0 \<or> sec = 1" by (simp add: less_2_cases_iff word_unat_eq_iff)
        then have "ahead s sec 0 0" using ahead_leads assms(3,4) by blast
        ultimately show False using IH sec by blast
      qed
    qed
  qed
qed

lemma enumerate_eq:
  assumes "quiet s"
  shows "PciEnumerate s = (if leads s 0 \<and> leads s 1 then None else Some (Inr s))"
proof (cases "leads s 0 \<and> leads s 1")
  case True
  then have "scan_bus 0 0 0 s \<noteq> Some r" for r
    using scan_diverges [of 0 0 0 s r s] assms ahead_leads by auto
  then show ?thesis using True by (auto simp: PciEnumerate_def PciScanBus_def)
next
  case False
  have other: "unat sec < 2 \<Longrightarrow> sec \<noteq> 0 \<Longrightarrow> sec = 1" for sec :: "8 word"
    by (simp_all add: less_2_cases_iff word_unat_eq_iff)
  have no_leads: "scan_bus bus 0 0 s = Some (Inr s)" if "\<not> leads s bus" "unat bus < 2" for bus
    by (rule scan_returns [OF assms that(2)]) (use that(1) in \<open>auto simp: leads_def\<close>)
  have "scan_bus 0 0 0 s = Some (Inr s)"
  proof (cases "leads s 0")
    case True
    with False have "scan_bus 1 0 0 s = Some (Inr s)" using no_leads [of 1] by simp
    then have nested: "unat sec < 2 \<Longrightarrow> sec \<noteq> 0 \<Longrightarrow> scan_bus sec 0 0 s = Some (Inr s)" for sec using other by blast
    show ?thesis by (rule scan_returns [OF assms]) (simp, erule nested, assumption, simp)
  qed (simp add: no_leads)
  then show ?thesis using False by (simp add: PciEnumerate_def PciScanBus_def)
qed

text \<open>Executable conditions for the two cases.\<close>

lemma leadsI: "leads_at s bus dev func \<Longrightarrow> dev < 32 \<Longrightarrow> func < 8 \<Longrightarrow> leads s bus"
  by (auto simp: leads_def)

lemma not_leadsI:
  "list_all (\<lambda>(a, d). fst a = bus \<longrightarrow> bus_behind a d = None) (g_pci_bus s) \<Longrightarrow> \<not> leads s bus"
  by (auto simp: leads_def leads_at_def fn_addr_def pci_dev_def list_all_iff dest!: map_of_SomeD split: option.splits)

end
