(* ===== verification/MMIO_Router.thy ===== *)
theory MMIO_Router
  imports OS_Device
begin

text \<open>
  Routing of memory-mapped accesses to the function that claims the address:
  \<^verbatim>\<open>B_Kernel/mmio/mmio_router.c\<close>. Configuration registers are read through \<open>PciConfigRead32\<close>,
  which may end a discovery, so the state is passed along.
\<close>

datatype MMIO_ERROR = MMIO_VALID | MMIO_ERR_BOUNDS | MMIO_ERR_ALIGNMENT | MMIO_ERR_MULTIPLE | MMIO_ERR_NO_DEVICE

record MMIO_MATCH =
  mm_addr :: PCI_ADDR
  mm_bar_index :: nat
  mm_bar_base :: "64 word"
  mm_bar_size :: "64 word"
  mm_offset :: "64 word"
  mm_is_io_space :: bool
  mm_is_64bit :: bool

section \<open>Checks of one device\<close>

text \<open>Bounds, modulo \<open>2 ^ 64\<close> as the code computes them, and natural alignment.\<close>

definition ValidateAccess :: "MMIO_MATCH option \<Rightarrow> 64 word \<Rightarrow> int \<Rightarrow> MMIO_ERROR" where
  "ValidateAccess match phys_addr sz =
     (case match of
        None \<Rightarrow> MMIO_ERR_NO_DEVICE
      | Some m \<Rightarrow>
          if mm_offset m + word_of_int sz > mm_bar_size m then MMIO_ERR_BOUNDS
          else if mm_is_io_space m then MMIO_VALID
          else if sz = 1 then MMIO_VALID
          else if sz = 2 then (if phys_addr AND 1 = 0 then MMIO_VALID else MMIO_ERR_ALIGNMENT)
          else if sz = 4 then (if phys_addr AND 3 = 0 then MMIO_VALID else MMIO_ERR_ALIGNMENT)
          else if sz = 8 then (if phys_addr AND 7 = 0 then MMIO_VALID else MMIO_ERR_ALIGNMENT)
          else MMIO_ERR_ALIGNMENT)"

definition IsDeviceEnabled :: "PCI_DEVICE_CONTEXT \<Rightarrow> bool \<Rightarrow> bkernel \<Rightarrow> (bool \<times> bkernel) res" where
  "IsDeviceEnabled ctx is_io_space s = bnd (PciConfigRead32 (dc_addr ctx) 0x04 s) (\<lambda>(cmd, s).
     let command = ucast cmd :: 16 word
     in Inr (if is_io_space then command AND 0x0001 \<noteq> 0 else command AND 0x0002 \<noteq> 0, s))"

text \<open>The comparison the decoder of a BAR makes.\<close>

definition bar_claims :: "PCI_BAR_INFO \<Rightarrow> 64 word \<Rightarrow> bool \<Rightarrow> bool" where
  "bar_claims info phys_addr is_io_space \<longleftrightarrow>
     bi_size info \<noteq> 0 \<and> bi_base_address info \<noteq> 0 \<and> bi_is_io info = is_io_space
     \<and> phys_addr AND NOT (bi_size info - 1) = bi_base_address info AND NOT (bi_size info - 1)"

definition EndpointClaimsAddress :: "PCI_DEVICE_CONTEXT \<Rightarrow> 64 word \<Rightarrow> bool \<Rightarrow> MMIO_MATCH option" where
  "EndpointClaimsAddress ctx phys_addr is_io_space =
     map_option (\<lambda>bar. let info = dc_bar_info ctx ! bar
       in \<lparr>mm_addr = dc_addr ctx, mm_bar_index = bar, mm_bar_base = bi_base_address info,
           mm_bar_size = bi_size info, mm_offset = phys_addr AND (bi_size info - 1),
           mm_is_io_space = bi_is_io info, mm_is_64bit = bi_is_64bit info\<rparr>)
       (find (\<lambda>bar. bar_claims (dc_bar_info ctx ! bar) phys_addr is_io_space) [0..<6])"

section \<open>The windows of a bridge\<close>

definition AddressInMemoryWindow :: "PCI_DEVICE_CONTEXT \<Rightarrow> 64 word \<Rightarrow> bkernel \<Rightarrow> (bool \<times> bkernel) res" where
  "AddressInMemoryWindow bridge phys_addr s = bnd (PciConfigRead32 (dc_addr bridge) 0x20 s) (\<lambda>(mem_window, s).
     let mem_base = ucast mem_window; mem_limit = ucast (drop_bit 16 mem_window)
     in Inr (mem_base \<noteq> 0 \<and> mem_limit \<noteq> 0
             \<and> phys_addr \<ge> window_base mem_base \<and> phys_addr \<le> window_limit mem_limit, s))"

definition AddressInPrefetchWindow :: "PCI_DEVICE_CONTEXT \<Rightarrow> 64 word \<Rightarrow> bkernel \<Rightarrow> (bool \<times> bkernel) res" where
  "AddressInPrefetchWindow bridge phys_addr s = bnd (PciConfigRead32 (dc_addr bridge) 0x24 s) (\<lambda>(pref_window, s).
     let pref_base = ucast pref_window; pref_limit = ucast (drop_bit 16 pref_window)
     in if pref_base = 0 \<or> pref_limit = 0 then Inr (False, s)
        else bnd (PciConfigRead32 (dc_addr bridge) 0x28 s) (\<lambda>(base_upper, s).
             bnd (if base_upper \<noteq> 0 then PciConfigRead32 (dc_addr bridge) 0x2c s else Inr (0, s)) (\<lambda>(limit_upper, s).
             Inr (phys_addr \<ge> window_base pref_base OR push_bit 32 (ucast base_upper)
                  \<and> phys_addr \<le> window_limit pref_limit OR push_bit 32 (ucast limit_upper), s))))"

definition AddressInIoWindow :: "PCI_DEVICE_CONTEXT \<Rightarrow> 64 word \<Rightarrow> bkernel \<Rightarrow> (bool \<times> bkernel) res" where
  "AddressInIoWindow bridge phys_addr s = bnd (PciConfigRead32 (dc_addr bridge) 0x1c s) (\<lambda>(v, s).
     let io_base = ucast v :: 8 word; io_limit = ucast (drop_bit 8 v) :: 8 word;
         io_addr = ucast phys_addr :: 16 word;
         base = push_bit 8 (ucast (io_base AND 0xf0)) :: 16 word;
         limit = push_bit 8 (ucast (io_limit AND 0xf0)) OR 0xfff :: 16 word
     in Inr (io_base \<noteq> 0 \<and> io_limit \<noteq> 0 \<and> io_addr \<ge> base \<and> io_addr \<le> limit, s))"

text \<open>
  The buses a bridge forwards an address to, from its secondary to its subordinate bus, or
  \<open>None\<close> when the bridge is not configured or the address is in none of its windows.
\<close>

definition forward_buses :: "PCI_DEVICE_CONTEXT \<Rightarrow> 64 word \<Rightarrow> bool \<Rightarrow> bkernel
    \<Rightarrow> ((8 word \<times> 8 word) option \<times> bkernel) res" where
  "forward_buses bridge phys_addr is_io_space s = bnd (PciConfigRead32 (dc_addr bridge) 0x18 s) (\<lambda>(bus_numbers, s).
     let secondary_bus = ucast (drop_bit 8 bus_numbers); subordinate_bus = ucast (drop_bit 16 bus_numbers)
     in if secondary_bus = 0 then Inr (None, s)
        else bnd (if is_io_space then AddressInIoWindow bridge phys_addr s
                  else bnd (AddressInMemoryWindow bridge phys_addr s) (\<lambda>(m, s).
                       if m then Inr (True, s) else AddressInPrefetchWindow bridge phys_addr s)) (\<lambda>(in_window, s).
             Inr (if in_window then Some (secondary_bus, subordinate_bus) else None, s)))"

section \<open>The search\<close>

text \<open>
  \<open>ScanBusForDevice\<close> and the loop over buses of \<open>BridgeForwardsAddress\<close> call each other. A task is
  either the scan of the known devices on a bus from the \<open>i\<close>-th on, with the match found so far,
  or the scan of the buses from one to another. A loop that ends at bus 255 and finds nothing
  never ends, because the counter is a byte.
\<close>

datatype ROUTE = ScanFrom "8 word" nat "MMIO_MATCH option" | Forward "8 word" "8 word"

text \<open>What the scan does with a device: skip it, ask its BARs, or first ask the buses behind it.\<close>

datatype VISIT = Skip | AskBars | AskBuses "8 word" "8 word"

definition visit_context :: "PCI_DEVICE_CONTEXT \<Rightarrow> 8 word \<Rightarrow> 64 word \<Rightarrow> bool \<Rightarrow> bkernel
    \<Rightarrow> (VISIT \<times> bkernel) res" where
  "visit_context ctx bus phys_addr is_io_space s =
     (if fst (dc_addr ctx) \<noteq> bus then Inr (Skip, s)
      else bnd (IsDeviceEnabled ctx is_io_space s) (\<lambda>(enabled, s).
        if \<not> enabled then Inr (Skip, s)
        else if dc_header_type ctx = 1
        then bnd (forward_buses ctx phys_addr is_io_space s) (\<lambda>(buses, s).
               Inr (case buses of None \<Rightarrow> AskBars | Some (sec, sub) \<Rightarrow> AskBuses sec sub, s))
        else Inr (AskBars, s)))"

definition first_match :: "MMIO_MATCH option \<Rightarrow> MMIO_MATCH option \<Rightarrow> MMIO_MATCH option" where
  "first_match found claim = (case found of None \<Rightarrow> claim | Some m \<Rightarrow> Some m)"

partial_function (option) route :: "64 word \<Rightarrow> bool \<Rightarrow> ROUTE \<Rightarrow> bkernel \<Rightarrow> (MMIO_MATCH option \<times> bkernel) res option" where
  "route phys_addr is_io_space task s =
     (case task of
        Forward bus last_bus \<Rightarrow>
          if bus > last_bus then Some (Inr (None, s))
          else Option.bind (route phys_addr is_io_space (ScanFrom bus 0 None) s) (\<lambda>r.
            case r of
              Inl e \<Rightarrow> Some (Inl e)
            | Inr (Some m, s1) \<Rightarrow> Some (Inr (Some m, s1))
            | Inr (None, s1) \<Rightarrow> route phys_addr is_io_space (Forward (bus + 1) last_bus) s1)
      | ScanFrom bus i found \<Rightarrow>
          if i \<ge> length (g_pciDevCtx s) then Some (Inr (found, s))
          else (case get_pctx (g_pciDevCtx s ! i) s of
              Inl e \<Rightarrow> Some (Inl e)
            | Inr ctx \<Rightarrow>
                (case visit_context ctx bus phys_addr is_io_space s of
                   Inl e \<Rightarrow> Some (Inl e)
                 | Inr (Skip, s1) \<Rightarrow> route phys_addr is_io_space (ScanFrom bus (i + 1) found) s1
                 | Inr (AskBars, s1) \<Rightarrow>
                     route phys_addr is_io_space (ScanFrom bus (i + 1)
                       (first_match found (EndpointClaimsAddress ctx phys_addr is_io_space))) s1
                 | Inr (AskBuses sec sub, s1) \<Rightarrow>
                     Option.bind (route phys_addr is_io_space (Forward sec sub) s1) (\<lambda>r.
                       case r of
                         Inl e \<Rightarrow> Some (Inl e)
                       | Inr (claim, s2) \<Rightarrow>
                           route phys_addr is_io_space (ScanFrom bus (i + 1) (first_match found
                             (first_match claim (EndpointClaimsAddress ctx phys_addr is_io_space)))) s2))))"

lemmas route_code [code] = route.simps

definition ScanBusForDevice :: "8 word \<Rightarrow> 64 word \<Rightarrow> bool \<Rightarrow> bkernel \<Rightarrow> (MMIO_MATCH option \<times> bkernel) res option" where
  "ScanBusForDevice bus phys_addr is_io_space = route phys_addr is_io_space (ScanFrom bus 0 None)"

definition MmioFindDevice :: "64 word \<Rightarrow> bool \<Rightarrow> bkernel \<Rightarrow> (MMIO_MATCH option \<times> bkernel) res option" where
  "MmioFindDevice phys_addr is_io_space s =
     (let (ok, s) = p_alloc s
      in if \<not> ok then Some (Inr (None, s)) else ScanBusForDevice 0 phys_addr is_io_space s)"

section \<open>Routed accesses\<close>

definition all_ones :: "int \<Rightarrow> 64 word" where
  "all_ones sz = (if sz = 1 then 0xff else if sz = 2 then 0xffff else if sz = 4 then 0xffffffff
                  else 0xffffffffffffffff)"

definition match_context :: "MMIO_MATCH \<Rightarrow> bkernel \<Rightarrow> PCI_DEVICE_CONTEXT option" where
  "match_context m s = map_option (\<lambda>c. h_pctx s ! c) (find_context (mm_addr m) s)"

definition MmioRouteRead :: "64 word \<Rightarrow> int \<Rightarrow> bkernel \<Rightarrow> (64 word \<times> bkernel) res option" where
  "MmioRouteRead phys_addr sz s = obnd (MmioFindDevice phys_addr False s) (\<lambda>(match, s).
     case match of
       None \<Rightarrow> Some (Inr (all_ones sz, s))
     | Some m \<Rightarrow>
         if ValidateAccess match phys_addr sz \<noteq> MMIO_VALID then Some (Inr (all_ones sz, s))
         else (case match_context m s of
             None \<Rightarrow> Some (Inr (0, s))
           | Some ctx \<Rightarrow>
               if \<not> dc_ops ctx then Some (Inr (0, s))
               else Some (bnd (DeviceBarRead ctx (int (mm_bar_index m)) (mm_offset m) sz s) (\<lambda>v. Inr (v, s)))))"

definition MmioRouteWrite :: "64 word \<Rightarrow> 64 word \<Rightarrow> int \<Rightarrow> bkernel \<Rightarrow> bkernel res option" where
  "MmioRouteWrite phys_addr v sz s = obnd (MmioFindDevice phys_addr False s) (\<lambda>(match, s).
     case match of
       None \<Rightarrow> Some (Inr s)
     | Some m \<Rightarrow>
         if ValidateAccess match phys_addr sz \<noteq> MMIO_VALID then Some (Inr s)
         else (case match_context m s of
             None \<Rightarrow> Some (Inr s)
           | Some ctx \<Rightarrow>
               if \<not> dc_ops ctx then Some (Inr s)
               else Some (DeviceBarWrite ctx (int (mm_bar_index m)) (mm_offset m) v sz s)))"

end
