(* ===== verification/MMIO_Facts.thy ===== *)
theory MMIO_Facts
  imports MMIO_Router PCI_Access
begin

text \<open>
  The search of \<open>MMIO_Router\<close> reads the contexts and the configuration spaces and changes nothing
  when no BAR is being sized: it gives the same answer in every state that agrees on them, and the
  answer is the claim of a known device.
\<close>

section \<open>States that route alike\<close>

definition alike :: "bkernel \<Rightarrow> bkernel \<Rightarrow> bool" where
  "alike s t \<longleftrightarrow> g_pciDevCtx s = g_pciDevCtx t \<and> h_pctx s = h_pctx t
     \<and> (\<forall>a. rel_option (\<lambda>d e. pd_config d = pd_config e \<and> idle d \<and> idle e) (pci_dev a s) (pci_dev a t))"

definition steady :: "bkernel \<Rightarrow> bkernel \<Rightarrow> (bkernel \<Rightarrow> ('a \<times> bkernel) res) \<Rightarrow> bool" where
  "steady s t f \<longleftrightarrow> (\<forall>v s'. f s = Inr (v, s') \<longrightarrow> s' = s \<and> f t = Inr (v, t))"

named_theorems steady_intros \<open>rules for computations that only read\<close>

lemma steady_Inr [steady_intros]: "steady s t (\<lambda>s. Inr (x, s))"
  by (simp add: steady_def)

lemma steady_bnd [steady_intros]:
  "steady s t f \<Longrightarrow> (\<And>v. steady s t (g v)) \<Longrightarrow> steady s t (\<lambda>s. bnd (f s) (\<lambda>(v, s). g v s))"
  unfolding steady_def by (auto simp: res_simps)

lemma steady_if [steady_intros]:
  "(c \<Longrightarrow> steady s t f) \<Longrightarrow> (\<not> c \<Longrightarrow> steady s t g) \<Longrightarrow> steady s t (\<lambda>s. if c then f s else g s)"
  by (cases c) simp_all

lemma steady_read [steady_intros]: "alike s t \<Longrightarrow> steady s t (PciConfigRead32 a off)"
proof -
  assume "alike s t"
  then have "rel_option (\<lambda>d e. pd_config d = pd_config e \<and> idle d \<and> idle e) (pci_dev a s) (pci_dev a t)"
    unfolding alike_def by blast
  then show ?thesis
    by (cases rule: option.rel_cases)
      (auto simp: steady_def PciConfigRead32_def pci_slot_def PciSimGetDiscoveryMode_def sim_device_def
        idle_def cfg32_def split: if_splits)
qed

lemma steady_enabled [steady_intros]: "alike s t \<Longrightarrow> steady s t (IsDeviceEnabled ctx io)"
  unfolding IsDeviceEnabled_def Let_def by (intro steady_intros)

lemma steady_memory [steady_intros]: "alike s t \<Longrightarrow> steady s t (AddressInMemoryWindow ctx p)"
  unfolding AddressInMemoryWindow_def Let_def by (intro steady_intros)

lemma steady_prefetch [steady_intros]: "alike s t \<Longrightarrow> steady s t (AddressInPrefetchWindow ctx p)"
  unfolding AddressInPrefetchWindow_def Let_def by (intro steady_intros)

lemma steady_io [steady_intros]: "alike s t \<Longrightarrow> steady s t (AddressInIoWindow ctx p)"
  unfolding AddressInIoWindow_def Let_def by (intro steady_intros)

lemma steady_forward [steady_intros]: "alike s t \<Longrightarrow> steady s t (forward_buses ctx p io)"
  unfolding forward_buses_def Let_def by (intro steady_intros)

lemma steady_visit: "alike s t \<Longrightarrow> steady s t (visit_context ctx bus p io)"
  unfolding visit_context_def by (intro steady_intros)

section \<open>The answer of the search\<close>

definition claimed_by :: "64 word \<Rightarrow> bool \<Rightarrow> bkernel \<Rightarrow> MMIO_MATCH option \<Rightarrow> bool" where
  "claimed_by p io s found \<longleftrightarrow> (case found of None \<Rightarrow> True
     | Some m \<Rightarrow> \<exists>c \<in> set (g_pciDevCtx s). EndpointClaimsAddress (h_pctx s ! c) p io = Some m)"

lemma claimed_by_simps [simp]: "claimed_by p io s None"
  "claimed_by p io s f \<Longrightarrow> claimed_by p io s g \<Longrightarrow> claimed_by p io s (first_match f g)"
  by (auto simp: claimed_by_def first_match_def split: option.split)

lemma claimed_by_endpoint:
  "c \<in> set (g_pciDevCtx s) \<Longrightarrow> claimed_by p io s (EndpointClaimsAddress (h_pctx s ! c) p io)"
  by (auto simp: claimed_by_def split: option.split)

fun found_so_far :: "ROUTE \<Rightarrow> MMIO_MATCH option" where
  "found_so_far (ScanFrom bus i found) = found"
| "found_so_far (Forward bus last_bus) = None"

lemma route_answer:
  assumes "route p io task s = Some r" "r = Inr (m, s')" "alike s t"
  shows "s' = s \<and> route p io task t = Some (Inr (m, t)) \<and> (claimed_by p io s (found_so_far task) \<longrightarrow> claimed_by p io s m)"
proof -
  have "\<forall>m s'. r = Inr (m, s') \<longrightarrow> alike s t \<longrightarrow> s' = s \<and> route p io task t = Some (Inr (m, t))
      \<and> (claimed_by p io s (found_so_far task) \<longrightarrow> claimed_by p io s m)"
  proof (rule route.raw_induct [OF _ assms(1)], goal_cases)
    case (1 f p io task s r)
    have IH: "f p io task' s = Some (Inr (m, s')) \<Longrightarrow> alike s t \<Longrightarrow> s' = s \<and> route p io task' t = Some (Inr (m, t))
      \<and> (claimed_by p io s (found_so_far task') \<longrightarrow> claimed_by p io s m)" for task' m s'
      using 1(1) by blast
    note route = 1(2)
    show ?case
    proof (intro allI impI, goal_cases)
      case (1 m s')
      note h = 1
      have const: "g_pciDevCtx t = g_pciDevCtx s" "get_pctx c t = get_pctx c s" for c
        using h(2) by (simp_all add: alike_def get_pctx_def)
      show ?case
      proof (cases task)
        case (Forward bus last_bus)
        show ?thesis
        proof (cases "bus > last_bus")
          case True
          then show ?thesis using Forward route h by (simp add: route.simps [of p io "Forward bus last_bus"])
        next
          case False
          then obtain y where y: "f p io (ScanFrom bus 0 None) s = Some y"
            using Forward route by (auto simp: bind_eq_Some_conv)
          then obtain r1 where r1: "f p io (ScanFrom bus 0 None) s = Some (Inr r1)"
              "(case r1 of (Some m1, s1) \<Rightarrow> Some (Inr (Some m1, s1))
                | (None, s1) \<Rightarrow> f p io (Forward (bus + 1) last_bus) s1) = Some r"
            using Forward False route h by (cases y) auto
          obtain m1 s1 where r1': "r1 = (m1, s1)" by fastforce
          note IH1 = IH [OF r1(1) [unfolded r1'] h(2)]
          show ?thesis
          proof (cases m1)
            case None
            then have "f p io (Forward (bus + 1) last_bus) s = Some (Inr (m, s'))" using r1(2) r1' IH1 h(1) by simp
            from IH [OF this h(2)] IH1 None False Forward show ?thesis by (simp add: route.simps [of p io "Forward bus last_bus"])
          next
            case (Some m2)
            then show ?thesis using r1(2) r1' IH1 h(1) False Forward by (auto simp: route.simps [of p io "Forward bus last_bus"])
          qed
        qed
      next
        case (ScanFrom bus i found)
        show ?thesis
        proof (cases "i < length (g_pciDevCtx s)")
          case False
          then have "route p io (ScanFrom bus i found) t = Some (Inr (found, t))"
            using const by (simp add: route.simps [of p io "ScanFrom bus i found"])
          then show ?thesis using False ScanFrom route h by auto
        next
          case True
          let ?c = "g_pciDevCtx s ! i"
          obtain ctx where ctx: "get_pctx ?c s = Inr ctx"
            using ScanFrom route h True by (auto split: sum.splits)
          then have claim: "claimed_by p io s (EndpointClaimsAddress ctx p io)"
            using True by (auto simp: get_pctx_def res_simps intro!: claimed_by_endpoint)
          obtain v s1 where v: "visit_context ctx bus p io s = Inr (v, s1)"
            using ScanFrom route h True ctx by (auto split: sum.splits)
          with steady_visit [OF h(2)] have vt: "s1 = s" "visit_context ctx bus p io t = Inr (v, t)"
            unfolding steady_def by blast+
          note unf = route.simps [of p io "ScanFrom bus i found"]
          show ?thesis
          proof (cases v)
            case Skip
            then have "f p io (ScanFrom bus (i + 1) found) s = Some (Inr (m, s'))"
              using ScanFrom route h(1) True ctx v vt by simp
            from IH [OF this h(2)] show ?thesis using ScanFrom True ctx vt Skip const by (simp add: unf)
          next
            case AskBars
            then have "f p io (ScanFrom bus (i + 1) (first_match found (EndpointClaimsAddress ctx p io))) s = Some (Inr (m, s'))"
              using ScanFrom route h(1) True ctx v vt by simp
            from IH [OF this h(2)] show ?thesis using ScanFrom True ctx vt AskBars const claim by (simp add: unf)
          next
            case (AskBuses sec sub)
            then obtain y where y: "f p io (Forward sec sub) s = Some y"
              using ScanFrom route True ctx v vt by (auto simp: bind_eq_Some_conv)
            with AskBuses obtain m1 s1 where m1: "f p io (Forward sec sub) s = Some (Inr (m1, s1))"
                "f p io (ScanFrom bus (i + 1) (first_match found (first_match m1 (EndpointClaimsAddress ctx p io)))) s1 = Some r"
              using ScanFrom route h True ctx v vt by (cases y) auto
            note IH1 = IH [OF m1(1) h(2)]
            with m1(2) h(1) have "f p io (ScanFrom bus (i + 1) (first_match found (first_match m1 (EndpointClaimsAddress ctx p io)))) s = Some (Inr (m, s'))"
              by simp
            from IH [OF this h(2)] IH1 show ?thesis using ScanFrom True ctx vt AskBuses const claim by (simp add: unf)
          qed
        qed
      qed
    qed
  qed
  with assms(2,3) show ?thesis by blast
qed

section \<open>What a claim says\<close>

lemma EndpointClaimsAddress_Some:
  assumes "EndpointClaimsAddress ctx p io = Some m"
  shows "\<exists>b < 6. let info = dc_bar_info ctx ! b in bar_claims info p io
    \<and> m = \<lparr>mm_addr = dc_addr ctx, mm_bar_index = b, mm_bar_base = bi_base_address info,
           mm_bar_size = bi_size info, mm_offset = p AND (bi_size info - 1),
           mm_is_io_space = io, mm_is_64bit = bi_is_64bit info\<rparr>"
  using assms
  by (auto simp: EndpointClaimsAddress_def Let_def find_Some_iff bar_claims_def intro!: exI [where x = "mm_bar_index m"])

lemma word_and_split: "(x :: 64 word) = (x AND NOT m) + (x AND m)"
proof -
  have "(x AND NOT m) AND (x AND m) = 0" "(x AND NOT m) OR (x AND m) = x"
    by (rule bit_word_eqI, auto simp: bit_simps)+
  then show ?thesis using word_plus_and_or [of "x AND NOT m" "x AND m"] by simp
qed

text \<open>An offset inside a BAR whose size is a power of two.\<close>

lemma claim_offset:
  assumes "bar_claims info p io" "bi_size info = 2 ^ k" "k < 64" "bi_base_address info AND mask k = 0"
  shows "bi_base_address info + (p AND (bi_size info - 1)) = p" "p AND (bi_size info - 1) < bi_size info"
proof -
  have "p AND NOT (mask k) = bi_base_address info AND NOT (mask k)"
    using assms(1,2) by (simp add: bar_claims_def exp_minus_1)
  moreover have "bi_base_address info AND NOT (mask k) = bi_base_address info"
    using word_and_split [of "bi_base_address info" "mask k"] assms(4) by simp
  ultimately show "bi_base_address info + (p AND (bi_size info - 1)) = p"
    using word_and_split [of p "mask k"] assms(2) by (simp add: exp_minus_1)
  have "unat (p AND mask k) = take_bit k (unat p)"
    by (simp add: take_bit_eq_mask [symmetric] unsigned_take_bit_eq)
  moreover have "unat (2 ^ k :: 64 word) = 2 ^ k" using assms(3) by (intro unat_exp) simp
  ultimately show "p AND (bi_size info - 1) < bi_size info"
    using assms(2) by (simp add: exp_minus_1 word_less_nat_alt)
qed

section \<open>Routed accesses\<close>

definition all_idle :: "bkernel \<Rightarrow> bool" where
  "all_idle s \<longleftrightarrow> list_all (\<lambda>(a, d). idle d) (g_pci_bus s)"

lemma all_idleD: "all_idle s \<Longrightarrow> pci_dev a s = Some d \<Longrightarrow> idle d"
  by (auto simp: all_idle_def list_all_iff pci_dev_def dest!: map_of_SomeD)

lemma idle_bar_mem [simp]: "idle (d\<lparr>pd_bar_mem := x\<rparr>) = idle d"
  by (simp add: idle_def)

lemma upd_slot_other [simp]: "g_pciDevCtx (upd_slot a f s) = g_pciDevCtx s" "h_pctx (upd_slot a f s) = h_pctx s"
  by (simp_all add: upd_slot_def)

lemma alike_refl: "all_idle s \<Longrightarrow> alike s s"
  by (auto simp: alike_def all_idle_def list_all_iff pci_dev_def rel_option_iff dest!: map_of_SomeD split: option.split)

lemma alike_allocs: "all_idle s \<Longrightarrow> alike s (s\<lparr>p_allocs := n\<rparr>)"
  using alike_refl [of s] by (simp add: alike_def pci_dev_def)

lemma alike_block: "all_idle s \<Longrightarrow> alike s (set_bar_block a i m s)"
  by (auto simp: alike_def set_bar_block_def rel_option_iff all_idleD split: option.split)

lemma alike_dev:
  "alike s t \<Longrightarrow> rel_option (\<lambda>d e. pd_config d = pd_config e \<and> idle d \<and> idle e) (pci_dev a s) (pci_dev a t)"
  unfolding alike_def by blast

lemma alike_trans: assumes "alike s t" "alike t u" shows "alike s u"
  unfolding alike_def
proof (intro conjI allI)
  fix a
  show "rel_option (\<lambda>d e. pd_config d = pd_config e \<and> idle d \<and> idle e) (pci_dev a s) (pci_dev a u)"
    using alike_dev [OF assms(1), of a] alike_dev [OF assms(2), of a] by (auto elim!: option.rel_cases)
qed (use assms in \<open>simp_all add: alike_def\<close>)

lemma alike_sym: assumes "alike s t" shows "alike t s"
  unfolding alike_def
proof (intro conjI allI)
  fix a
  show "rel_option (\<lambda>d e. pd_config d = pd_config e \<and> idle d \<and> idle e) (pci_dev a t) (pci_dev a s)"
    using alike_dev [OF assms, of a] by (auto elim!: option.rel_cases)
qed (use assms in \<open>simp_all add: alike_def\<close>)

lemma MmioFindDevice_answer:
  assumes "MmioFindDevice p io s = Some (Inr (Some m, s'))" "all_idle s" "alike s t"
  shows "s' = s\<lparr>p_allocs := p_allocs s + 1\<rparr>" "claimed_by p io s (Some m)"
    "p_alloc_ok t (p_allocs t) \<Longrightarrow> MmioFindDevice p io t = Some (Inr (Some m, t\<lparr>p_allocs := p_allocs t + 1\<rparr>))"
proof -
  let ?s = "s\<lparr>p_allocs := p_allocs s + 1\<rparr>" and ?t = "t\<lparr>p_allocs := p_allocs t + 1\<rparr>"
  have r: "route p io (ScanFrom 0 0 None) ?s = Some (Inr (Some m, s'))"
    using assms(1) by (auto simp: MmioFindDevice_def p_alloc_def ScanBusForDevice_def split: if_splits)
  have "alike ?s s" using alike_sym [OF alike_allocs [OF assms(2)]] .
  moreover have "alike t ?t" using alike_trans [OF alike_sym [OF assms(3)] assms(3)]
    by (simp add: alike_def pci_dev_def)
  ultimately have "alike ?s ?t" using assms(3) alike_trans by blast
  note ans = route_answer [OF r refl this]
  then show "s' = ?s" "claimed_by p io s (Some m)" by (simp_all add: claimed_by_def)
  show "p_alloc_ok t (p_allocs t) \<Longrightarrow> MmioFindDevice p io t = Some (Inr (Some m, ?t))"
    using ans by (simp add: MmioFindDevice_def p_alloc_def ScanBusForDevice_def)
qed

lemma claimed_match:
  assumes "claimed_by p io s (Some m)"
  shows "\<exists>c \<in> set (g_pciDevCtx s). \<exists>info. dc_addr (h_pctx s ! c) = mm_addr m \<and> mm_bar_index m < 6
    \<and> info = dc_bar_info (h_pctx s ! c) ! mm_bar_index m \<and> bar_claims info p io
    \<and> bi_base_address info = mm_bar_base m \<and> bi_size info = mm_bar_size m
    \<and> mm_offset m = p AND (bi_size info - 1) \<and> mm_is_io_space m = io"
proof -
  from assms obtain c where c: "c \<in> set (g_pciDevCtx s)" "EndpointClaimsAddress (h_pctx s ! c) p io = Some m"
    by (auto simp: claimed_by_def)
  from EndpointClaimsAddress_Some [OF c(2)] c(1) show ?thesis by (auto simp: Let_def)
qed

lemma valid_access:
  assumes "ValidateAccess (Some m) p sz = MMIO_VALID" "\<not> mm_is_io_space m"
    and "mm_offset m < mm_bar_size m" "mm_bar_size m = 2 ^ k" "k < 64"
  shows "sz \<in> {1, 2, 4, 8}" "unat (mm_offset m) + nat sz \<le> unat (mm_bar_size m)"
proof -
  show sz: "sz \<in> {1, 2, 4, 8}" using assms(1,2) by (auto simp: ValidateAccess_def split: if_splits)
  have le: "\<not> mm_offset m + word_of_int sz > mm_bar_size m" using assms(1) by (auto simp: ValidateAccess_def)
  have "unat (mm_bar_size m) = 2 ^ k" using unat_exp [of k, where 'a = 64] assms(4,5) by simp
  moreover have "(2 :: nat) ^ k \<le> 2 ^ 63" using assms(5) by (intro power_increasing) simp_all
  ultimately have "unat (mm_offset m) < 2 ^ 63" using assms(3) by (simp add: word_less_nat_alt)
  moreover have "unat (word_of_int sz :: 64 word) = nat sz" using sz by auto
  ultimately have "unat (mm_offset m + word_of_int sz) = unat (mm_offset m) + nat sz"
    using sz by (auto simp: unat_plus_if_size word_size)
  then show "unat (mm_offset m) + nat sz \<le> unat (mm_bar_size m)"
    using le by (simp add: word_less_nat_alt)
qed

text \<open>A write that the router carries out, and the read of the same address after it.\<close>

lemma route_write_read:
  assumes "all_idle s" "p_alloc_ok s (p_allocs s + 1)"
    and "MmioFindDevice p False s = Some (Inr (Some m, s0))" "ValidateAccess (Some m) p sz = MMIO_VALID"
    and "mm_bar_size m = 2 ^ k" "k < 64" "mm_bar_base m AND mask k = 0"
    and "\<forall>c \<in> set (g_pciDevCtx s). dc_ops (h_pctx s ! c)"
    and "bar_block (mm_addr m) (mm_bar_index m) blk (mm_bar_size m) s"
  shows "\<exists>s1 s2. MmioRouteWrite p v sz s = Some (Inr s1)
    \<and> MmioRouteRead p sz s1 = Some (Inr (take_bit (nat (8 * sz)) v, s2))"
proof -
  let ?blk = "le_write (nat sz) v (unat (mm_offset m)) blk"
  define t where "t = s\<lparr>p_allocs := p_allocs s + 1\<rparr>"
  define s1 where "s1 = set_bar_block (mm_addr m) (int (mm_bar_index m)) ?blk t"
  define s2 where "s2 = s1\<lparr>p_allocs := p_allocs s1 + 1\<rparr>"
  have s0: "s0 = t" "claimed_by p False s (Some m)"
    using MmioFindDevice_answer [OF assms(3,1) alike_refl [OF assms(1)]] by (simp_all add: t_def)
  obtain c info where c: "c \<in> set (g_pciDevCtx s)" "dc_addr (h_pctx s ! c) = mm_addr m" "bar_claims info p False"
      "bi_base_address info = mm_bar_base m" "bi_size info = mm_bar_size m"
      "mm_offset m = p AND (bi_size info - 1)" "\<not> mm_is_io_space m"
    using claimed_match [OF s0(2)] by blast
  have off: "mm_offset m < mm_bar_size m"
    using claim_offset(2) [OF c(3) _ assms(6)] c(4-6) assms(5,7) by simp
  note acc = valid_access [OF assms(4) c(7) off assms(5,6)]
  have ctx: "\<exists>x. match_context m u = Some x \<and> dc_ops x \<and> dc_addr x = mm_addr m"
    if "g_pciDevCtx u = g_pciDevCtx s" "h_pctx u = h_pctx s" for u
  proof -
    have "find_context (mm_addr m) u \<noteq> None" using c(1,2) that by (auto simp: find_context_def find_None_iff)
    then obtain c' where "find_context (mm_addr m) u = Some c'" by blast
    moreover from this have "c' \<in> set (g_pciDevCtx s)" "dc_addr (h_pctx s ! c') = mm_addr m"
      using that by (auto simp: find_context_def find_Some_iff)
    ultimately show ?thesis using assms(8) that by (auto simp: match_context_def)
  qed
  have blk: "bar_block (mm_addr m) (mm_bar_index m) blk (mm_bar_size m) t"
    using assms(9) by (simp add: bar_block_def t_def pci_dev_def)
  have "MmioRouteWrite p v sz s = Some (Inr s1)"
    using ctx [of t] PciSimWriteBar_block [OF blk acc, of v] assms(3,4) s0(1)
    by (auto simp: MmioRouteWrite_def DeviceBarWrite_def PciWriteBar_def s1_def t_def)
  moreover have t_idle: "all_idle t" using assms(1) by (simp add: t_def all_idle_def)
  then have "alike s s1"
    unfolding s1_def using alike_block alike_trans alike_allocs [OF assms(1)] by (metis t_def)
  then have find: "MmioFindDevice p False s1 = Some (Inr (Some m, s2))"
    using MmioFindDevice_answer(3) [OF assms(3,1), of s1] assms(2)
    by (simp add: s2_def s1_def t_def set_bar_block_def upd_slot_def)
  have "bar_block (mm_addr m) (mm_bar_index m) ?blk (mm_bar_size m) s2"
    using set_bar_block_block [OF blk, of ?blk] by (simp add: s2_def s1_def bar_block_def pci_dev_def)
  note rd = PciSimReadBar_block [OF this acc]
  have "g_pciDevCtx s2 = g_pciDevCtx s" "h_pctx s2 = h_pctx s"
    by (simp_all add: s2_def s1_def t_def set_bar_block_def upd_slot_def)
  then have "MmioRouteRead p sz s1 = Some (Inr (take_bit (nat (8 * sz)) v, s2))"
    using ctx [of s2] rd find assms(4) acc(1)
    by (auto simp: MmioRouteRead_def DeviceBarRead_def PciReadBar_def le_read_write nat_mult_distrib)
  ultimately show ?thesis by blast
qed

end
