(* ===== verification/PCI_Props.thy ===== *)
theory PCI_Props
  imports PCI_Access PCI_Enum MMIO_Facts
begin

text \<open>
  The properties of the PCI kernel \<^verbatim>\<open>B_Kernel\<close>: the sizing protocol, configuration access, BAR
  memory, address checks, enumeration and the routing of memory accesses. They are instantiated at
  the devices that \<open>PciDevicePool\<close> builds.
\<close>

section \<open>The device pool\<close>

definition no_devices :: bkernel where
  "no_devices = initial_bkernel (\<lambda>_. True)"

definition pool :: bkernel where
  "pool = the_res no_devices (PciDevicePool no_devices)"

definition slot_check :: "PCI_ADDR \<Rightarrow> (PCI_DEVICE \<Rightarrow> bool) \<Rightarrow> bkernel \<Rightarrow> bool" where
  "slot_check a P s \<longleftrightarrow> pci_in_range a \<and> (case pci_dev a s of None \<Rightarrow> False | Some d \<Rightarrow> dev_wf d \<and> idle d \<and> P d)"

lemma slot_checkE:
  assumes "slot_check a P s"
  obtains d where "idle_slot a s d" "P d"
  using assms by (auto simp: slot_check_def idle_slot_def split: option.splits)

text \<open>The network card has a 64-bit BAR of 16 KB, the disk a 32-bit BAR of 8 KB, both still at address 0.\<close>

lemma net_facts:
  "slot_check (0, 1, 0) (\<lambda>d. cfg32 d (bar_offset 0) = 4 \<and> cfg32 d (bar_offset 1) = 0
     \<and> pd_bar_size d = 0x4000 # replicate 5 0) pool"
  by code_simp

lemma disk_facts:
  "slot_check (0, 0, 0) (\<lambda>d. cfg32 d (bar_offset 0) = 0 \<and> cfg32 d (bar_offset 1) = 0
     \<and> pd_bar_size d = 0x2000 # replicate 5 0) pool"
  by code_simp

definition disk :: PCI_DEVICE where
  "disk = (case pci_dev (0, 0, 0) pool of Some d \<Rightarrow> d)"

interpretation disk: idle_slot "(0, 0, 0)" pool disk
proof -
  obtain d where "idle_slot (0, 0, 0) pool d" by (rule slot_checkE [OF disk_facts])
  moreover from this have "disk = d" by (simp add: disk_def idle_slot_def)
  ultimately show "idle_slot (0, 0, 0) pool disk" by simp
qed

lemma pool_wf: "bus_wf pool" by code_simp

text \<open>The pool with a second bridge, on bus 1, that names bus 0.\<close>

definition bridge_loop :: bkernel where
  "bridge_loop = install (1, 1, 0) (map_option (set_cfg32 0x18 0) (pci_dev (0, 2, 0) pool)) pool"

lemma pool_scan: "quiet pool" "\<not> leads pool 1"
proof -
  show "quiet pool" by code_simp
  have "list_all (\<lambda>(a, d). fst a = 1 \<longrightarrow> bus_behind a d = None) (g_pci_bus pool)" by code_simp
  then show "\<not> leads pool 1" by (rule not_leadsI)
qed

lemma bridge_loop_scan: "quiet bridge_loop" "leads bridge_loop 0" "leads bridge_loop 1"
proof -
  show "quiet bridge_loop" by code_simp
  have "leads_at bridge_loop 0 2 0" "leads_at bridge_loop 1 1 0" by code_simp+
  then show "leads bridge_loop 0" "leads bridge_loop 1" by (simp_all add: leadsI)
qed

text \<open>The disk known to the operating system, its memory space enabled.\<close>

definition disk_up :: bkernel where
  "disk_up = the_res no_devices (bnd (OS_HandleNewPciDevice (0, 0, 0) (OS_InitPciCallbacks pool)) (\<lambda>s.
     bnd (PciConfigWrite32 (0, 0, 0) 0x04 0x2 s) (\<lambda>(_, s). Inr s)))"

definition disk_match :: MMIO_MATCH where
  "disk_match = \<lparr>mm_addr = (0, 0, 0), mm_bar_index = 0, mm_bar_base = 0xf0000000, mm_bar_size = 0x2000,
     mm_offset = 0x1004, mm_is_io_space = False, mm_is_64bit = False\<rparr>"

definition routes_to_disk :: "bkernel \<Rightarrow> bool" where
  "routes_to_disk s \<longleftrightarrow> all_idle s \<and> p_alloc_ok s (p_allocs s + 1)
     \<and> list_all (\<lambda>c. dc_ops (h_pctx s ! c)) (g_pciDevCtx s)
     \<and> (case MmioFindDevice 0xf0001004 False s of Some (Inr (Some m, s')) \<Rightarrow> m = disk_match | _ \<Rightarrow> False)
     \<and> (case pci_dev (0, 0, 0) s of None \<Rightarrow> False | Some d \<Rightarrow> length (pd_bar_mem d) = 6 \<and> pd_bar_size d ! 0 = 0x2000
          \<and> (case pd_bar_mem d ! 0 of BarBlock m \<Rightarrow> True | _ \<Rightarrow> False))"

lemma disk_up_routes: "routes_to_disk disk_up"
  by code_simp

lemma disk_up_facts: "all_idle disk_up" "p_alloc_ok disk_up (p_allocs disk_up + 1)"
  "\<forall>c \<in> set (g_pciDevCtx disk_up). dc_ops (h_pctx disk_up ! c)"
  using disk_up_routes by (simp_all add: routes_to_disk_def list_all_iff)

lemma disk_up_find: "\<exists>s. MmioFindDevice 0xf0001004 False disk_up = Some (Inr (Some disk_match, s))"
  using disk_up_routes by (auto simp: routes_to_disk_def split: option.splits sum.splits)

lemma disk_up_block: "\<exists>m. bar_block (0, 0, 0) 0 m 0x2000 disk_up"
  using disk_up_routes by (auto simp: routes_to_disk_def bar_block_def split: option.splits BAR_MEM.splits)

text \<open>A card whose only BAR, of 4 KB, is BAR 1.\<close>

definition odd_bar :: bkernel where
  "odd_bar = the_res no_devices (bnd (CreateFakeDevice ''card'' 0 0x00 0x02 0x00 0
     ((replicate 6 no_bar)[1 := \<lparr>bc_size = 0x1000, bc_is_io = False, bc_is_64 = False\<rparr>]) no_devices)
     (\<lambda>(d, s). Inr (install (0, 0, 0) d s)))"

lemma odd_bar_facts:
  "slot_check (0, 0, 0) (\<lambda>d. cfg32 d (bar_offset 0) = 0 \<and> cfg32 d (bar_offset 1) = 0 \<and> pd_bar_size d ! 1 = 0x1000) odd_bar"
  by code_simp

text \<open>The disk with its memory space enabled, before any address is assigned.\<close>

definition disk_on :: bkernel where
  "disk_on = the_res no_devices (bnd (PciConfigWrite32 (0, 0, 0) 0x04 0x2 pool) (\<lambda>(_, s). Inr s))"

lemma disk_on_facts:
  "slot_check (0, 0, 0) (\<lambda>d. cfg32 d (bar_offset 0) = 0 \<and> pd_bar_size d = 0x2000 # replicate 5 0
     \<and> cfg16 d 0x04 AND 0x0002 \<noteq> 0) disk_on"
  by code_simp

section \<open>Properties\<close>

text \<open>
  C11: \<open>GetPciBarInfo\<close> finds out the kind, address and size of every BAR of a device that starts at
  an even register: whatever power of two the BAR memory has as its size, from 16 bytes on, the
  sizing protocol answers exactly that size, and leaves every device as it was. The register must
  be aligned to the size and must not be all ones, and the high half of a 64-bit BAR must be even.
\<close>

theorem GetPciBarInfo_sizes:
  assumes "pci_in_range a" "pci_dev a s = Some d" "dev_wf d" "idle d"
    and "b < 6" "even b" "low = cfg32 d (bar_offset b)" "high = cfg32 d (bar_offset (b + 1))"
    and "pd_bar_size d ! b = 2 ^ k" "4 \<le> k" "bar_aligned (2 ^ k) low" "low \<noteq> 0xffffffff"
    and "wide \<longleftrightarrow> low AND 1 = 0 \<and> bar_type low = 2"
    and "if wide then k < 64 \<and> high AND 1 = 0 else k < 32"
  shows "\<exists>s'. GetPciBarInfo a (word_of_nat b) s
      = Inr (\<lparr>bi_base_address = bar_address low high, bi_size = 2 ^ k,
              bi_is_io = (low AND 1 \<noteq> 0), bi_is_64bit = wide\<rparr>, s')
    \<and> g_pci_bus s' = g_pci_bus s"
  by (rule idle_slot_sizing [OF idle_slot.intro [OF assms(1-4)] assms(5-14)])

theorem GetPciBarInfo_sizes_witness:
  "\<exists>s'. GetPciBarInfo (0, 1, 0) 0 pool
    = Inr (\<lparr>bi_base_address = 0, bi_size = 0x4000, bi_is_io = False, bi_is_64bit = True\<rparr>, s')"
proof -
  obtain d where d: "idle_slot (0, 1, 0) pool d" "cfg32 d (bar_offset 0) = 4" "cfg32 d (bar_offset 1) = 0"
      "pd_bar_size d = 0x4000 # replicate 5 0"
    using net_facts by (elim slot_checkE) blast
  have "\<exists>s'. GetPciBarInfo (0, 1, 0) (word_of_nat 0) pool
      = Inr (\<lparr>bi_base_address = bar_address 4 0, bi_size = 2 ^ 14, bi_is_io = (4 AND 1 \<noteq> (0 :: 32 word)),
              bi_is_64bit = True\<rparr>, s') \<and> g_pci_bus s' = g_pci_bus pool"
    by (rule GetPciBarInfo_sizes [of _ _ d])
      (use d in \<open>auto simp: idle_slot_def bar_aligned_def bar_type_def\<close>)
  then show ?thesis by (auto simp: bar_address_def bar_type_def)
qed

text \<open>
  A 32-bit BAR at an odd register is never sized: whatever memory it has, the read that should
  answer the mask takes the register for the high half of a 64-bit BAR and answers the register
  itself. For a BAR not assigned yet, \<open>GetPciBarInfo\<close> reports that there is none.
\<close>

theorem odd_bar_not_sized:
  assumes "pci_in_range a" "pci_dev a s = Some d" "dev_wf d" "idle d"
    and "b < 6" "odd b" "bar_type (cfg32 d (bar_offset (b - 1))) \<noteq> 2" "cfg32 d (bar_offset b) = 0"
  shows "GetPciBarInfo a (word_of_nat b) s = Inr (zero_bar_info, s)"
proof -
  note slot = idle_slot.intro [OF assms(1-4)]
  obtain s1 where s1: "PciConfigWrite32 a (bar_reg b) 0xffffffff s = Inr (0, s1)"
      "PciConfigRead32 a (bar_reg b) s1 = Inr (0, s1)"
      "\<forall>v. v \<noteq> 0xffffffff \<longrightarrow> PciConfigWrite32 a (bar_reg b) v s1 = Inr (0, upd_slot a (set_cfg32 (bar_offset b) v) s)"
    using idle_slot.probe_odd [OF slot assms(5-7)] assms(8) by auto
  have "upd_slot a (set_cfg32 (bar_offset b) 0) s = s"
    using assms(5,8) set_cfg32_cfg32 [OF assms(3), of "bar_offset b"]
    by (intro upd_slot_id [OF assms(2)]) (simp add: bar_offset_def CONFIG_SIZE_def)
  then have "PciConfigWrite32 a (bar_reg b) 0 s1 = Inr (0, s)" using s1(3) by simp
  then show ?thesis
    using s1(1,2) assms(5,8) idle_slot.read_register [OF slot assms(5)]
    by (simp add: GetPciBarInfo_def bar_reg_word size_probe_def bar_type_def mem_bar_info_def check_size_def
        zero_bar_info_def)
qed

theorem odd_bar_not_sized_witness:
  "\<exists>d. pci_dev (0, 0, 0) odd_bar = Some d \<and> pd_bar_size d ! 1 = 0x1000
    \<and> GetPciBarInfo (0, 0, 0) 1 odd_bar = Inr (zero_bar_info, odd_bar)"
proof -
  obtain d where d: "idle_slot (0, 0, 0) odd_bar d" "cfg32 d (bar_offset 0) = 0" "cfg32 d (bar_offset 1) = 0"
      "pd_bar_size d ! 1 = 0x1000"
    using odd_bar_facts by (elim slot_checkE) blast
  have "GetPciBarInfo (0, 0, 0) (word_of_nat 1) odd_bar = Inr (zero_bar_info, odd_bar)"
    by (rule odd_bar_not_sized [of _ _ d]) (use d in \<open>auto simp: idle_slot_def bar_type_def\<close>)
  then show ?thesis using d by (simp add: idle_slot_def)
qed

text \<open>
  C20: Configuration access is defined and keeps the devices well formed: on a bus of well-formed
  devices, a read and a write of any value at any register inside the configuration space of any
  slot, empty or not, return, and leave a bus of well-formed devices.
\<close>

theorem config_access_typed:
  assumes "bus_wf s" "pci_in_range a" "unat off + 4 \<le> CONFIG_SIZE"
  shows "(\<exists>v s'. PciConfigRead32 a off s = Inr (v, s') \<and> bus_wf s')
    \<and> (\<exists>r s'. PciConfigWrite32 a off w s = Inr (r, s') \<and> bus_wf s')"
  using PciConfigRead32_wf [OF assms] PciConfigWrite32_wf [OF assms] by blast

theorem config_access_typed_witness:
  "\<exists>r s'. PciConfigWrite32 (1, 0, 0) 0x10 0xffffffff pool = Inr (r, s') \<and> bus_wf s'"
  using config_access_typed [OF pool_wf, of "(1, 0, 0)" "0x10" "0xffffffff"] by (simp add: CONFIG_SIZE_def)

text \<open>
  C19: A write to the command register changes only the bits the device supports; every other byte
  of the configuration space, the status register among them, and all BAR memory stay as they are.
\<close>

theorem command_write_masked:
  assumes "pci_in_range a" "pci_dev a s = Some d" "dev_wf d" "m = PciSimGetDeviceCommandMask d AND 0x07ff"
  shows "\<exists>s' d'. PciConfigWrite32 a 0x04 v s = Inr (v, s') \<and> pci_dev a s' = Some d'
    \<and> cfg16 d' 0x04 = (cfg16 d 0x04 AND NOT m) OR (ucast v AND m)
    \<and> (\<forall>i. i \<notin> {0x04, 0x05} \<longrightarrow> pd_config d' ! i = pd_config d ! i)
    \<and> pd_bar_size d' = pd_bar_size d \<and> pd_bar_mem d' = pd_bar_mem d
    \<and> (\<forall>b. b \<noteq> a \<longrightarrow> pci_dev b s' = pci_dev b s)"
  using write_command_config [OF assms(3,4), where v = v] assms(1,2)
  by (simp add: PciConfigWrite32_def pci_slot_def)

theorem command_write_masked_witness:
  "\<exists>s' d'. PciConfigWrite32 (0, 0, 0) 0x04 0xffff pool = Inr (0xffff, s') \<and> pci_dev (0, 0, 0) s' = Some d'
    \<and> cfg16 d' 0x04 = (cfg16 disk 0x04 AND NOT (PciSimGetDeviceCommandMask disk AND 0x07ff))
        OR (0xffff AND (PciSimGetDeviceCommandMask disk AND 0x07ff))"
  using command_write_masked [OF disk.in_range disk.dev disk.wf refl, of "0xffff"] by auto

text \<open>
  BAR memory holds what was written: after a write of 1, 2, 4 or 8 bytes inside the block, a
  read of the same bytes gives the value cut to that width, and a read of other bytes gives what it
  gave before.
\<close>

theorem bar_memory_roundtrip:
  assumes "bar_block a i m n s" "sz \<in> {1, 2, 4, 8}" "unat off + nat sz \<le> unat n"
  shows "\<exists>s'. PciSimWriteBar a (int i) off v sz s = Inr s'
    \<and> PciSimReadBar a (int i) off sz s' = Inr (take_bit (nat (8 * sz)) v)
    \<and> (\<forall>off2 sz2. sz2 \<in> {1, 2, 4, 8} \<longrightarrow> unat off2 + nat sz2 \<le> unat n \<longrightarrow>
         unat off2 + nat sz2 \<le> unat off \<or> unat off + nat sz \<le> unat off2 \<longrightarrow>
         PciSimReadBar a (int i) off2 sz2 s' = PciSimReadBar a (int i) off2 sz2 s)"
proof -
  note blk = set_bar_block_block [OF assms(1), of "le_write (nat sz) v (unat off) m"]
  let ?s = "set_bar_block a (int i) (le_write (nat sz) v (unat off) m) s"
  have "nat (8 * sz) = 8 * nat sz" by (simp add: nat_mult_distrib)
  then have "PciSimReadBar a (int i) off sz ?s = Inr (take_bit (nat (8 * sz)) v)"
    using PciSimReadBar_block [OF blk assms(2,3)] by (simp add: le_read_write)
  moreover have "PciSimReadBar a (int i) off2 sz2 ?s = PciSimReadBar a (int i) off2 sz2 s"
    if "sz2 \<in> {1, 2, 4, 8}" "unat off2 + nat sz2 \<le> unat n"
      "unat off2 + nat sz2 \<le> unat off \<or> unat off + nat sz \<le> unat off2" for off2 sz2
    using PciSimReadBar_block [OF blk that(1,2)] PciSimReadBar_block [OF assms(1) that(1,2)] le_read_other [OF that(3)]
    by simp
  ultimately show ?thesis using PciSimWriteBar_block [OF assms] by blast
qed

theorem bar_memory_roundtrip_witness:
  "\<exists>s'. PciSimWriteBar (0, 0, 0) 0 0x1004 0x12345678 4 disk_up = Inr s'
    \<and> PciSimReadBar (0, 0, 0) 0 0x1004 4 s' = Inr 0x12345678"
proof -
  obtain m where "bar_block (0, 0, 0) 0 m 0x2000 disk_up" using disk_up_block by blast
  from bar_memory_roundtrip [OF this, of 4 "0x1004" "0x12345678"] show ?thesis by auto
qed

text \<open>
  C13: After \<open>PciSetBarAddress\<close> has given the only BAR of a device, a 32-bit memory BAR of even index
  whose size is a power of two, an aligned address that is not zero, \<open>PciValidateAccess\<close> accepts
  exactly the addresses from there to the end of the BAR, provided the memory space is enabled.
\<close>

theorem assigned_bar_is_decoded:
  assumes "pci_in_range a" "pci_dev a s = Some d" "dev_wf d" "idle d"
    and "b < 6" "even b" "pd_bar_size d ! b = 2 ^ k" "4 \<le> k" "k < 32"
    and "low = cfg32 d (bar_offset b)" "low AND 1 = 0" "bar_type low \<noteq> 2"
    and "\<forall>j < 6. j \<noteq> b \<longrightarrow> pd_bar_size d ! j = 0" "cfg16 d 0x04 AND 0x0002 \<noteq> 0"
    and "(x :: 32 word) AND mask k = 0" "x \<noteq> 0"
  shows "\<exists>s'. PciSetBarAddress a (int b) (ucast x) s = Inr s'
    \<and> (\<forall>addr. PciValidateAccess a addr False s' = Inr (ucast x \<le> addr \<and> addr < ucast x + 2 ^ k))"
proof -
  note slot = idle_slot.intro [OF assms(1-4)]
  have "cfg16 (set_cfg32 (bar_offset b) v d) 0x04 = cfg16 d 0x04" for v
    using cfg16_set_other [OF assms(3), of "bar_offset b" "0x04"] assms(5) by (simp add: bar_offset_def CONFIG_SIZE_def)
  then show ?thesis
    using idle_slot.set_address [OF slot assms(5-12,15)] idle_slot.validate_assigned [OF slot assms(5-12,15,16,13)]
      assms(1,2,14) by (simp add: PciValidateAccess_def pci_slot_def)
qed

theorem assigned_bar_is_decoded_witness:
  "\<exists>s'. PciSetBarAddress (0, 0, 0) 0 0xe0000000 disk_on = Inr s'
    \<and> (\<forall>addr. PciValidateAccess (0, 0, 0) addr False s' = Inr (0xe0000000 \<le> addr \<and> addr < 0xe0002000))"
proof -
  obtain d where d: "idle_slot (0, 0, 0) disk_on d" "cfg32 d (bar_offset 0) = 0"
      "pd_bar_size d = 0x2000 # replicate 5 0" "cfg16 d 0x04 AND 0x0002 \<noteq> 0"
    using disk_on_facts by (elim slot_checkE) blast
  have others: "\<forall>j < 6. j \<noteq> 0 \<longrightarrow> pd_bar_size d ! j = 0"
    using d(3) by (auto simp: less_Suc_eq numeral_eq_Suc)
  have "\<exists>s'. PciSetBarAddress (0, 0, 0) (int 0) (ucast (0xe0000000 :: 32 word)) disk_on = Inr s'
    \<and> (\<forall>addr. PciValidateAccess (0, 0, 0) addr False s'
         = Inr (ucast (0xe0000000 :: 32 word) \<le> addr \<and> addr < ucast (0xe0000000 :: 32 word) + 2 ^ 13))"
    by (rule assigned_bar_is_decoded [of _ _ d 0 13 0])
      (use d others in \<open>simp_all add: idle_slot_def bar_type_def mask_numeral\<close>)
  then show ?thesis by simp
qed

text \<open>
  C14: When no device callback is registered and no BAR is being sized, the enumeration returns,
  and changes nothing, unless a function that the scan sees on bus 0 is a bridge to bus 1 and one on
  bus 1 is a bridge to bus 0; then it never returns.
\<close>

theorem PciEnumerate_returns_iff:
  assumes "quiet s"
  shows "PciEnumerate s = (if leads s 0 \<and> leads s 1 then None else Some (Inr s))"
  by (rule enumerate_eq [OF assms])

theorem PciEnumerate_returns_iff_witness:
  "PciEnumerate pool = Some (Inr pool) \<and> PciEnumerate bridge_loop = None"
  using PciEnumerate_returns_iff [OF pool_scan(1)] PciEnumerate_returns_iff [OF bridge_loop_scan(1)]
    pool_scan(2) bridge_loop_scan(2,3) by simp

text \<open>
  C12: When the search of the router finds a BAR at an address, the access is validated and the BAR
  has its memory, a routed write succeeds and the next routed read of the same address and width
  gives the value written, cut to the width. No BAR is being sized, every known device has its
  operations set, the size of the BAR is a power of two below \<open>2^64\<close> and its base aligned to it; the
  allocation the write makes succeeds, since the search returned, and the one the read makes is
  required to succeed too.
\<close>

theorem routed_write_then_read:
  assumes "all_idle s" "p_alloc_ok s (p_allocs s + 1)"
    and "MmioFindDevice p False s = Some (Inr (Some m, s0))" "ValidateAccess (Some m) p sz = MMIO_VALID"
    and "mm_bar_size m = 2 ^ k" "k < 64" "mm_bar_base m AND mask k = 0"
    and "\<forall>c \<in> set (g_pciDevCtx s). dc_ops (h_pctx s ! c)"
    and "bar_block (mm_addr m) (mm_bar_index m) blk (mm_bar_size m) s"
  shows "\<exists>s1 s2. MmioRouteWrite p v sz s = Some (Inr s1)
    \<and> MmioRouteRead p sz s1 = Some (Inr (take_bit (nat (8 * sz)) v, s2))"
  by (rule route_write_read [OF assms])

theorem routed_write_then_read_witness:
  "\<exists>s1 s2. MmioRouteWrite 0xf0001004 0x12345678 4 disk_up = Some (Inr s1)
    \<and> MmioRouteRead 0xf0001004 4 s1 = Some (Inr (0x12345678, s2))"
proof -
  obtain s where find: "MmioFindDevice 0xf0001004 False disk_up = Some (Inr (Some disk_match, s))"
    using disk_up_find by blast
  obtain m where blk: "bar_block (mm_addr disk_match) (mm_bar_index disk_match) m (mm_bar_size disk_match) disk_up"
    using disk_up_block by (auto simp: disk_match_def)
  have "ValidateAccess (Some disk_match) 0xf0001004 4 = MMIO_VALID" by code_simp
  moreover have "mm_bar_base disk_match AND mask 13 = 0" by (simp add: disk_match_def mask_numeral)
  moreover have "take_bit 32 (0x12345678 :: 64 word) = 0x12345678" by simp
  ultimately show ?thesis
    using routed_write_then_read [OF _ _ find _ _ _ _ _ blk, of 4 13 "0x12345678"] disk_up_facts
    by (auto simp: disk_match_def)
qed

text \<open>
  C21: While no BAR is being sized, what the router finds is a BAR of a known device that claims the
  address: neither its size nor its base is zero, it is of the kind of space asked for, and the
  address and the base agree above the bits of the size. The offset is the rest of the address; when
  the size is a power of two below \<open>2^64\<close> and the base is aligned to it, the offset is inside the BAR
  and leads to the address asked for.
\<close>

theorem MmioFindDevice_sound:
  assumes "all_idle s" "MmioFindDevice p io s = Some (Inr (Some m, s'))"
  shows "\<exists>c \<in> set (g_pciDevCtx s). dc_addr (h_pctx s ! c) = mm_addr m \<and> mm_bar_index m < 6
    \<and> bi_base_address (dc_bar_info (h_pctx s ! c) ! mm_bar_index m) = mm_bar_base m
    \<and> bi_size (dc_bar_info (h_pctx s ! c) ! mm_bar_index m) = mm_bar_size m
    \<and> bi_is_io (dc_bar_info (h_pctx s ! c) ! mm_bar_index m) = io
    \<and> mm_bar_size m \<noteq> 0 \<and> mm_bar_base m \<noteq> 0
    \<and> p AND NOT (mm_bar_size m - 1) = mm_bar_base m AND NOT (mm_bar_size m - 1)
    \<and> mm_offset m = p AND (mm_bar_size m - 1)
    \<and> (\<forall>k < 64. mm_bar_size m = 2 ^ k \<and> mm_bar_base m AND mask k = 0 \<longrightarrow>
         mm_offset m < mm_bar_size m \<and> mm_bar_base m + mm_offset m = p)"
proof -
  note ans = MmioFindDevice_answer(2) [OF assms(2,1) alike_refl [OF assms(1)]]
  obtain c info where c: "c \<in> set (g_pciDevCtx s)" "dc_addr (h_pctx s ! c) = mm_addr m" "mm_bar_index m < 6"
      "info = dc_bar_info (h_pctx s ! c) ! mm_bar_index m" "bar_claims info p io"
      "bi_base_address info = mm_bar_base m" "bi_size info = mm_bar_size m" "mm_offset m = p AND (bi_size info - 1)"
    using claimed_match [OF ans] by blast
  have "bi_is_io info = io" "mm_bar_size m \<noteq> 0" "mm_bar_base m \<noteq> 0"
    "p AND NOT (mm_bar_size m - 1) = mm_bar_base m AND NOT (mm_bar_size m - 1)"
    using c(5-7) by (simp_all add: bar_claims_def)
  with c claim_offset [OF c(5)] show ?thesis by (intro bexI [OF _ c(1)]) auto
qed

theorem MmioFindDevice_sound_witness:
  "\<exists>c \<in> set (g_pciDevCtx disk_up). dc_addr (h_pctx disk_up ! c) = (0, 0, 0)
    \<and> bi_base_address (dc_bar_info (h_pctx disk_up ! c) ! 0) = 0xf0000000"
proof -
  obtain s where "MmioFindDevice 0xf0001004 False disk_up = Some (Inr (Some disk_match, s))"
    using disk_up_find by blast
  with MmioFindDevice_sound [of disk_up] disk_up_facts show ?thesis by (fastforce simp: disk_match_def)
qed

end
