(* ===== verification/PF_Model.thy ===== *)
theory PF_Model
  imports PCI_State
begin

text \<open>
  The first PCI experiment, \<^verbatim>\<open>firmwareLearning/PCI_foundation.c\<close>: devices with a configuration
  structure, BARs that are sized by writing ones and reading back, an I/O space of 64 KiB, and the
  registers of a device behind its first BAR. \<^verbatim>\<open>malloc\<close> does not clear: a byte of a mapped block and
  an entry of \<^verbatim>\<open>bar_probe\<close> are \<open>None\<close> until they are written.
\<close>

section \<open>State\<close>

definition MAX_DEVICES_pf :: nat where "MAX_DEVICES_pf = 32"
definition IO_SPACE_SIZE :: "32 word" where "IO_SPACE_SIZE = 65536"
definition REG_STATUS :: "32 word" where "REG_STATUS = 0x0"
definition REG_CONTROL :: "32 word" where "REG_CONTROL = 0x4"
definition REG_DATA :: "32 word" where "REG_DATA = 0x8"
definition PCI_BAR_IO :: "32 word" where "PCI_BAR_IO = 0x1"
definition PCI_BAR_MEM_TYPE_64 :: "32 word" where "PCI_BAR_MEM_TYPE_64 = 0x4"
definition PCI_BAR_MEM_MASK :: "32 word" where "PCI_BAR_MEM_MASK = NOT 0xf"
definition PCI_BAR_IO_MASK :: "32 word" where "PCI_BAR_IO_MASK = NOT 0x3"

lemmas pf_consts = MAX_DEVICES_pf_def IO_SPACE_SIZE_def REG_STATUS_def REG_CONTROL_def REG_DATA_def
  PCI_BAR_IO_def PCI_BAR_MEM_TYPE_64_def PCI_BAR_MEM_MASK_def PCI_BAR_IO_MASK_def

record PF_CONFIG =
  fc_vendor_id :: "16 word"
  fc_device_id :: "16 word"
  fc_command :: "16 word"
  fc_status :: "16 word"
  fc_revision_id :: "8 word"
  fc_prog_if :: "8 word"
  fc_subclass :: "8 word"
  fc_class_code :: "8 word"
  fc_cache_line_size :: "8 word"
  fc_latency_timer :: "8 word"
  fc_header_type :: "8 word"
  fc_bist :: "8 word"
  fc_bar :: "64 word list"
  fc_subsystem_vendor_id :: "16 word"
  fc_subsystem_id :: "16 word"

type_synonym block = "nat \<times> (nat \<rightharpoonup> 8 word)"

text \<open>A block is its length and its bytes; it is pointed to by one entry of \<^verbatim>\<open>device_memory\<close> only.\<close>

record FAKE_PCI_DEVICE =
  fd_config :: PF_CONFIG
  fd_bar_size :: "32 word list"
  fd_memory :: "block option list"
  fd_probe :: "int option list"

text \<open>
  \<open>f_devices\<close> is the used prefix of \<^verbatim>\<open>g_pci_devices\<close>, so its length is \<^verbatim>\<open>g_device_count\<close>; an entry may be
  null. \<open>f_statuses\<close> records what \<^verbatim>\<open>TestDevice\<close> prints.
\<close>

record pci_found =
  f_devices :: "FAKE_PCI_DEVICE option list"
  f_io_space :: "32 word \<Rightarrow> 8 word"
  f_io_base :: "32 word"
  f_phys_base :: "32 word"
  f_alloc_ok :: "nat \<Rightarrow> bool"
  f_allocs :: nat
  f_statuses :: "32 word list"

definition initial_found :: "(nat \<Rightarrow> bool) \<Rightarrow> pci_found" where
  "initial_found ok = \<lparr>f_devices = [], f_io_space = (\<lambda>_. 0), f_io_base = 0x1000, f_phys_base = 0x10000000,
     f_alloc_ok = ok, f_allocs = 0, f_statuses = []\<rparr>"

definition f_alloc :: "pci_found \<Rightarrow> bool \<times> pci_found" where
  "f_alloc s = (f_alloc_ok s (f_allocs s), s\<lparr>f_allocs := f_allocs s + 1\<rparr>)"

section \<open>Allocation and devices\<close>

definition AllocateIoPort :: "32 word \<Rightarrow> pci_found \<Rightarrow> (32 word \<times> pci_found) res" where
  "AllocateIoPort sz s =
     (let port = f_io_base s; s = s\<lparr>f_io_base := port + sz\<rparr>
      in if f_io_base s < IO_SPACE_SIZE then Inr (port, s) else Inl (Bugcheck ''IO space exhausted''))"

definition AllocatePhysical :: "32 word \<Rightarrow> pci_found \<Rightarrow> 32 word \<times> pci_found" where
  "AllocatePhysical sz s = (f_phys_base s, s\<lparr>f_phys_base := f_phys_base s + sz\<rparr>)"

definition MapToVirtual :: "32 word \<Rightarrow> pci_found \<Rightarrow> block option \<times> pci_found" where
  "MapToVirtual sz s =
     (let (ok, s) = f_alloc s in (if ok then Some (unat sz, \<lambda>_. None) else None, s))"

definition CreatePciConfigSpace :: "16 word \<Rightarrow> 8 word \<Rightarrow> 8 word \<Rightarrow> pci_found \<Rightarrow> PF_CONFIG option \<times> pci_found" where
  "CreatePciConfigSpace v_id cc sc s =
     (let (ok, s) = f_alloc s
      in if \<not> ok then (None, s)
         else (Some \<lparr>fc_vendor_id = v_id, fc_device_id = v_id * 13, fc_command = 0, fc_status = 0x0010,
           fc_revision_id = 1, fc_prog_if = 0, fc_subclass = sc, fc_class_code = cc, fc_cache_line_size = 16,
           fc_latency_timer = 0, fc_header_type = 0, fc_bist = 0, fc_bar = replicate 6 0,
           fc_subsystem_vendor_id = v_id, fc_subsystem_id = 1\<rparr>, s))"

definition InitFakePCIDevice :: "16 word \<Rightarrow> 8 word \<Rightarrow> 8 word \<Rightarrow> pci_found \<Rightarrow> FAKE_PCI_DEVICE option \<times> pci_found" where
  "InitFakePCIDevice v_id cc sc s =
     (let (ok, s) = f_alloc s
      in if \<not> ok then (None, s)
         else case CreatePciConfigSpace v_id cc sc s of
           (None, s) \<Rightarrow> (None, s)
         | (Some c, s) \<Rightarrow> (Some \<lparr>fd_config = c, fd_bar_size = (replicate 6 0)[0 := 256],
             fd_memory = replicate 6 None, fd_probe = replicate 6 None\<rparr>, s))"

section \<open>I/O space and BAR memory\<close>

text \<open>
  The sum \<^verbatim>\<open>addr + 4\<close> is computed on 32 bits; an address it lets pass may be outside the array. The
  array is indexed by the address, and an access takes four entries.
\<close>

definition io_index :: "32 word \<Rightarrow> string \<Rightarrow> 32 word res" where
  "io_index addr msg =
     (if \<not> addr + 4 \<le> IO_SPACE_SIZE then Inl (Bugcheck msg)
      else if addr \<le> IO_SPACE_SIZE - 4 then Inr addr
      else Inl (Undefined ''array index''))"

definition io_get32 :: "(32 word \<Rightarrow> 8 word) \<Rightarrow> 32 word \<Rightarrow> 32 word" where
  "io_get32 m a = le_read 4 (\<lambda>i. m (a + word_of_nat i)) 0"

definition io_set32 :: "32 word \<Rightarrow> 32 word \<Rightarrow> (32 word \<Rightarrow> 8 word) \<Rightarrow> (32 word \<Rightarrow> 8 word)" where
  "io_set32 v a m = (\<lambda>x. if a \<le> x \<and> x < a + 4 then ucast (drop_bit (8 * unat (x - a)) v) else m x)"

definition IoRead :: "32 word \<Rightarrow> 32 word \<Rightarrow> pci_found \<Rightarrow> 32 word res" where
  "IoRead port off s = bnd (io_index (port + off) ''IO read out of range'') (\<lambda>a.
     Inr (io_get32 (f_io_space s) a))"

definition IoWrite :: "32 word \<Rightarrow> 32 word \<Rightarrow> 32 word \<Rightarrow> pci_found \<Rightarrow> pci_found res" where
  "IoWrite port off v s = bnd (io_index (port + off) ''IO write out of range'') (\<lambda>a.
     Inr (s\<lparr>f_io_space := io_set32 v a (f_io_space s)\<rparr>))"

definition block_read32 :: "block \<Rightarrow> nat \<Rightarrow> 32 word res" where
  "block_read32 b a =
     (if \<not> a + 4 \<le> fst b then Inl (Undefined ''outside the block'')
      else if \<exists>i \<in> set [a..<a + 4]. snd b i = None then Inl (Undefined ''uninitialised memory'')
      else Inr (le_read 4 (\<lambda>i. the (snd b i)) a))"

definition block_write32 :: "32 word \<Rightarrow> nat \<Rightarrow> block \<Rightarrow> block res" where
  "block_write32 v a b =
     (if \<not> a + 4 \<le> fst b then Inl (Undefined ''outside the block'')
      else Inr (fst b, foldl (\<lambda>m i. m(a + i \<mapsto> ucast (drop_bit (8 * i) v))) (snd b) [0..<4]))"

definition GetBarMemory :: "FAKE_PCI_DEVICE \<Rightarrow> int \<Rightarrow> block option" where
  "GetBarMemory d i =
     (if i < 0 \<or> i \<ge> 6 then None
      else if \<not> bit (fc_command (fd_config d)) 1 then None
      else if fc_bar (fd_config d) ! nat i = 0 then None
      else fd_memory d ! nat i)"

section \<open>BARs\<close>

definition set_fbar :: "nat \<Rightarrow> 32 word \<Rightarrow> FAKE_PCI_DEVICE \<Rightarrow> FAKE_PCI_DEVICE" where
  "set_fbar i v d = d\<lparr>fd_config := (fd_config d)\<lparr>fc_bar := (fc_bar (fd_config d))[i := ucast v]\<rparr>\<rparr>"

definition set_probe :: "nat \<Rightarrow> int \<Rightarrow> FAKE_PCI_DEVICE \<Rightarrow> FAKE_PCI_DEVICE" where
  "set_probe i v d = d\<lparr>fd_probe := (fd_probe d)[i := Some v]\<rparr>"

definition low_bar :: "FAKE_PCI_DEVICE \<Rightarrow> nat \<Rightarrow> 32 word res" where
  "low_bar d i = bnd (aread (fc_bar (fd_config d)) i) (\<lambda>v. Inr (ucast v))"

definition PciWriteBar_pf :: "nat \<Rightarrow> 32 word \<Rightarrow> FAKE_PCI_DEVICE \<Rightarrow> FAKE_PCI_DEVICE res" where
  "PciWriteBar_pf i v d = bnd (aread (fd_probe d) i) (\<lambda>_.
     if v = 0xffffffff then Inr (set_probe i 1 d) else Inr (set_fbar i v d))"

definition PciReadBar_pf :: "nat \<Rightarrow> FAKE_PCI_DEVICE \<Rightarrow> (32 word \<times> FAKE_PCI_DEVICE) res" where
  "PciReadBar_pf i d = bnd (aread (fd_probe d) i) (\<lambda>p.
     case p of None \<Rightarrow> Inl (Undefined ''uninitialised variable'')
     | Some p \<Rightarrow>
       if p \<noteq> 0
       then bnd (aread (fd_bar_size d) i) (\<lambda>sz. Inr (NOT (sz - 1), set_probe i 0 d))
       else bnd (low_bar d i) (\<lambda>v.
         Inr (if v AND PCI_BAR_IO \<noteq> 0 then v AND PCI_BAR_IO_MASK else v AND PCI_BAR_MEM_MASK, d)))"

definition raw_is_64 :: "32 word \<Rightarrow> bool" where
  "raw_is_64 raw \<longleftrightarrow> raw AND PCI_BAR_IO = 0 \<and> raw AND PCI_BAR_MEM_TYPE_64 \<noteq> 0"

definition ProbeBarSize :: "nat \<Rightarrow> FAKE_PCI_DEVICE \<Rightarrow> (32 word \<times> FAKE_PCI_DEVICE) res" where
  "ProbeBarSize i d =
     bnd (low_bar d i) (\<lambda>raw. let is_64 = raw_is_64 raw in
     bnd (if is_64 then low_bar d (i + 1) else Inr 0) (\<lambda>original_high.
     bnd (PciWriteBar_pf i 0xffffffff d) (\<lambda>d.
     bnd (if is_64 then PciWriteBar_pf (i + 1) 0xffffffff d else Inr d) (\<lambda>d.
     bnd (PciReadBar_pf i d) (\<lambda>(low, d).
     bnd (if is_64 then bnd (PciReadBar_pf (i + 1) d) (\<lambda>(high, d).
            Inr (ucast low OR push_bit 32 (ucast high), d))
          else Inr (ucast low, d)) (\<lambda>(value :: 64 word, d).
     let sz = (if raw AND PCI_BAR_IO \<noteq> 0 then NOT (value AND NOT 0x3) + 1 else NOT (value AND NOT 0xf) + 1)
     in bnd (PciWriteBar_pf i raw d) (\<lambda>d.
        bnd (if is_64 then PciWriteBar_pf (i + 1) original_high d else Inr d) (\<lambda>d.
        Inr (ucast sz, d)))))))))"

definition set_memory :: "nat \<Rightarrow> block option \<Rightarrow> FAKE_PCI_DEVICE \<Rightarrow> FAKE_PCI_DEVICE" where
  "set_memory i b d = d\<lparr>fd_memory := (fd_memory d)[i := b]\<rparr>"

definition InitDeviceRegisters :: "FAKE_PCI_DEVICE \<Rightarrow> pci_found \<Rightarrow> (FAKE_PCI_DEVICE \<times> pci_found) res" where
  "InitDeviceRegisters d s =
     bnd (low_bar d 0) (\<lambda>v.
     if v AND PCI_BAR_IO \<noteq> 0
     then let port = v AND PCI_BAR_IO_MASK in
       bnd (IoWrite port REG_STATUS 0 s) (\<lambda>s. bnd (IoWrite port REG_CONTROL 0 s) (\<lambda>s.
       bnd (IoWrite port REG_DATA 0 s) (\<lambda>s. Inr (d, s))))
     else case fd_memory d ! 0 of None \<Rightarrow> Inl (Bugcheck ''Device memory not mapped!'')
       | Some b \<Rightarrow> bnd (block_write32 0 (unat REG_STATUS) b) (\<lambda>b. bnd (block_write32 0 (unat REG_CONTROL) b) (\<lambda>b.
           bnd (block_write32 0 (unat REG_DATA) b) (\<lambda>b. Inr (set_memory 0 (Some b) d, s)))))"

section \<open>Enumeration\<close>

definition RegisterDevice :: "FAKE_PCI_DEVICE option \<Rightarrow> pci_found \<Rightarrow> pci_found" where
  "RegisterDevice d s = (if length (f_devices s) < MAX_DEVICES_pf then s\<lparr>f_devices := f_devices s @ [d]\<rparr> else s)"

definition DevicePool_pf :: "pci_found \<Rightarrow> pci_found res" where
  "DevicePool_pf s =
     (let (d, s) = InitFakePCIDevice 0x3431 0x09 0x00 s; s = RegisterDevice d s;
          (d, s) = InitFakePCIDevice 0x4231 0x03 0x00 s; s = RegisterDevice d s;
          (d, s) = InitFakePCIDevice 0x1425 0x04 0x01 s; s = RegisterDevice d s;
          (mic, s) = InitFakePCIDevice 0x3371 0x04 0x01 s
      in case mic of None \<Rightarrow> Inl (Undefined ''null pointer'')
         | Some m \<Rightarrow> Inr (RegisterDevice (Some ((set_fbar 0 PCI_BAR_IO m)
             \<lparr>fd_bar_size := (fd_bar_size m)[0 := 128]\<rparr>)) s))"

definition GetBarAddress64 :: "FAKE_PCI_DEVICE \<Rightarrow> nat \<Rightarrow> 64 word res" where
  "GetBarAddress64 d i = bnd (low_bar d i) (\<lambda>low. bnd (low_bar d (i + 1)) (\<lambda>high.
     Inr (push_bit 32 (ucast high) OR ucast (low AND PCI_BAR_MEM_MASK))))"

text \<open>One BAR with a size: sized, given an address and mapped. The answer is whether it is a 64-bit BAR.\<close>

definition assign_bar_pf :: "nat \<Rightarrow> FAKE_PCI_DEVICE \<Rightarrow> pci_found \<Rightarrow> (bool \<times> FAKE_PCI_DEVICE \<times> pci_found) res" where
  "assign_bar_pf i d s =
     bnd (low_bar d i) (\<lambda>raw. bnd (ProbeBarSize i d) (\<lambda>(sz, d).
     if \<not> sz > 0 then Inl (Bugcheck ''Invalid BAR size!'')
     else if raw AND PCI_BAR_IO \<noteq> 0
     then bnd (AllocateIoPort sz s) (\<lambda>(addr, s). bnd (PciWriteBar_pf i (addr OR PCI_BAR_IO) d) (\<lambda>d.
          Inr (False, d, s)))
     else if raw AND PCI_BAR_MEM_TYPE_64 \<noteq> 0
     then let flags = raw AND 0xf; (addr, s) = AllocatePhysical sz s; full = (ucast addr :: 64 word)
       in bnd (PciWriteBar_pf i (ucast (full AND 0xffffffff) OR flags) d) (\<lambda>d.
          bnd (PciWriteBar_pf (i + 1) (ucast (drop_bit 32 full)) d) (\<lambda>d.
          let (virt, s) = MapToVirtual sz s in Inr (True, set_memory i virt d, s)))
     else let flags = raw AND 0xf; (addr, s) = AllocatePhysical sz s
       in bnd (PciWriteBar_pf i (addr OR flags) d) (\<lambda>d.
          let (virt, s) = MapToVirtual sz s in Inr (False, set_memory i virt d, s))))"

function assign_bars_pf :: "nat \<Rightarrow> FAKE_PCI_DEVICE \<Rightarrow> pci_found \<Rightarrow> (FAKE_PCI_DEVICE \<times> pci_found) res" where
  "assign_bars_pf i d s =
     (if i < 6
      then if fd_bar_size d ! i = 0 then assign_bars_pf (i + 1) d s
           else bnd (assign_bar_pf i d s) (\<lambda>(is_64, d, s). assign_bars_pf (if is_64 then i + 2 else i + 1) d s)
      else Inr (d, s))"
  by pat_completeness auto
termination by (relation "measure (\<lambda>(i, d, s). 6 - i)") auto

declare assign_bars_pf.simps [simp del]

definition enum_device :: "FAKE_PCI_DEVICE \<Rightarrow> pci_found \<Rightarrow> (FAKE_PCI_DEVICE \<times> pci_found) res" where
  "enum_device d s =
     (if fc_vendor_id (fd_config d) = 0xffff then Inr (d, s)
      else bnd (assign_bars_pf 0 d s) (\<lambda>(d, s).
           InitDeviceRegisters (d\<lparr>fd_config := (fd_config d)\<lparr>fc_command := fc_command (fd_config d) OR 3\<rparr>\<rparr>) s))"

text \<open>A step on the device that entry \<open>i\<close> of the table points to.\<close>

definition on_device :: "(FAKE_PCI_DEVICE \<Rightarrow> pci_found \<Rightarrow> (FAKE_PCI_DEVICE \<times> pci_found) res) \<Rightarrow> nat \<Rightarrow> pci_found
    \<Rightarrow> pci_found res" where
  "on_device f i s = bnd (aread (f_devices s) i) (\<lambda>p. bnd (deref p) (\<lambda>d. bnd (f d s) (\<lambda>(d, s).
     Inr (s\<lparr>f_devices := (f_devices s)[i := Some d]\<rparr>))))"

fun on_devices :: "(FAKE_PCI_DEVICE \<Rightarrow> pci_found \<Rightarrow> (FAKE_PCI_DEVICE \<times> pci_found) res) \<Rightarrow> nat list \<Rightarrow> pci_found
    \<Rightarrow> pci_found res" where
  "on_devices f [] s = Inr s"
| "on_devices f (i # is) s = bnd (on_device f i s) (on_devices f is)"

definition PciEnumerate_pf :: "pci_found \<Rightarrow> pci_found res" where
  "PciEnumerate_pf s = on_devices enum_device [0..<length (f_devices s)] s"

section \<open>Device registers and the test driver\<close>

definition ReadDeviceReg :: "FAKE_PCI_DEVICE \<Rightarrow> nat \<Rightarrow> 32 word \<Rightarrow> pci_found \<Rightarrow> 32 word res" where
  "ReadDeviceReg d i off s = bnd (low_bar d i) (\<lambda>v.
     if v AND PCI_BAR_IO \<noteq> 0 then IoRead (v AND PCI_BAR_IO_MASK) off s
     else case GetBarMemory d (int i) of None \<Rightarrow> Inr 0 | Some b \<Rightarrow> block_read32 b (unat off))"

definition WriteDeviceReg :: "nat \<Rightarrow> 32 word \<Rightarrow> 32 word \<Rightarrow> FAKE_PCI_DEVICE \<Rightarrow> pci_found
    \<Rightarrow> (FAKE_PCI_DEVICE \<times> pci_found) res" where
  "WriteDeviceReg i off value d s = bnd (low_bar d i) (\<lambda>v.
     if v AND PCI_BAR_IO \<noteq> 0
     then let port = v AND PCI_BAR_IO_MASK in
       bnd (IoWrite port off value s) (\<lambda>s.
       bnd (if off = REG_CONTROL \<and> value = 1 then IoWrite port REG_STATUS 1 s else Inr s) (\<lambda>s. Inr (d, s)))
     else case GetBarMemory d (int i) of None \<Rightarrow> Inr (d, s)
       | Some b \<Rightarrow> bnd (block_write32 value (unat off) b) (\<lambda>b.
           bnd (if off = REG_CONTROL \<and> value = 1 then block_write32 1 (unat REG_STATUS) b else Inr b) (\<lambda>b.
           Inr (set_memory i (Some b) d, s))))"

definition TestDevice :: "FAKE_PCI_DEVICE \<Rightarrow> pci_found \<Rightarrow> (FAKE_PCI_DEVICE \<times> pci_found) res" where
  "TestDevice d s =
     (let d = d\<lparr>fd_config := (fd_config d)\<lparr>fc_command := fc_command (fd_config d) OR 2\<rparr>\<rparr>
      in bnd (WriteDeviceReg 0 REG_CONTROL 1 d s) (\<lambda>(d, s).
         bnd (ReadDeviceReg d 0 REG_STATUS s) (\<lambda>status.
         WriteDeviceReg 0 REG_DATA 1234 d (s\<lparr>f_statuses := f_statuses s @ [status]\<rparr>))))"

definition AttachDriver :: "FAKE_PCI_DEVICE \<Rightarrow> pci_found \<Rightarrow> (FAKE_PCI_DEVICE \<times> pci_found) res" where
  "AttachDriver d s =
     (if fc_class_code (fd_config d) \<in> {0x09, 0x03, 0x04, 0x01, 0x02} then TestDevice d s else Inr (d, s))"

definition main_pf :: "pci_found \<Rightarrow> pci_found res" where
  "main_pf s = bnd (DevicePool_pf s) (\<lambda>s. bnd (PciEnumerate_pf s) (\<lambda>s.
     on_devices AttachDriver [0..<length (f_devices s)] s))"

end
