(* ===== verification/PF_Props.thy ===== *)
theory PF_Props
  imports PF_Model
begin

text \<open>
  Properties of \<^verbatim>\<open>firmwareLearning/PCI_foundation.c\<close>: what the sizing of a BAR answers, and that a device
  register holds what was written, whether it is in I/O space or in mapped memory.
\<close>

section \<open>Sizing a BAR\<close>

definition found_wf :: "FAKE_PCI_DEVICE \<Rightarrow> bool" where
  "found_wf d \<longleftrightarrow> length (fc_bar (fd_config d)) = 6 \<and> length (fd_bar_size d) = 6
     \<and> length (fd_memory d) = 6 \<and> length (fd_probe d) = 6 \<and> (\<forall>v \<in> set (fc_bar (fd_config d)). v < 2 ^ 32)"

lemma ucast_add1: "(ucast (x + 1 :: 64 word) :: 32 word) = ucast x + 1"
proof (rule word_uint_eqI)
  show "uint (ucast (x + 1) :: 32 word) = uint (ucast x + 1 :: 32 word)"
    by (simp add: unsigned_ucast_eq uint_word_arith_bintrs take_bit_word_def unsigned_take_bit_eq
        take_bit_eq_mod mod_simps mod_mod_cancel)
qed

lemma ucast_ucast_bar: "v < 2 ^ 32 \<Longrightarrow> (ucast (ucast v :: 32 word) :: 64 word) = v"
  by (rule word_uint_eqI) (simp add: unsigned_ucast_eq unsigned_take_bit_eq take_bit_eq_mod word_less_def uint_mod_distrib)

lemma size_readback:
  fixes n m :: "32 word"
  shows "(ucast (NOT ((ucast (NOT (n - 1)) OR push_bit 32 y) AND NOT (ucast m)) + 1 :: 64 word) :: 32 word)
    = ((n - 1) OR m) + 1"
proof -
  have "(ucast (NOT ((ucast (NOT (n - 1)) OR push_bit 32 y) AND NOT (ucast m)) :: 64 word) :: 32 word) = (n - 1) OR m"
    by (rule bit_word_eqI) (auto simp: bit_simps simp del: bit.de_Morgan_conj bit.de_Morgan_disj)
  then show ?thesis by (simp add: ucast_add1 del: bit.de_Morgan_conj bit.de_Morgan_disj)
qed

lemma set_probe_simps [simp]:
  "fd_config (set_probe i v d) = fd_config d" "fd_bar_size (set_probe i v d) = fd_bar_size d"
  "fd_memory (set_probe i v d) = fd_memory d" "fd_probe (set_probe i v d) = (fd_probe d)[i := Some v]"
  "set_probe i v (set_probe i w d) = set_probe i v d"
  "i \<noteq> j \<Longrightarrow> set_probe i v (set_probe j w d) = set_probe j w (set_probe i v d)"
  by (simp_all add: set_probe_def list_update_swap)

lemma set_fbar_same: "found_wf d \<Longrightarrow> low_bar d i = Inr v \<Longrightarrow> set_fbar i v (set_probe j w d) = set_probe j w d"
  by (cases d) (auto simp: set_fbar_def set_probe_def low_bar_def found_wf_def res_simps ucast_ucast_bar
      intro!: PF_CONFIG.equality)

lemma read_back:
  "found_wf d \<Longrightarrow> i < 6 \<Longrightarrow>
   PciReadBar_pf i (set_probe i 1 d) = Inr (NOT (fd_bar_size d ! i - 1), set_probe i 0 d)"
  by (simp add: PciReadBar_pf_def found_wf_def aread_def)

definition bar_low_mask :: "32 word \<Rightarrow> 32 word" where
  "bar_low_mask raw = (if raw AND PCI_BAR_IO \<noteq> 0 then 0x3 else 0xf)"

text \<open>
  C17: Sizing a BAR answers its size rounded up to a multiple of 16, or of 4 for an I/O BAR, and
  leaves every BAR as it was, also when the BAR has 64 bits and the next one is its high half. A
  power of two of at least 16 is answered exactly.
\<close>

theorem ProbeBarSize_rounds:
  assumes "found_wf d" "low_bar d i = Inr raw" "raw \<noteq> 0xffffffff"
    and "raw_is_64 raw \<Longrightarrow> \<exists>high. low_bar d (i + 1) = Inr high \<and> high \<noteq> 0xffffffff"
  shows "ProbeBarSize i d = Inr (((fd_bar_size d ! i - 1) OR bar_low_mask raw) + 1,
      if raw_is_64 raw then set_probe (i + 1) 0 (set_probe i 0 d) else set_probe i 0 d)"
proof -
  let ?n = "fd_bar_size d ! i"
  have i: "i < 6" using assms(1,2) by (auto simp: low_bar_def found_wf_def res_simps)
  have wf: "found_wf (set_probe j v d)" for j v using assms(1) by (simp add: found_wf_def)
  have wr: "PciWriteBar_pf j 0xffffffff e = Inr (set_probe j 1 e)"
      "v \<noteq> 0xffffffff \<Longrightarrow> PciWriteBar_pf j v e = Inr (set_fbar j v e)" if "j < 6" "found_wf e" for j e v
    using that by (simp_all add: PciWriteBar_pf_def found_wf_def aread_def)
  have low [simp]: "low_bar (set_probe j v e) k = low_bar e k" for j v e k by (simp add: low_bar_def)
  have mask: "(if r AND PCI_BAR_IO \<noteq> 0 then NOT (x AND NOT 0x3) + 1 else NOT (x AND NOT 0xf) + 1)
      = NOT (x AND NOT (ucast (bar_low_mask r))) + 1" for x :: "64 word" and r
    by (simp add: bar_low_mask_def)
  note no_bool = bit.de_Morgan_conj bit.de_Morgan_disj bit.double_compl
  show ?thesis
  proof (cases "raw_is_64 raw")
    case False
    have "ucast (NOT (ucast (NOT (?n - 1)) AND NOT (ucast (bar_low_mask raw) :: 64 word)) + 1 :: 64 word)
        = ((?n - 1) OR bar_low_mask raw) + 1"
      using size_readback [of ?n 0 "bar_low_mask raw"] by simp
    with False assms(1,2,3) i wf show ?thesis
      unfolding ProbeBarSize_def mask
      by (simp add: wr read_back set_fbar_same del: no_bool)
  next
    case True
    then obtain high where high: "low_bar d (i + 1) = Inr high" "high \<noteq> 0xffffffff" using assms(4) by blast
    then have i1: "i + 1 < 6" using assms(1) by (auto simp: low_bar_def found_wf_def res_simps)
    have "PciReadBar_pf i (set_probe (i + 1) 1 (set_probe i 1 d))
        = Inr (NOT (?n - 1), set_probe (i + 1) 1 (set_probe i 0 d))"
      using i assms(1) by (simp add: PciReadBar_pf_def found_wf_def aread_def)
    moreover have "PciReadBar_pf (i + 1) (set_probe (i + 1) 1 (set_probe i 0 d))
        = Inr (NOT (fd_bar_size d ! (i + 1) - 1), set_probe (i + 1) 0 (set_probe i 0 d))"
      using i1 assms(1) by (simp add: PciReadBar_pf_def found_wf_def aread_def)
    moreover have "found_wf (set_probe (i + 1) v (set_probe i w d))" for v w
      using assms(1) by (simp add: found_wf_def)
    ultimately show ?thesis
      using True high assms(1,2,3) i i1 wf size_readback [of ?n "ucast (NOT (fd_bar_size d ! (i + 1) - 1))" "bar_low_mask raw"]
        set_fbar_same [OF wf, of i 0 i raw "i + 1" 0] set_fbar_same [OF wf, of i 0 "i + 1" high "i + 1" 0]
      unfolding ProbeBarSize_def mask
      by (simp add: wr del: no_bool)
  qed
qed

text \<open>The first device of the pool, and the microphone with its I/O BAR.\<close>

definition pool_device :: "nat \<Rightarrow> FAKE_PCI_DEVICE option" where
  "pool_device i = (case DevicePool_pf (initial_found (\<lambda>_. True)) of Inl e \<Rightarrow> None | Inr s \<Rightarrow> f_devices s ! i)"

theorem ProbeBarSize_rounds_witness:
  "\<exists>d. pool_device 3 = Some d \<and> ProbeBarSize 0 d = Inr (128, set_probe 0 0 d)"
proof -
  have "case pool_device 3 of None \<Rightarrow> False | Some d \<Rightarrow> found_wf d \<and> low_bar d 0 = Inr 1 \<and> fd_bar_size d ! 0 = 128"
    by code_simp
  then obtain d where d: "pool_device 3 = Some d" "found_wf d" "low_bar d 0 = Inr 1" "fd_bar_size d ! 0 = 128"
    by (auto split: option.splits)
  have n: "\<not> raw_is_64 1" "bar_low_mask 1 = 3" by code_simp+
  with ProbeBarSize_rounds [OF d(2,3)] d show ?thesis by simp
qed

section \<open>Device registers\<close>

text \<open>
  What the driver relies on, in I/O space and in a mapped block: a register reads back what was
  written, and the status register is not part of the control register.
\<close>

locale register_bank =
  fixes rd :: "32 word \<Rightarrow> 'm \<Rightarrow> 32 word res" and wr :: "32 word \<Rightarrow> 32 word \<Rightarrow> 'm \<Rightarrow> 'm res"
  assumes read_write: "wr off v m = Inr m1 \<Longrightarrow> rd off m1 = Inr v"
    and apart: "wr REG_CONTROL v m = Inr m1 \<Longrightarrow> wr REG_STATUS w m1 = Inr m2 \<Longrightarrow> rd REG_CONTROL m2 = Inr v"
begin

lemma start_command:
  assumes "wr off v m = Inr m1" "(if off = REG_CONTROL \<and> v = 1 then wr REG_STATUS 1 m1 else Inr m1) = Inr m2"
  shows "rd off m2 = Inr v \<and> (off = REG_CONTROL \<and> v = 1 \<longrightarrow> rd REG_STATUS m2 = Inr 1)"
  using assms read_write apart by (auto split: if_splits)

end

lemma io_index_Inr: "io_index a m = Inr n \<longleftrightarrow> n = a \<and> a + 4 \<le> IO_SPACE_SIZE \<and> unat a \<le> 65532"
  by (auto simp: io_index_def IO_SPACE_SIZE_def word_le_nat_alt)

lemma io_entry: "unat a \<le> 65532 \<Longrightarrow> i \<le> 4 \<Longrightarrow> unat (a + word_of_nat i :: 32 word) = unat a + i"
  by (simp add: unat_word_ariths unat_of_nat)

lemma io_set_at:
  assumes "unat a \<le> 65532" "unat c \<le> 65532" "i < 4"
  shows "io_set32 v a m (c + word_of_nat i)
    = (if unat a \<le> unat c + i \<and> unat c + i < unat a + 4 then ucast (drop_bit (8 * (unat c + i - unat a)) v)
       else m (c + word_of_nat i))"
  using io_entry [OF assms(2), of i] io_entry [OF assms(1), of 4] assms(3)
  by (auto simp: io_set32_def word_le_nat_alt word_less_nat_alt unat_sub)

lemma io_get_set: "unat a \<le> 65532 \<Longrightarrow> io_get32 (io_set32 v a m) a = v"
proof -
  assume "unat a \<le> 65532"
  then have "io_get32 (io_set32 v a m) a = le_read 4 (le_write 4 v 0 (\<lambda>_. 0)) 0"
    unfolding io_get32_def by (intro le_read_cong) (simp add: io_set_at le_write_at)
  then show ?thesis by (simp add: le_read_write_full)
qed

text \<open>Two registers at different distances do not overlap when both are in the array.\<close>

lemma io_get_other:
  assumes "unat a \<le> 65532" "unat c \<le> 65532" "unat c + 4 \<le> unat a \<or> unat a + 4 \<le> unat c"
  shows "io_get32 (io_set32 v a m) c = io_get32 m c"
  unfolding io_get32_def using assms by (intro le_read_cong) (auto simp: io_set_at)

lemma IoRead_IoWrite:
  "IoWrite p off v s = Inr s' \<Longrightarrow> IoRead p off s' = Inr v"
  unfolding IoWrite_def IoRead_def
  by (auto simp: io_index_def IO_SPACE_SIZE_def word_le_nat_alt io_get_set split: if_splits)

lemma IoRead_other:
  assumes "IoWrite p off' v s = Inr s'" "IoRead p off s = Inr w"
    and "unat (p + off) + 4 \<le> unat (p + off') \<or> unat (p + off') + 4 \<le> unat (p + off)"
  shows "IoRead p off s' = Inr w"
  using assms unfolding IoWrite_def IoRead_def
  by (auto simp: io_index_def IO_SPACE_SIZE_def word_le_nat_alt io_get_other split: if_splits)

lemma block_write32_eq:
  "block_write32 v a b = Inr b' \<longleftrightarrow> a + 4 \<le> fst b \<and> fst b' = fst b
    \<and> snd b' = (\<lambda>i. if a \<le> i \<and> i < a + 4 then Some (ucast (drop_bit (8 * (i - a)) v)) else snd b i)"
proof -
  have "i = a \<or> i = Suc a \<or> i = Suc (Suc a) \<or> i = Suc (Suc (Suc a))" if "a \<le> i" "i < a + 4" for i
    using that by linarith
  then have "foldl (\<lambda>m i. m(a + i \<mapsto> ucast (drop_bit (8 * i) v))) (snd b) [0..<4]
      = (\<lambda>i. if a \<le> i \<and> i < a + 4 then Some (ucast (drop_bit (8 * (i - a)) v)) else snd b i)"
    by (auto simp: upt_conv_Cons fun_eq_iff)
  then show ?thesis by (cases b'; cases b) (auto simp: block_write32_def)
qed

lemma block_read_write:
  assumes "block_write32 v a b = Inr b'"
  shows "block_read32 b' a = Inr v"
proof -
  note w = assms [unfolded block_write32_eq]
  then have "(le_read 4 (\<lambda>i. the (snd b' i)) a :: 32 word) = le_read 4 (le_write 4 v a (\<lambda>_. 0)) a"
    by (intro le_read_cong) (simp add: le_write_at)
  with w show ?thesis by (simp add: block_read32_def le_read_write_full)
qed

lemma block_read_other:
  assumes "block_write32 v a b = Inr b'" "block_read32 b c = Inr w" "c + 4 \<le> a \<or> a + 4 \<le> c"
  shows "block_read32 b' c = Inr w"
proof -
  note w = assms(1) [unfolded block_write32_eq]
  with assms(3) have same: "snd b' i = snd b i" if "c \<le> i" "i < c + 4" for i using that by auto
  then have "(le_read 4 (\<lambda>i. the (snd b' i)) c :: 32 word) = le_read 4 (\<lambda>i. the (snd b i)) c"
    by (intro le_read_cong) simp
  with assms(2) w same show ?thesis by (simp add: block_read32_def split: if_splits)
qed

interpretation io: register_bank "IoRead p" "IoWrite p" for p
proof
  fix v w m m1 m2
  assume w: "IoWrite p REG_CONTROL v m = Inr m1" "IoWrite p REG_STATUS w m1 = Inr m2"
  have "unat (p + REG_STATUS) + 4 \<le> unat (p + REG_CONTROL)"
    using w unfolding IoWrite_def
    by (auto simp: io_index_def IO_SPACE_SIZE_def REG_STATUS_def REG_CONTROL_def unat_word_ariths word_le_nat_alt split: if_splits)
  then show "IoRead p REG_CONTROL m2 = Inr v" using IoRead_other [OF w(2) IoRead_IoWrite [OF w(1)]] by simp
qed (rule IoRead_IoWrite)

interpretation mem: register_bank "\<lambda>off b. block_read32 b (unat off)" "\<lambda>off v. block_write32 v (unat off)"
  by unfold_locales
    (use block_read_write block_read_other in \<open>auto simp: REG_STATUS_def REG_CONTROL_def\<close>)

text \<open>The register is there: in I/O space, or in a block that is mapped and enabled.\<close>

definition reg_mapped :: "FAKE_PCI_DEVICE \<Rightarrow> nat \<Rightarrow> bool" where
  "reg_mapped d i \<longleftrightarrow> (case low_bar d i of Inl e \<Rightarrow> False
     | Inr v \<Rightarrow> v AND PCI_BAR_IO \<noteq> 0 \<or> GetBarMemory d (int i) \<noteq> None)"

lemma GetBarMemory_set:
  "GetBarMemory d (int i) = Some b \<Longrightarrow> found_wf d \<Longrightarrow> GetBarMemory (set_memory i c d) (int i) = c
    \<and> low_bar (set_memory i c d) j = low_bar d j"
  by (auto simp: GetBarMemory_def set_memory_def low_bar_def found_wf_def split: if_splits)

text \<open>
  C18: A register of a device that is in I/O space, or in a mapped block of a device with memory
  enabled, reads back what was written to it; writing 1 to the control register also sets the
  status register to 1.
\<close>

theorem device_register_roundtrip:
  assumes "WriteDeviceReg i off v d s = Inr (d', s')" "reg_mapped d i" "found_wf d"
  shows "ReadDeviceReg d' i off s' = Inr v
    \<and> (off = REG_CONTROL \<and> v = 1 \<longrightarrow> ReadDeviceReg d' i REG_STATUS s' = Inr 1)"
proof -
  obtain raw where raw: "low_bar d i = Inr raw" using assms(2) by (auto simp: reg_mapped_def split: sum.splits)
  show ?thesis
  proof (cases "raw AND PCI_BAR_IO = 0")
    case False
    let ?p = "raw AND PCI_BAR_IO_MASK"
    from assms(1) raw False obtain s1 where s1: "IoWrite ?p off v s = Inr s1" "d' = d"
        "(if off = REG_CONTROL \<and> v = 1 then IoWrite ?p REG_STATUS 1 s1 else Inr s1) = Inr s'"
      by (auto simp: WriteDeviceReg_def Let_def elim!: bnd_InrE)
    then show ?thesis using io.start_command [OF s1(1,3)] raw False by (simp add: ReadDeviceReg_def)
  next
    case True
    with assms(2) raw obtain b where b: "GetBarMemory d (int i) = Some b" by (auto simp: reg_mapped_def)
    with assms(1) raw True obtain b1 b2 where b1: "block_write32 v (unat off) b = Inr b1" "d' = set_memory i (Some b2) d"
        "(if off = REG_CONTROL \<and> v = 1 then block_write32 1 (unat REG_STATUS) b1 else Inr b1) = Inr b2"
      by (auto simp: WriteDeviceReg_def elim!: bnd_InrE)
    have "ReadDeviceReg d' i o' s' = block_read32 b2 (unat o')" for o'
      using b1(2) GetBarMemory_set [OF b assms(3)] raw True by (simp add: ReadDeviceReg_def)
    then show ?thesis using mem.start_command [OF b1(1,3)] by simp
  qed
qed

text \<open>The four devices after the enumeration; device 3 is the microphone, with its registers in I/O space.\<close>

definition enumerated :: pci_found where
  "enumerated = the_res (initial_found (\<lambda>_. True)) (bnd (DevicePool_pf (initial_found (\<lambda>_. True))) PciEnumerate_pf)"

theorem device_register_roundtrip_witness:
  "\<exists>d d' s'. f_devices enumerated ! 3 = Some d \<and> WriteDeviceReg 0 REG_CONTROL 1 d enumerated = Inr (d', s')
     \<and> ReadDeviceReg d' 0 REG_CONTROL s' = Inr 1 \<and> ReadDeviceReg d' 0 REG_STATUS s' = Inr 1"
proof -
  have "case f_devices enumerated ! 3 of None \<Rightarrow> False | Some d \<Rightarrow> reg_mapped d 0 \<and> found_wf d
      \<and> (case WriteDeviceReg 0 REG_CONTROL 1 d enumerated of Inl e \<Rightarrow> False | Inr x \<Rightarrow> True)"
    by code_simp
  then obtain d d' s' where d: "f_devices enumerated ! 3 = Some d" "reg_mapped d 0" "found_wf d"
      "WriteDeviceReg 0 REG_CONTROL 1 d enumerated = Inr (d', s')"
    by (auto split: option.splits sum.splits)
  with device_register_roundtrip [OF d(4,2,3)] show ?thesis by simp
qed

text \<open>The bound of an access is tested after a sum that wraps: an address just below \<open>2 ^ 32\<close> passes.\<close>

theorem IoRead_wraps: "IoRead 0xfffffffc 0 s = Inl (Undefined ''array index'')"
  by (simp add: IoRead_def io_index_def IO_SPACE_SIZE_def)

text \<open>
  The main program: when every \<^verbatim>\<open>malloc\<close> succeeds, the four devices get their addresses one after the
  other, three blocks of 256 bytes and one port range of 128, and each of them reports status 1.
  When the first one fails, the null pointer is registered and the enumeration follows it.
\<close>

theorem main_pf_outcome:
  "case main_pf (initial_found (\<lambda>_. True)) of Inr s \<Rightarrow>
      f_statuses s = [1, 1, 1, 1] \<and> f_io_base s = 0x1080 \<and> f_phys_base s = 0x10000300
      \<and> map (\<lambda>d. case d of None \<Rightarrow> 0 | Some d \<Rightarrow> fc_bar (fd_config d) ! 0) (f_devices s)
        = [0x10000000, 0x10000100, 0x10000200, 0x1001]
   | _ \<Rightarrow> False"
  "case main_pf (initial_found (\<lambda>n. n \<noteq> 0)) of Inl e \<Rightarrow> e = Undefined ''null pointer'' | Inr s \<Rightarrow> False"
  by code_simp+

end
