(* ===== verification/RF_Model.thy ===== *)
theory RF_Model
  imports PCI_Logic
begin

text \<open>
  The second PCI experiment, \<^verbatim>\<open>firmwareLearning/PCI_ReFresh.c\<close>: the configuration space as 256 bytes, the
  sizing of a BAR by a mask stored in the register itself, device contexts and the recursive scan
  of the buses. Types and pure functions with the text of \<^verbatim>\<open>B_Kernel\<close> (\<open>BAR_CFG\<close>, \<open>PCI_BAR_INFO\<close>,
  \<open>GenerateRandomID\<close>, \<open>bar_type\<close>, the size computed from the masks) are shared with it.
\<close>

section \<open>State\<close>

definition MAX_REAL_DEVICE_rf :: nat where "MAX_REAL_DEVICE_rf = 8192"

record RF_DEVICE =
  rd_config :: "8 word list"
  rd_bar_size :: "64 word list"

text \<open>
  A context comes from \<^verbatim>\<open>malloc\<close>: an entry of \<^verbatim>\<open>bar_info\<close> or of the union \<^verbatim>\<open>select_bar\<close> that the loop skips is
  not set. The pointer \<^verbatim>\<open>h_dev\<close> is the device of the slot \<open>rc_addr\<close>, which never changes.
\<close>

record RF_CONTEXT =
  rc_addr :: PCI_ADDR
  rc_vendor_id :: "16 word"
  rc_device_id :: "16 word"
  rc_prog_if :: "8 word"
  rc_subclass :: "8 word"
  rc_class_code :: "8 word"
  rc_header_type :: "8 word"
  rc_bars :: "32 word option list"
  rc_bar_info :: "PCI_BAR_INFO option list"

text \<open>
  \<open>r_bus\<close> lists the slots of \<^verbatim>\<open>g_pci_bus\<close> that are not null, and \<open>r_ctx\<close> is the used prefix of
  \<^verbatim>\<open>g_pciDevCtx\<close>, so its length is \<^verbatim>\<open>g_dev_count\<close>.
\<close>

record rf_pci =
  r_bus :: "(PCI_ADDR \<times> RF_DEVICE) list"
  r_ctx :: "RF_CONTEXT list"
  r_alloc_ok :: "nat \<Rightarrow> bool"
  r_allocs :: nat

definition initial_rf :: "(nat \<Rightarrow> bool) \<Rightarrow> rf_pci" where
  "initial_rf ok = \<lparr>r_bus = [], r_ctx = [], r_alloc_ok = ok, r_allocs = 0\<rparr>"

definition r_alloc :: "rf_pci \<Rightarrow> bool \<times> rf_pci" where
  "r_alloc s = (r_alloc_ok s (r_allocs s), s\<lparr>r_allocs := r_allocs s + 1\<rparr>)"

definition rf_slot :: "PCI_ADDR \<Rightarrow> rf_pci \<Rightarrow> RF_DEVICE option res" where
  "rf_slot a s = (if pci_in_range a then Inr (map_of (r_bus s) a) else Inl (Undefined ''array index''))"

definition upd_rf :: "PCI_ADDR \<Rightarrow> (RF_DEVICE \<Rightarrow> RF_DEVICE) \<Rightarrow> rf_pci \<Rightarrow> rf_pci" where
  "upd_rf a f = r_bus_update (AList.map_entry a f)"

definition rf32 :: "RF_DEVICE \<Rightarrow> nat \<Rightarrow> 32 word" where
  "rf32 d off = le_read 4 ((!) (rd_config d)) off"

definition set_rf32 :: "nat \<Rightarrow> 32 word \<Rightarrow> RF_DEVICE \<Rightarrow> RF_DEVICE" where
  "set_rf32 off v = rd_config_update (list_write 4 v off)"

section \<open>Building the devices\<close>

definition CreatePciDevice_rf :: "rf_pci \<Rightarrow> RF_DEVICE option \<times> rf_pci" where
  "CreatePciDevice_rf s =
     (let (ok, s) = r_alloc s
      in (if ok then Some \<lparr>rd_config = replicate CONFIG_SIZE 0, rd_bar_size = replicate 6 0\<rparr> else None, s))"

definition SetupCommonHeader_rf :: "16 word \<Rightarrow> 8 word \<Rightarrow> 8 word \<Rightarrow> 8 word \<Rightarrow> 8 word \<Rightarrow> RF_DEVICE \<Rightarrow> RF_DEVICE" where
  "SetupCommonHeader_rf vid type subc cc pf =
     rd_config_update (write_fields [(0x00, 2, ucast vid), (0x02, 2, ucast (vid * 13)), (0x04, 2, 0), (0x06, 2, 0),
       (0x08, 1, ucast vid), (0x09, 1, ucast pf), (0x0a, 1, ucast subc), (0x0b, 1, ucast cc),
       (0x0c, 1, 0x10), (0x0d, 1, 0), (0x0e, 1, ucast type), (0x0f, 1, 0)])"

definition set_bar_rf :: "nat \<Rightarrow> 64 word \<Rightarrow> 32 word \<Rightarrow> RF_DEVICE \<Rightarrow> RF_DEVICE" where
  "set_bar_rf i n flags d = set_rf32 (bar_offset i) flags (rd_bar_size_update (\<lambda>xs. xs[i := n]) d)"

text \<open>
  The loop over the first \<open>n\<close> BARs, of both header types. A 64-bit BAR consumes the next register,
  which is outside the array when it is the last one.
\<close>

function setup_bars_rf :: "nat \<Rightarrow> BAR_CFG list \<Rightarrow> nat \<Rightarrow> RF_DEVICE \<Rightarrow> RF_DEVICE res" where
  "setup_bars_rf n bars i d =
     (if i < n
      then bnd (aread bars i) (\<lambda>b.
        if bc_size b = 0 then setup_bars_rf n bars (i + 1) (set_bar_rf i 0 0 d)
        else if bc_is_io b \<and> bc_is_64 b then Inl (Bugcheck ''IO BAR cannot be 64-bit'')
        else let flags = (if bc_is_io b then 0x1 else if bc_is_64 b then push_bit 1 2 else 0);
                 d = set_bar_rf i (bc_size b) flags d
             in if \<not> bc_is_64 b then setup_bars_rf n bars (i + 1) d
                else if i + 1 < n then setup_bars_rf n bars (i + 2) (set_rf32 (bar_offset (i + 1)) 0 d)
                else Inl (Undefined ''array index''))
      else Inr d)"
  by pat_completeness auto
termination by (relation "measure (\<lambda>(n, bars, i, d). n - i)") auto

definition SetupType0Header_rf :: "16 word \<Rightarrow> BAR_CFG list \<Rightarrow> RF_DEVICE \<Rightarrow> RF_DEVICE res" where
  "SetupType0Header_rf vid bars d = bnd (setup_bars_rf 6 bars 0 d) (\<lambda>d.
     Inr (rd_config_update (write_fields [(0x28, 4, 0), (0x2c, 2, ucast vid), (0x2e, 2, ucast vid), (0x30, 4, 0),
       (0x34, 1, 0), (0x35, 1, 0), (0x36, 1, 0), (0x37, 1, 0), (0x38, 4, 0), (0x3c, 1, 0), (0x3d, 1, 1),
       (0x3e, 1, 0), (0x3f, 1, 0)]) d))"

definition SetupType1Header_rf :: "16 word \<Rightarrow> BAR_CFG list \<Rightarrow> RF_DEVICE \<Rightarrow> RF_DEVICE res" where
  "SetupType1Header_rf mmL bars d = bnd (setup_bars_rf 2 bars 0 d) (\<lambda>d.
     Inr (rd_config_update (write_fields [(0x18, 1, 0), (0x19, 1, 1), (0x1a, 1, 1), (0x1b, 1, 0), (0x1c, 1, 0),
       (0x1d, 1, 0), (0x1e, 2, 0), (0x20, 2, 0), (0x22, 2, ucast mmL), (0x24, 2, 0), (0x26, 2, 0), (0x28, 4, 0),
       (0x2c, 4, 0), (0x30, 2, 0), (0x32, 2, 0), (0x34, 1, 0), (0x38, 4, 0), (0x3c, 1, 0), (0x3d, 1, 1),
       (0x3e, 2, 0)]) d))"

definition CreateFakeDevice_rf :: "string \<Rightarrow> 8 word \<Rightarrow> 8 word \<Rightarrow> 8 word \<Rightarrow> 8 word \<Rightarrow> 16 word \<Rightarrow> BAR_CFG list
    \<Rightarrow> rf_pci \<Rightarrow> (RF_DEVICE option \<times> rf_pci) res" where
  "CreateFakeDevice_rf name type subclass classcode prog_if mmL bars s =
     (case CreatePciDevice_rf s of
        (None, s) \<Rightarrow> Inr (None, s)
      | (Some d, s) \<Rightarrow>
          let vid = GenerateRandomID name;
              d = SetupCommonHeader_rf vid type subclass classcode prog_if d
          in bnd (if type = 0 then SetupType0Header_rf vid bars d else SetupType1Header_rf mmL bars d)
               (\<lambda>d. Inr (Some d, s)))"

definition install_rf :: "PCI_ADDR \<Rightarrow> RF_DEVICE option \<Rightarrow> rf_pci \<Rightarrow> rf_pci" where
  "install_rf a p = r_bus_update (case p of None \<Rightarrow> AList.delete a | Some d \<Rightarrow> AList.update a d)"

definition PciDevicePool_rf :: "rf_pci \<Rightarrow> rf_pci res" where
  "PciDevicePool_rf s =
     (let bars = replicate 6 no_bar;
          disk_bars = bars[0 := \<lparr>bc_size = 0x2000, bc_is_io = False, bc_is_64 = False\<rparr>];
          net_bars = bars[0 := \<lparr>bc_size = 0x4000, bc_is_io = False, bc_is_64 = True\<rparr>];
          gpu_bars = bars[0 := \<lparr>bc_size = 0x100000, bc_is_io = False, bc_is_64 = True\<rparr>,
                          2 := \<lparr>bc_size = 0x1000, bc_is_io = True, bc_is_64 = False\<rparr>];
          bridge_bars = (replicate 2 no_bar)[0 := \<lparr>bc_size = 0x4000, bc_is_io = False, bc_is_64 = False\<rparr>]
      in bnd (CreateFakeDevice_rf ''disk'' 0 0x06 0x01 0x01 0 disk_bars s) (\<lambda>(d, s).
         bnd (CreateFakeDevice_rf ''net'' 0 0x00 0x02 0x00 0 net_bars (install_rf (0, 0, 0) d s)) (\<lambda>(d, s).
         bnd (CreateFakeDevice_rf ''gpu'' 0 0x00 0x03 0x00 0 gpu_bars (install_rf (0, 1, 0) d s)) (\<lambda>(d, s).
         bnd (CreateFakeDevice_rf ''bridge'' 1 0x04 0x06 0x00 0 bridge_bars (install_rf (1, 0, 0) d s)) (\<lambda>(d, s).
         Inr (install_rf (0, 2, 0) d s))))))"

section \<open>Configuration access\<close>

definition PciReadVendor_rf :: "PCI_ADDR \<Rightarrow> rf_pci \<Rightarrow> 16 word res" where
  "PciReadVendor_rf a s = bnd (rf_slot a s) (\<lambda>p.
     case p of None \<Rightarrow> Inr 0xffff | Some d \<Rightarrow> Inr (le_read 2 ((!) (rd_config d)) 0))"

definition PciConfigRead32_rf :: "PCI_ADDR \<Rightarrow> 8 word \<Rightarrow> rf_pci \<Rightarrow> 32 word res" where
  "PciConfigRead32_rf a off s = bnd (rf_slot a s) (\<lambda>p.
     case p of None \<Rightarrow> Inr 0xffffffff
     | Some d \<Rightarrow> if unat off + 4 \<le> CONFIG_SIZE then Inr (rf32 d (unat off)) else Inl (Undefined ''array index''))"

text \<open>The write of all ones to a BAR register, \<open>off\<close> from \<^verbatim>\<open>0x10\<close> to \<^verbatim>\<open>0x27\<close>: the mask goes into the register.\<close>

definition is_low_dword :: "nat \<Rightarrow> bool" where
  "is_low_dword off \<longleftrightarrow> (off - 0x10) mod 8 = 0"

definition size_bar_register :: "nat \<Rightarrow> RF_DEVICE \<Rightarrow> RF_DEVICE" where
  "size_bar_register off d =
     (let i = (off - 0x10) div 4;
          is_high = ((off - 0x10) mod 8 = 4 \<and> off > 0x10 \<and> bar_type (rf32 d (off - 4)) = 2);
          low_size = rd_bar_size d ! (i - 1)
      in if is_high \<and> low_size > 0
         then set_rf32 off (ucast (drop_bit 32 (NOT (low_size - 1)))) d
         else let orig = rf32 d off; is_64 = (bar_type orig = 2); n = rd_bar_size d ! i; mask64 = NOT (n - 1)
           in if n = 0
              then let d = set_rf32 off 0 d in if is_64 \<and> is_low_dword off \<and> i + 1 < 6 then set_rf32 (off + 4) 0 d else d
              else if orig AND 1 \<noteq> 0 then set_rf32 off ((ucast mask64 AND NOT 0x3) OR (orig AND 0x3)) d
              else if is_64
              then if is_low_dword off
                   then set_rf32 (off + 4) (ucast (drop_bit 32 mask64))
                     (set_rf32 off ((ucast (mask64 AND 0xffffffff) AND NOT 0xf) OR (orig AND 0xf)) d)
                   else set_rf32 off (ucast (drop_bit 32 mask64)) d
              else set_rf32 off ((ucast mask64 AND NOT 0xf) OR (orig AND 0xf)) d)"

definition PciConfigWrite32_rf :: "PCI_ADDR \<Rightarrow> 8 word \<Rightarrow> 32 word \<Rightarrow> rf_pci \<Rightarrow> (32 word \<times> rf_pci) res" where
  "PciConfigWrite32_rf a off v s = bnd (rf_slot a s) (\<lambda>p.
     case p of None \<Rightarrow> Inr (0xffffffff, s)
     | Some d \<Rightarrow>
         if 0x10 \<le> off \<and> off < 0x28 \<and> v = 0xffffffff then Inr (0, upd_rf a (size_bar_register (unat off)) s)
         else if unat off + 4 \<le> CONFIG_SIZE then Inr (0, upd_rf a (set_rf32 (unat off) v) s)
         else Inl (Undefined ''array index''))"

definition size_probe_rf :: "PCI_ADDR \<Rightarrow> 8 word \<Rightarrow> rf_pci \<Rightarrow> (32 word \<times> rf_pci) res" where
  "size_probe_rf a off s = bnd (PciConfigWrite32_rf a off 0xffffffff s) (\<lambda>(_, s).
     bnd (PciConfigRead32_rf a off s) (\<lambda>v. Inr (v, s)))"

definition GetPciBarInfo_rf :: "PCI_ADDR \<Rightarrow> 32 word \<Rightarrow> rf_pci \<Rightarrow> (PCI_BAR_INFO \<times> rf_pci) res" where
  "GetPciBarInfo_rf a bar s =
     (let off = ucast (0x10 + bar * 4) :: 8 word
      in bnd (PciConfigRead32_rf a off s) (\<lambda>orig_low.
         if orig_low AND 1 \<noteq> 0
         then bnd (size_probe_rf a off s) (\<lambda>(size_low, s).
              bnd (PciConfigWrite32_rf a off orig_low s) (\<lambda>(_, s).
              Inr (check_size (io_bar_info orig_low size_low), s)))
         else let is_64 = (bar_type orig_low = 2)
              in if is_64 \<and> bar \<ge> 5 then Inr (zero_bar_info, s)
                 else bnd (if is_64 then PciConfigRead32_rf a (off + 4) s else Inr 0) (\<lambda>orig_high.
                      bnd (size_probe_rf a off s) (\<lambda>(size_low, s).
                      bnd (if is_64 then size_probe_rf a (off + 4) s else Inr (0, s)) (\<lambda>(size_high, s).
                      bnd (PciConfigWrite32_rf a off orig_low s) (\<lambda>(_, s).
                      bnd (if is_64 then PciConfigWrite32_rf a (off + 4) orig_high s else Inr (0, s)) (\<lambda>(_, s).
                      Inr (check_size (mem_bar_info is_64 orig_low orig_high size_low size_high), s))))))))"

section \<open>Contexts and the scan\<close>

text \<open>The loop over the BARs of a new context.\<close>

function context_bars :: "nat \<Rightarrow> nat \<Rightarrow> RF_CONTEXT \<Rightarrow> rf_pci \<Rightarrow> (RF_CONTEXT \<times> rf_pci) res" where
  "context_bars limit b c s =
     (if b < limit
      then bnd (GetPciBarInfo_rf (rc_addr c) (word_of_nat b) s) (\<lambda>(bi, s).
           bnd (bnd (rf_slot (rc_addr c) s) deref) (\<lambda>d.
           let c = c\<lparr>rc_bar_info := (rc_bar_info c)[b := Some bi],
                     rc_bars := (rc_bars c)[b := Some (rf32 d (bar_offset b))]\<rparr>
           in context_bars limit (if bi_size bi \<noteq> 0 \<and> bi_is_64bit bi then b + 2 else b + 1) c s))
      else Inr (c, s))"
  by pat_completeness auto
termination by (relation "measure (\<lambda>(limit, b, c, s). limit - b)") auto

declare context_bars.simps [simp del]

definition OsCreateDevice :: "PCI_ADDR \<Rightarrow> rf_pci \<Rightarrow> (RF_CONTEXT option \<times> rf_pci) res" where
  "OsCreateDevice a s =
     (let (ok, s) = r_alloc s
      in if \<not> ok then Inr (None, s)
         else bnd (bnd (rf_slot a s) deref) (\<lambda>d.
           let data = rd_config d;
               c = \<lparr>rc_addr = a, rc_vendor_id = le_read 2 ((!) data) 0, rc_device_id = le_read 2 ((!) data) 2,
                    rc_prog_if = data ! 0x09, rc_subclass = data ! 0x0a, rc_class_code = data ! 0x0b,
                    rc_header_type = data ! 0x0e AND 0x7f, rc_bars = replicate 6 None,
                    rc_bar_info = replicate 6 None\<rparr>
           in bnd (context_bars (if rc_header_type c = 1 then 2 else 6) 0 c s) (\<lambda>(c, s). Inr (Some c, s))))"

text \<open>What the scan does with a function that is there; the answer is the bus behind a bridge to be scanned.\<close>

definition visit_function_rf :: "PCI_ADDR \<Rightarrow> rf_pci \<Rightarrow> (8 word option \<times> rf_pci) res" where
  "visit_function_rf a s =
     bnd (OsCreateDevice a s) (\<lambda>(ctx, s).
     bnd (case ctx of None \<Rightarrow> Inr s
          | Some c \<Rightarrow> if length (r_ctx s) < MAX_REAL_DEVICE_rf then Inr (s\<lparr>r_ctx := r_ctx s @ [c]\<rparr>)
                      else Inl (Bugcheck ''INVALID count of device'')) (\<lambda>s.
     bnd (bnd (rf_slot a s) deref) (\<lambda>d.
     Inr (if rd_config d ! 0x0e AND 0x7f = 1
          then let sec = rd_config d ! 0x19 in if sec \<noteq> fst a \<and> unat sec < MAX_BUS then Some sec else None
          else None, s))))"

partial_function (option) scan_bus_rf :: "8 word \<Rightarrow> nat \<Rightarrow> nat \<Rightarrow> rf_pci \<Rightarrow> rf_pci res option" where
  "scan_bus_rf bus dev func s =
     (if dev \<ge> MAX_DEVICE then Some (Inr s)
      else if func \<ge> MAX_FUNCTION then scan_bus_rf bus (dev + 1) 0 s
      else (case PciReadVendor_rf (bus, word_of_nat dev, word_of_nat func) s of
          Inl e \<Rightarrow> Some (Inl e)
        | Inr vendor \<Rightarrow>
            if vendor = 0xffff
            then (if func = 0 then scan_bus_rf bus (dev + 1) 0 s else scan_bus_rf bus dev (func + 1) s)
            else (case visit_function_rf (bus, word_of_nat dev, word_of_nat func) s of
                Inl e \<Rightarrow> Some (Inl e)
              | Inr (None, s1) \<Rightarrow> scan_bus_rf bus dev (func + 1) s1
              | Inr (Some sec_bus, s1) \<Rightarrow>
                  Option.bind (scan_bus_rf sec_bus 0 0 s1) (\<lambda>r.
                    case r of Inl e \<Rightarrow> Some (Inl e) | Inr s2 \<Rightarrow> scan_bus_rf bus dev (func + 1) s2))))"

lemmas scan_bus_rf_code [code] = scan_bus_rf.simps

definition PciEnumerate_rf :: "rf_pci \<Rightarrow> rf_pci res option" where
  "PciEnumerate_rf = scan_bus_rf 0 0 0"

definition main_rf :: "rf_pci \<Rightarrow> rf_pci res option" where
  "main_rf s = obnd (Some (PciDevicePool_rf s)) PciEnumerate_rf"

end
