(* ===== verification/RF_Facts.thy ===== *)
theory RF_Facts
  imports RF_Model PCI_Bars
begin

text \<open>
  What the sizing of a BAR by \<^verbatim>\<open>firmwareLearning/PCI_ReFresh.c\<close> finds out, and that it restores the
  registers.
\<close>

section \<open>Registers\<close>

definition rf_wf :: "RF_DEVICE \<Rightarrow> bool" where
  "rf_wf d \<longleftrightarrow> length (rd_config d) = CONFIG_SIZE \<and> length (rd_bar_size d) = 6"

lemma set_rf32_sel [simp]:
  "rd_bar_size (set_rf32 off v d) = rd_bar_size d" "rf_wf (set_rf32 off v d) = rf_wf d"
  by (simp_all add: set_rf32_def rf_wf_def)

lemma list_write_twice: "a + k \<le> length xs \<Longrightarrow> list_write k v a (list_write k w a xs) = list_write k v a xs"
  by (intro nth_equalityI) (simp_all add: nth_list_write le_write_at)

lemma list_write_swap:
  "a + k \<le> length xs \<Longrightarrow> b + l \<le> length xs \<Longrightarrow> a + k \<le> b \<or> b + l \<le> a \<Longrightarrow>
   list_write k v a (list_write l w b xs) = list_write l w b (list_write k v a xs)"
  by (intro nth_equalityI) (auto simp: nth_list_write le_write_at)

lemma rf32_set [simp]: "rf_wf d \<Longrightarrow> off + 4 \<le> CONFIG_SIZE \<Longrightarrow> rf32 (set_rf32 off v d) off = v"
  by (simp add: rf32_def set_rf32_def rf_wf_def nth_list_write le_read_write_full)

lemma rf32_set_other:
  "rf_wf d \<Longrightarrow> off + 4 \<le> CONFIG_SIZE \<Longrightarrow> off' + 4 \<le> off \<or> off + 4 \<le> off' \<Longrightarrow>
   rf32 (set_rf32 off v d) off' = rf32 d off'"
  by (simp add: rf32_def set_rf32_def rf_wf_def nth_list_write le_read_other)

lemma set_rf32_twice:
  "rf_wf d \<Longrightarrow> off + 4 \<le> CONFIG_SIZE \<Longrightarrow> set_rf32 off v (set_rf32 off w d) = set_rf32 off v d"
  by (cases d) (simp add: set_rf32_def rf_wf_def list_write_twice)

lemma set_rf32_swap:
  "rf_wf d \<Longrightarrow> off + 4 \<le> CONFIG_SIZE \<Longrightarrow> off' + 4 \<le> CONFIG_SIZE \<Longrightarrow> off' + 4 \<le> off \<or> off + 4 \<le> off' \<Longrightarrow>
   set_rf32 off v (set_rf32 off' w d) = set_rf32 off' w (set_rf32 off v d)"
  by (cases d) (auto simp: set_rf32_def rf_wf_def intro: list_write_swap)

lemma set_rf32_rf32: "rf_wf d \<Longrightarrow> off + 4 \<le> CONFIG_SIZE \<Longrightarrow> set_rf32 off (rf32 d off) d = d"
  by (cases d) (simp add: rf32_def set_rf32_def rf_wf_def list_write_read)

section \<open>The slot of a device\<close>

lemma rf_slot_eq [simp]: "pci_in_range a \<Longrightarrow> rf_slot a s = Inr (map_of (r_bus s) a)"
  by (simp add: rf_slot_def)

lemma map_of_upd_rf [simp]:
  "map_of (r_bus (upd_rf a f s)) b = (if b = a then map_option f (map_of (r_bus s) a) else map_of (r_bus s) b)"
  by (simp add: upd_rf_def map_of_map_entry split: option.split)

lemma upd_rf_comp [simp]: "upd_rf a f (upd_rf a g s) = upd_rf a (\<lambda>d. f (g d)) s"
  by (cases s) (simp add: upd_rf_def map_entry_comp)

lemma upd_rf_id: "map_of (r_bus s) a = Some d \<Longrightarrow> f d = d \<Longrightarrow> upd_rf a f s = s"
  by (cases s) (simp add: upd_rf_def map_entry_id)

section \<open>The sizing write\<close>

lemma bar_offset_simps [simp]:
  "(bar_offset b - 0x10) div 4 = b" "is_low_dword (bar_offset b) \<longleftrightarrow> even b"
  "(bar_offset b - 0x10) mod 8 = 4 \<longleftrightarrow> odd b" "b < 7 \<Longrightarrow> bar_offset b + 4 \<le> CONFIG_SIZE" "0x10 < bar_offset b \<longleftrightarrow> 0 < b"
  by (auto simp: bar_offset_def is_low_dword_def CONFIG_SIZE_def) presburger+

lemma bar_offset_next: "bar_offset b + 4 = bar_offset (b + 1)" "0 < b \<Longrightarrow> bar_offset b - 4 = bar_offset (b - 1)"
  by (auto simp: bar_offset_def)

lemma size_register_low:
  assumes "n = rd_bar_size d ! b" "n \<noteq> 0" "low = rf32 d (bar_offset b)" "even b \<or> bar_type (rf32 d (bar_offset (b - 1))) \<noteq> 2"
    and "\<not> (low AND 1 = 0 \<and> bar_type low = 2)"
  shows "size_bar_register (bar_offset b) d = set_rf32 (bar_offset b) (fst (sizing_masks n False low)) d"
  using assms by (auto simp: size_bar_register_def sizing_masks_def Let_def bar_offset_next(2) odd_pos)

lemma size_register_wide:
  assumes "n = rd_bar_size d ! b" "n \<noteq> 0" "low = rf32 d (bar_offset b)" "even b" "low AND 1 = 0" "bar_type low = 2"
  shows "size_bar_register (bar_offset b) d = set_rf32 (bar_offset (b + 1)) (snd (sizing_masks n True low))
    (set_rf32 (bar_offset b) (fst (sizing_masks n True low)) d)"
  using assms bar_offset_next(1) [of b] by (auto simp: size_bar_register_def sizing_masks_def Let_def)

lemma size_register_high:
  assumes "n = rd_bar_size d ! b" "n \<noteq> 0" "even b" "bar_type (rf32 d (bar_offset b)) = 2"
  shows "size_bar_register (bar_offset (b + 1)) d = set_rf32 (bar_offset (b + 1)) (ucast (drop_bit 32 (NOT (n - 1)))) d"
  using assms bar_offset_next(2) [of "b + 1"] by (auto simp: size_bar_register_def Let_def word_neq_0_conv)

section \<open>The protocol\<close>

text \<open>The slot holds a well-formed device.\<close>

definition rf_present :: "PCI_ADDR \<Rightarrow> RF_DEVICE \<Rightarrow> rf_pci \<Rightarrow> bool" where
  "rf_present a d s \<longleftrightarrow> pci_in_range a \<and> map_of (r_bus s) a = Some d \<and> rf_wf d"

lemma unat_bar_reg_offset: "b < 8 \<Longrightarrow> unat (bar_reg b) = bar_offset b"
  by (simp add: bar_offset_def)

lemma read_rf: "rf_present a d s \<Longrightarrow> b < 6 \<Longrightarrow> PciConfigRead32_rf a (bar_reg b) s = Inr (rf32 d (bar_offset b))"
  using bar_offset_simps(4) [of b] by (simp add: PciConfigRead32_rf_def rf_present_def unat_bar_reg_offset del: unat_bar_reg)

lemma write_rf:
  "rf_present a d s \<Longrightarrow> b < 6 \<Longrightarrow> v \<noteq> 0xffffffff \<Longrightarrow>
   PciConfigWrite32_rf a (bar_reg b) v s = Inr (0, upd_rf a (set_rf32 (bar_offset b) v) s)"
  using bar_offset_simps(4) [of b] by (simp add: PciConfigWrite32_rf_def rf_present_def unat_bar_reg_offset del: unat_bar_reg)

lemma present_upd: "rf_present a d s \<Longrightarrow> rf_wf (f d) \<Longrightarrow> rf_present a (f d) (upd_rf a f s)"
  by (simp add: rf_present_def)

lemma probe_rf:
  assumes "rf_present a d s" "b < 6" "rf_wf (size_bar_register (bar_offset b) d)"
  shows "size_probe_rf a (bar_reg b) s = Inr (rf32 (size_bar_register (bar_offset b) d) (bar_offset b),
      upd_rf a (size_bar_register (bar_offset b)) s)"
  using assms read_rf [OF present_upd [OF assms(1), of "size_bar_register (bar_offset b)"] assms(2)]
  by (simp add: size_probe_rf_def PciConfigWrite32_rf_def rf_present_def unat_bar_reg_offset del: unat_bar_reg)

interpretation rf: sizing_protocol "GetPciBarInfo_rf a" "\<lambda>off s. bnd (PciConfigRead32_rf a off s) (\<lambda>v. Inr (v, s))"
  "size_probe_rf a" "PciConfigWrite32_rf a" for a
proof
  fix b s low
  assume b: "b < 6" and rd: "bnd (PciConfigRead32_rf a (bar_reg b) s) (\<lambda>v. Inr (v, s)) = Inr (low, s)"
  have opt: "bnd (if c then bnd r (\<lambda>v. Inr (v, s)) else Inr (0, s)) (\<lambda>(v, s). f v s) = bnd (if c then r else Inr 0) (\<lambda>v. f v s)"
    for c r and f :: "32 word \<Rightarrow> rf_pci \<Rightarrow> (PCI_BAR_INFO \<times> rf_pci) res"
    by (cases r) simp_all
  show "GetPciBarInfo_rf a (word_of_nat b) s =
      (if low AND 1 \<noteq> 0
       then bnd (size_probe_rf a (bar_reg b) s) (\<lambda>(m, s). bnd (PciConfigWrite32_rf a (bar_reg b) low s) (\<lambda>(_, s).
            Inr (check_size (io_bar_info low m), s)))
       else let wide = (bar_type low = 2)
            in if wide \<and> b \<ge> 5 then Inr (zero_bar_info, s)
               else bnd (if wide then bnd (PciConfigRead32_rf a (bar_reg (b + 1)) s) (\<lambda>v. Inr (v, s)) else Inr (0, s)) (\<lambda>(high, s).
                    bnd (size_probe_rf a (bar_reg b) s) (\<lambda>(lo, s).
                    bnd (if wide then size_probe_rf a (bar_reg (b + 1)) s else Inr (0, s)) (\<lambda>(hi, s).
                    bnd (PciConfigWrite32_rf a (bar_reg b) low s) (\<lambda>(_, s).
                    bnd (if wide then PciConfigWrite32_rf a (bar_reg (b + 1)) high s else Inr (0, s)) (\<lambda>(_, s).
                    Inr (check_size (mem_bar_info wide low high lo hi), s)))))))"
    unfolding opt using b rd
    by (auto simp: GetPciBarInfo_rf_def bar_reg_word bar_reg_next bar_too_high Let_def elim!: bnd_InrE)
qed

lemma sizing_rf_32:
  assumes s: "rf_present a d s" "b < 6" and n: "rd_bar_size d ! b = 2 ^ k" "4 \<le> k" "k < 32"
    and low: "low = rf32 d (bar_offset b)" "low \<noteq> 0xffffffff" "narrow low"
    and pos: "even b \<or> bar_type (rf32 d (bar_offset (b - 1))) \<noteq> 2"
  shows "GetPciBarInfo_rf a (word_of_nat b) s
    = Inr (\<lparr>bi_base_address = bar_address low high, bi_size = 2 ^ k, bi_is_io = (low AND 1 \<noteq> 0),
            bi_is_64bit = False\<rparr>, s)"
proof (rule rf.sizing_narrow [OF s(2) n(2,3) low(3)])
  have wf: "rf_wf d" using s(1) by (simp add: rf_present_def)
  have nz: "(2 ^ k :: 64 word) \<noteq> 0" using exp_nonzero n(3) by simp
  note size = size_register_low [OF n(1) [symmetric] nz low(1) pos low(3) [unfolded narrow_def]]
  have b: "bar_offset b + 4 \<le> CONFIG_SIZE" using s(2) by (intro bar_offset_simps(4)) simp
  show "bnd (PciConfigRead32_rf a (bar_reg b) s) (\<lambda>v. Inr (v, s)) = Inr (low, s)"
    using read_rf [OF s] low(1) by simp
  show "size_probe_rf a (bar_reg b) s
      = Inr (fst (sizing_masks (2 ^ k) False low), upd_rf a (size_bar_register (bar_offset b)) s)"
    using probe_rf [OF s] wf s(2) by (simp add: size)
  have "upd_rf a (\<lambda>d. set_rf32 (bar_offset b) low (size_bar_register (bar_offset b) d)) s = s"
    using s(1) size low(1) set_rf32_twice [OF wf b] set_rf32_rf32 [OF wf b]
    by (intro upd_rf_id [of _ _ d]) (simp_all add: rf_present_def)
  then show "PciConfigWrite32_rf a (bar_reg b) low (upd_rf a (size_bar_register (bar_offset b)) s) = Inr (0, s)"
    using write_rf [OF present_upd [OF s(1)] s(2) low(2), of "size_bar_register (bar_offset b)"] wf
    by (simp add: size)
qed

lemma sizing_rf_64:
  assumes s: "rf_present a d s" "b < 5" "even b" and n: "rd_bar_size d ! b = 2 ^ k" "4 \<le> k" "k < 64"
    and low: "low = rf32 d (bar_offset b)" "low AND 1 = 0" "bar_type low = 2"
    and high: "high = rf32 d (bar_offset (b + 1))" "high \<noteq> 0xffffffff"
  shows "GetPciBarInfo_rf a (word_of_nat b) s
    = Inr (\<lparr>bi_base_address = bar_address low high, bi_size = 2 ^ k, bi_is_io = False, bi_is_64bit = True\<rparr>, s)"
proof (rule rf.sizing_wide [OF s(2) n(2,3) low(2,3)])
  let ?n = "2 ^ k :: 64 word"
  let ?lo = "fst (sizing_masks ?n True low)" and ?hi = "snd (sizing_masks ?n True low)"
  let ?size = "size_bar_register (bar_offset b)" and ?size' = "size_bar_register (bar_offset (b + 1))"
  let ?d1 = "set_rf32 (bar_offset (b + 1)) ?hi (set_rf32 (bar_offset b) ?lo d)"
  have wf: "rf_wf d" using s(1) by (simp add: rf_present_def)
  have b: "b < 6" "b + 1 < 6" using s(2) by simp_all
  have off: "bar_offset b + 4 \<le> CONFIG_SIZE" "bar_offset (b + 1) + 4 \<le> CONFIG_SIZE"
    using s(2) by (intro bar_offset_simps(4); simp)+
  have apart: "bar_offset b + 4 \<le> bar_offset (b + 1)" by (simp add: bar_offset_def)
  have nz: "?n \<noteq> 0" using exp_nonzero n(3) by simp
  have d1: "?size d = ?d1" using size_register_wide [OF n(1) [symmetric] nz low(1) s(3) low(2,3)] .
  have lo: "rf32 ?d1 (bar_offset b) = ?lo" using wf off apart by (simp add: rf32_set_other)
  have "?size' ?d1 = set_rf32 (bar_offset (b + 1)) ?hi ?d1"
    using size_register_high [of ?n ?d1 b] n(1) nz s(3) lo wide_mask_type [OF low(2), of ?n] low(3) wide_masks [OF low(2), of ?n]
    by simp
  then have d2: "?size' (?size d) = ?d1"
    unfolding d1 using set_rf32_twice [of "set_rf32 (bar_offset b) ?lo d"] wf off(2) by simp
  have orig: "set_rf32 (bar_offset (b + 1)) high (set_rf32 (bar_offset b) low ?d1) = d"
    using wf off apart low(1) high(1) set_rf32_swap [of "set_rf32 (bar_offset b) ?lo d" "bar_offset b" "bar_offset (b + 1)" low ?hi]
    by (simp add: set_rf32_twice set_rf32_rf32)
  have wf': "rf_wf (?size d)" "rf_wf (?size' (?size d))" using d1 d2 wf by simp_all
  note p1 = present_upd [OF s(1), of ?size, OF wf'(1)]
  note p2 = present_upd [OF p1, of ?size', OF wf'(2), simplified upd_rf_comp]
  note p3 = present_upd [OF p2, of "set_rf32 (bar_offset b) low", simplified upd_rf_comp]
  show "bnd (PciConfigRead32_rf a (bar_reg b) s) (\<lambda>v. Inr (v, s)) = Inr (low, s)"
    "bnd (PciConfigRead32_rf a (bar_reg (b + 1)) s) (\<lambda>v. Inr (v, s)) = Inr (high, s)"
    using read_rf [OF s(1)] b low(1) high(1) by simp_all
  show "size_probe_rf a (bar_reg b) s = Inr (?lo, upd_rf a ?size s)"
    using probe_rf [OF s(1) b(1) wf'(1)] d1 lo by simp
  show "size_probe_rf a (bar_reg (b + 1)) (upd_rf a ?size s) = Inr (?hi, upd_rf a (\<lambda>d. ?size' (?size d)) s)"
    using probe_rf [OF p1 b(2) wf'(2)] d2 wf off by simp
  show "PciConfigWrite32_rf a (bar_reg b) low (upd_rf a (\<lambda>d. ?size' (?size d)) s)
      = Inr (0, upd_rf a (\<lambda>d. set_rf32 (bar_offset b) low (?size' (?size d))) s)"
    using write_rf [OF p2 b(1) even_not_ones [OF low(2)]] by simp
  have "upd_rf a (\<lambda>d. set_rf32 (bar_offset (b + 1)) high (set_rf32 (bar_offset b) low (?size' (?size d)))) s = s"
    using s(1) orig d2 by (intro upd_rf_id [of _ _ d]) (simp_all add: rf_present_def)
  then show "PciConfigWrite32_rf a (bar_reg (b + 1)) high (upd_rf a (\<lambda>d. set_rf32 (bar_offset b) low (?size' (?size d))) s)
      = Inr (0, s)"
    using write_rf [OF p3 b(2) high(2)] wf'(2) by simp
qed

end
