(* ===== verification/RF_Enum.thy ===== *)
theory RF_Enum
  imports RF_Facts
begin

text \<open>
  The scan of \<^verbatim>\<open>firmwareLearning/PCI_ReFresh.c\<close> ends when no allocation fails: every function it visits
  takes one of the \<^verbatim>\<open>MAX_REAL_DEVICE\<close> contexts, so bridges that name each other's bus cannot keep it
  going for ever.
\<close>

section \<open>What configuration access keeps\<close>

definition rf_bus_ok :: "rf_pci \<Rightarrow> bool" where
  "rf_bus_ok s \<longleftrightarrow> (\<forall>a d. map_of (r_bus s) a = Some d \<longrightarrow> rf_wf d)"

definition rf_kept :: "rf_pci \<Rightarrow> rf_pci \<Rightarrow> bool" where
  "rf_kept s s' \<longleftrightarrow> r_ctx s' = r_ctx s \<and> r_alloc_ok s' = r_alloc_ok s
     \<and> dom (map_of (r_bus s')) = dom (map_of (r_bus s)) \<and> (rf_bus_ok s \<longrightarrow> rf_bus_ok s')"

lemma rf_kept_refl [wf_intros]: "rf_kept s s"
  by (simp add: rf_kept_def)

lemma rf_kept_trans: "rf_kept s s1 \<Longrightarrow> rf_kept s1 s2 \<Longrightarrow> rf_kept s s2"
  by (simp add: rf_kept_def)

lemma rf_kept_upd:
  assumes "\<And>d. rf_wf d \<Longrightarrow> rf_wf (f d)"
  shows "rf_kept s (upd_rf a f s)"
  using assms unfolding rf_kept_def rf_bus_ok_def
  by (auto simp: dom_def split: if_splits) (auto simp: upd_rf_def)

lemma size_register_wf [simp]: "rf_wf (size_bar_register off d) = rf_wf d"
  by (simp add: size_bar_register_def Let_def)

lemma read_ok: "pci_in_range a \<Longrightarrow> unat off + 4 \<le> CONFIG_SIZE \<Longrightarrow> \<exists>v. PciConfigRead32_rf a off s = Inr v"
  by (auto simp: PciConfigRead32_rf_def split: option.split)

lemma write_ok:
  "pci_in_range a \<Longrightarrow> unat off + 4 \<le> CONFIG_SIZE \<Longrightarrow>
   \<exists>x s'. PciConfigWrite32_rf a off v s = Inr (x, s') \<and> rf_kept s s'"
  by (auto simp: PciConfigWrite32_rf_def intro: rf_kept_refl rf_kept_upd split: option.split)

lemma probe_ok:
  assumes "pci_in_range a" "unat off + 4 \<le> CONFIG_SIZE"
  shows "\<exists>x s'. size_probe_rf a off s = Inr (x, s') \<and> rf_kept s s'"
proof -
  obtain x s' where "PciConfigWrite32_rf a off 0xffffffff s = Inr (x, s')" "rf_kept s s'" using write_ok [OF assms] by blast
  moreover obtain v where "PciConfigRead32_rf a off s' = Inr v" using read_ok [OF assms] by blast
  ultimately show ?thesis by (simp add: size_probe_rf_def)
qed

lemma optional_ok:
  "(c \<Longrightarrow> \<exists>x s'. f s = Inr (x, s') \<and> rf_kept s s') \<Longrightarrow>
   \<exists>x s'. (if c then f s else Inr (0, s)) = Inr (x, s') \<and> rf_kept s s'"
  by (auto intro: rf_kept_refl)

lemma bar_info_ok:
  assumes a: "pci_in_range a" and b: "b < 6"
  shows "\<exists>x s'. GetPciBarInfo_rf a (word_of_nat b) s = Inr (x, s') \<and> rf_kept s s'"
proof -
  have off: "unat (bar_reg b) + 4 \<le> CONFIG_SIZE" "unat (bar_reg (b + 1)) + 4 \<le> CONFIG_SIZE"
    using b by (simp_all add: CONFIG_SIZE_def)
  obtain low where low: "PciConfigRead32_rf a (bar_reg b) s = Inr low" using read_ok [OF a off(1)] by blast
  obtain x1 s1 where p1: "size_probe_rf a (bar_reg b) s = Inr (x1, s1)" "rf_kept s s1"
    using probe_ok [OF a off(1)] by blast
  show ?thesis
  proof (cases "low AND 1 = 0")
    case False
    obtain x2 s2 where "PciConfigWrite32_rf a (bar_reg b) low s1 = Inr (x2, s2)" "rf_kept s1 s2"
      using write_ok [OF a off(1)] by blast
    with False low p1 b show ?thesis by (auto simp: GetPciBarInfo_rf_def bar_reg_word intro: rf_kept_trans)
  next
    case True
    define wide where "wide \<longleftrightarrow> bar_type low = 2"
    obtain high where high: "(if wide then PciConfigRead32_rf a (bar_reg (b + 1)) s else Inr 0) = Inr high"
      using read_ok [OF a off(2), of s] by (cases wide) auto
    obtain x2 s2 where p2: "(if wide then size_probe_rf a (bar_reg (b + 1)) s1 else Inr (0, s1)) = Inr (x2, s2)" "rf_kept s1 s2"
      using optional_ok [of wide "size_probe_rf a (bar_reg (b + 1))" s1] probe_ok [OF a off(2)] by blast
    obtain x3 s3 where p3: "PciConfigWrite32_rf a (bar_reg b) low s2 = Inr (x3, s3)" "rf_kept s2 s3"
      using write_ok [OF a off(1)] by blast
    obtain x4 s4 where p4: "(if wide then PciConfigWrite32_rf a (bar_reg (b + 1)) high s3 else Inr (0, s3)) = Inr (x4, s4)" "rf_kept s3 s4"
      using optional_ok [of wide "PciConfigWrite32_rf a (bar_reg (b + 1)) high" s3] write_ok [OF a off(2)] by blast
    have "rf_kept s s4" using p1(2) p2(2) p3(2) p4(2) rf_kept_trans by blast
    then show ?thesis
      using True low high p1(1) p2(1) p3(1) p4(1) b
      by (cases wide; cases "(5 :: 32 word) \<le> word_of_nat b")
        (simp_all add: GetPciBarInfo_rf_def bar_reg_word bar_reg_next Let_def rf_kept_refl flip: wide_def)
  qed
qed

lemma context_bars_ok:
  assumes "limit \<le> 6" "pci_in_range (rc_addr c)" "rc_addr c \<in> dom (map_of (r_bus s))"
  shows "\<exists>c' s'. context_bars limit b c s = Inr (c', s') \<and> rf_kept s s' \<and> rc_addr c' = rc_addr c"
  using assms
proof (induction limit b c s rule: context_bars.induct)
  case (1 limit b c s)
  show ?case
  proof (cases "b < limit")
    case True
    then obtain bi s1 where bi: "GetPciBarInfo_rf (rc_addr c) (word_of_nat b) s = Inr (bi, s1)" "rf_kept s s1"
      using bar_info_ok [OF "1.prems"(2), of b s] "1.prems"(1) by auto
    then have "rc_addr c \<in> dom (map_of (r_bus s1))" using "1.prems"(3) by (simp add: rf_kept_def)
    then obtain d where d: "bnd (rf_slot (rc_addr c) s1) deref = Inr d" "rc_addr c \<in> dom (map_of (r_bus s1))"
      using "1.prems"(2) by auto
    show ?thesis
      using "1.IH" [OF True bi(1) refl d(1)] True bi d "1.prems"
      by (subst context_bars.simps) (auto simp: Let_def intro: rf_kept_trans)
  qed (auto simp: context_bars.simps [of limit b c s] intro: rf_kept_refl)
qed

section \<open>The scan\<close>

text \<open>What the scan needs, and what it leaves.\<close>

definition rf_ready :: "rf_pci \<Rightarrow> bool" where
  "rf_ready s \<longleftrightarrow> rf_bus_ok s \<and> (\<forall>n. r_alloc_ok s n) \<and> length (r_ctx s) \<le> MAX_REAL_DEVICE_rf"

text \<open>The contexts grow at the end, by functions of the bus, and no slot comes or goes.\<close>

definition rf_grown :: "rf_pci \<Rightarrow> rf_pci \<Rightarrow> bool" where
  "rf_grown s s' \<longleftrightarrow> dom (map_of (r_bus s')) = dom (map_of (r_bus s))
     \<and> (\<exists>cs. r_ctx s' = r_ctx s @ cs \<and> rc_addr ` set cs \<subseteq> dom (map_of (r_bus s)))"

lemma rf_grown_refl [wf_intros]: "rf_grown s s"
  by (simp add: rf_grown_def)

lemma rf_grown_trans: "rf_grown s s1 \<Longrightarrow> rf_grown s1 s2 \<Longrightarrow> rf_grown s s2"
  unfolding rf_grown_def by (elim conjE exE) (auto simp: image_Un)

lemma rf_grown_length: "rf_grown s s' \<Longrightarrow> length (r_ctx s) \<le> length (r_ctx s')"
  by (auto simp: rf_grown_def)

definition scan_ends :: "rf_pci \<Rightarrow> rf_pci res option \<Rightarrow> bool" where
  "scan_ends s r \<longleftrightarrow> (case r of None \<Rightarrow> False
     | Some (Inl e) \<Rightarrow> e = Bugcheck ''INVALID count of device''
     | Some (Inr s') \<Rightarrow> rf_ready s' \<and> rf_grown s s')"

lemma scan_ends_later: "rf_grown s s1 \<Longrightarrow> scan_ends s1 r \<Longrightarrow> scan_ends s r"
  by (auto simp: scan_ends_def intro: rf_grown_trans split: option.splits sum.splits)

lemma visit_ready:
  assumes "rf_ready s" "pci_in_range a" "a \<in> dom (map_of (r_bus s))"
  shows "visit_function_rf a s = Inl (Bugcheck ''INVALID count of device'')
    \<or> (\<exists>sec s'. visit_function_rf a s = Inr (sec, s') \<and> rf_ready s' \<and> rf_grown s s' \<and> length (r_ctx s) < length (r_ctx s')
        \<and> (\<forall>b. sec = Some b \<longrightarrow> unat b < MAX_BUS))"
proof -
  let ?s = "s\<lparr>r_allocs := r_allocs s + 1\<rparr>"
  have same: "rf_kept s ?s" by (simp add: rf_kept_def rf_bus_ok_def)
  obtain d where d: "map_of (r_bus s) a = Some d" using assms(3) by auto
  obtain c s1 where c: "OsCreateDevice a s = Inr (Some c, s1)" "rf_kept s s1" "rc_addr c = a"
  proof -
    define c0 where "c0 = \<lparr>rc_addr = a, rc_vendor_id = le_read 2 ((!) (rd_config d)) 0,
      rc_device_id = le_read 2 ((!) (rd_config d)) 2, rc_prog_if = rd_config d ! 0x09, rc_subclass = rd_config d ! 0x0a,
      rc_class_code = rd_config d ! 0x0b, rc_header_type = rd_config d ! 0x0e AND 0x7f, rc_bars = replicate 6 None,
      rc_bar_info = replicate 6 None\<rparr>"
    have "(if rc_header_type c0 = 1 then 2 else 6) \<le> (6 :: nat)" by simp
    moreover have "rc_addr c0 = a" by (simp add: c0_def)
    ultimately obtain c' s1 where "context_bars (if rc_header_type c0 = 1 then 2 else 6) 0 c0 ?s = Inr (c', s1)" "rf_kept ?s s1"
        "rc_addr c' = a"
      using context_bars_ok [of "if rc_header_type c0 = 1 then 2 else 6" c0 ?s 0] assms(2,3) by auto
    with d assms(1,2) same show thesis
      by (intro that [of c' s1])
        (auto simp: OsCreateDevice_def r_alloc_def rf_ready_def c0_def Let_def intro: rf_kept_trans)
  qed
  then have s1: "rf_ready s1" "length (r_ctx s1) = length (r_ctx s)" "a \<in> dom (map_of (r_bus s1))"
    using assms by (simp_all add: rf_ready_def rf_kept_def)
  then obtain d' where d': "map_of (r_bus s1) a = Some d'" by auto
  show ?thesis
  proof (cases "length (r_ctx s1) < MAX_REAL_DEVICE_rf")
    case True
    let ?s1 = "s1\<lparr>r_ctx := r_ctx s1 @ [c]\<rparr>"
    have "rf_ready ?s1" using s1(1) True by (simp add: rf_ready_def rf_bus_ok_def)
    moreover have "rf_grown s ?s1" using c(2,3) assms(3) by (simp add: rf_grown_def rf_kept_def)
    ultimately show ?thesis using True c(1) d' s1(2) assms(2) by (simp add: visit_function_rf_def Let_def)
  qed (use c(1) in \<open>simp add: visit_function_rf_def\<close>)
qed

lemma scan_bus_ends:
  assumes "rf_ready s" "unat bus < MAX_BUS"
  shows "scan_ends s (scan_bus_rf bus dev func s)"
  using assms
proof (induction "MAX_REAL_DEVICE_rf - length (r_ctx s)" arbitrary: s bus dev func rule: less_induct)
  case less
  have later: "scan_ends s1 (scan_bus_rf b x y s1)"
    if "rf_ready s1" "length (r_ctx s) < length (r_ctx s1)" "unat b < MAX_BUS" for s1 b x y
  proof -
    have "length (r_ctx s) < MAX_REAL_DEVICE_rf" using that(1,2) by (simp add: rf_ready_def)
    then show ?thesis using less.hyps [OF diff_less_mono2 that(1,3)] that(2) by blast
  qed
  show ?case
  proof (induction "(MAX_DEVICE - dev) * (MAX_FUNCTION + 1) + (MAX_FUNCTION - func)" arbitrary: dev func rule: less_induct)
    case (less dev func)
    show ?case
    proof (cases "dev < MAX_DEVICE")
      case False
      then show ?thesis using \<open>rf_ready s\<close> by (subst scan_bus_rf.simps) (simp add: scan_ends_def rf_grown_refl)
    next
      case dev: True
      then have next_dev: "scan_ends s (scan_bus_rf bus (dev + 1) 0 s)" by (intro less.hyps) simp
      show ?thesis
      proof (cases "func < MAX_FUNCTION")
        case False
        then show ?thesis using dev next_dev by (subst scan_bus_rf.simps) simp
      next
        case func: True
        then have next_func: "scan_ends s (scan_bus_rf bus dev (func + 1) s)" using dev by (intro less.hyps) simp
        let ?a = "(bus, word_of_nat dev, word_of_nat func) :: PCI_ADDR"
        have a: "pci_in_range ?a" using dev func \<open>unat bus < MAX_BUS\<close> by (simp add: unat_of_nat)
        then obtain v where v: "PciReadVendor_rf ?a s = Inr v" "v \<noteq> 0xffff \<longrightarrow> ?a \<in> dom (map_of (r_bus s))"
          by (cases "map_of (r_bus s) ?a") (auto simp: PciReadVendor_rf_def)
        show ?thesis
        proof (cases "v = 0xffff")
          case True
          then show ?thesis using dev func v(1) next_dev next_func by (subst scan_bus_rf.simps) simp
        next
          case False
          then consider "visit_function_rf ?a s = Inl (Bugcheck ''INVALID count of device'')"
            | sec s1 where "visit_function_rf ?a s = Inr (sec, s1)" "rf_ready s1" "rf_grown s s1" "length (r_ctx s) < length (r_ctx s1)"
                "\<forall>b. sec = Some b \<longrightarrow> unat b < MAX_BUS"
            using visit_ready [OF \<open>rf_ready s\<close> a] v(2) by blast
          then show ?thesis
          proof cases
            case 1
            then show ?thesis using False dev func v(1) by (subst scan_bus_rf.simps) (simp add: scan_ends_def)
          next
            case (2 sec s1)
            have grow: "scan_ends s (scan_bus_rf bus x y s2)"
              if "rf_ready s2" "rf_grown s1 s2" for x y s2
              using later [of s2 bus x y] scan_ends_later [OF rf_grown_trans [OF 2(3) that(2)]] rf_grown_length [OF that(2)]
                that(1) 2(4) \<open>unat bus < MAX_BUS\<close> by simp
            show ?thesis
            proof (cases sec)
              case None
              then show ?thesis using False dev func v(1) 2 grow [OF 2(2) rf_grown_refl]
                by (subst scan_bus_rf.simps) simp
            next
              case (Some b)
              have sub: "scan_ends s1 (scan_bus_rf b 0 0 s1)" using later [OF 2(2,4)] 2(5) Some by simp
              then consider e where "scan_bus_rf b 0 0 s1 = Some (Inl e)" "e = Bugcheck ''INVALID count of device''"
                | s2 where "scan_bus_rf b 0 0 s1 = Some (Inr s2)" "rf_ready s2" "rf_grown s1 s2"
                by (auto simp: scan_ends_def split: option.splits sum.splits)
              then show ?thesis
              proof cases
                case (1 e)
                then show ?thesis using False dev func v(1) 2(1) Some
                  by (subst scan_bus_rf.simps) (simp add: scan_ends_def)
              next
                case sub: (2 s2)
                show ?thesis using False dev func v(1) 2(1) Some sub(1) grow [OF sub(2,3)]
                  by (subst scan_bus_rf.simps) simp
              qed
            qed
          qed
        qed
      qed
    qed
  qed
qed

end
