(* ===== verification/RF_Props.thy ===== *)
theory RF_Props
  imports RF_Enum PCI_Props
begin

text \<open>
  Properties of \<^verbatim>\<open>firmwareLearning/PCI_ReFresh.c\<close>: its sizing of BARs against that of \<^verbatim>\<open>B_Kernel\<close>, its
  scan and its main program.
\<close>

section \<open>Sizing\<close>

definition rf_pool :: rf_pci where
  "rf_pool = the_res (initial_rf (\<lambda>_. True)) (PciDevicePool_rf (initial_rf (\<lambda>_. True)))"

text \<open>Two devices, one of either program, with the same BAR: its register, the next one and its size.\<close>

definition same_bar :: "nat \<Rightarrow> PCI_DEVICE \<Rightarrow> RF_DEVICE \<Rightarrow> bool" where
  "same_bar b d d' \<longleftrightarrow> cfg32 d (bar_offset b) = rf32 d' (bar_offset b)
     \<and> cfg32 d (bar_offset (b + 1)) = rf32 d' (bar_offset (b + 1)) \<and> pd_bar_size d ! b = rd_bar_size d' ! b"

text \<open>
  C15: The sizing protocol of \<^verbatim>\<open>PCI_ReFresh.c\<close>, which stores the mask in the register and writes the
  register back, gives the same answer as that of \<^verbatim>\<open>B_Kernel\<close>, which keeps the masks aside: when
  both devices are present and well formed, neither is being sized and their BARs have the same registers and the same size, the two
  report the same address, kind and size, and both leave the devices as they were. It holds for the
  BARs at an even register whose size is a power of two of at least 16, below \<open>2^32\<close> for a 32-bit or
  an I/O BAR, and whose register is aligned to the size and not all ones; of a 64-bit BAR bit 32 of
  the address must be clear, since \<^verbatim>\<open>B_Kernel\<close> takes it for the I/O flag.
\<close>

theorem sizing_protocols_agree:
  assumes "idle_slot a s d" "rf_present a' d' r" "same_bar b d d'" "b < 6" "even b"
    and "low = cfg32 d (bar_offset b)" "high = cfg32 d (bar_offset (b + 1))"
    and "pd_bar_size d ! b = 2 ^ k" "4 \<le> k" "bar_aligned (2 ^ k) low" "low \<noteq> 0xffffffff"
    and "wide \<longleftrightarrow> low AND 1 = 0 \<and> bar_type low = 2"
    and "if wide then k < 64 \<and> high AND 1 = 0 else k < 32"
  shows "\<exists>pbi s'. GetPciBarInfo a (word_of_nat b) s = Inr (pbi, s') \<and> g_pci_bus s' = g_pci_bus s
    \<and> GetPciBarInfo_rf a' (word_of_nat b) r = Inr (pbi, r)"
proof -
  obtain s' where "GetPciBarInfo a (word_of_nat b) s
      = Inr (\<lparr>bi_base_address = bar_address low high, bi_size = 2 ^ k, bi_is_io = (low AND 1 \<noteq> 0), bi_is_64bit = wide\<rparr>, s')"
      "g_pci_bus s' = g_pci_bus s"
    using idle_slot_sizing [OF assms(1,4-13)] by blast
  moreover have "GetPciBarInfo_rf a' (word_of_nat b) r
      = Inr (\<lparr>bi_base_address = bar_address low high, bi_size = 2 ^ k, bi_is_io = (low AND 1 \<noteq> 0), bi_is_64bit = wide\<rparr>, r)"
  proof (cases wide)
    case True
    then have "b < 5" "high \<noteq> 0xffffffff" using assms(4,5,13) even_not_ones [of high] by (presburger, simp)
    then show ?thesis
      using True sizing_rf_64 [OF assms(2) _ assms(5), of k low high] assms(3,6-9,12,13) by (simp add: same_bar_def)
  next
    case False
    then show ?thesis
      using sizing_rf_32 [OF assms(2,4), of k low high] assms(3,5,6,8,9,11-13) by (simp add: same_bar_def narrow_def)
  qed
  ultimately show ?thesis by blast
qed

lemma net_rf_facts:
  "case map_of (r_bus rf_pool) (0, 1, 0) of None \<Rightarrow> False
   | Some d \<Rightarrow> rf_wf d \<and> rf32 d (bar_offset 0) = 4 \<and> rf32 d (bar_offset 1) = 0 \<and> rd_bar_size d ! 0 = 0x4000"
  by code_simp

theorem sizing_protocols_agree_witness:
  "\<exists>pbi s'. GetPciBarInfo (0, 1, 0) 0 pool = Inr (pbi, s') \<and> GetPciBarInfo_rf (0, 1, 0) 0 rf_pool = Inr (pbi, rf_pool)"
proof -
  obtain d where d: "idle_slot (0, 1, 0) pool d" "cfg32 d (bar_offset 0) = 4" "cfg32 d (bar_offset 1) = 0"
      "pd_bar_size d = 0x4000 # replicate 5 0"
    using net_facts by (elim slot_checkE) blast
  obtain d' where d': "rf_present (0, 1, 0) d' rf_pool" "rf32 d' (bar_offset 0) = 4" "rf32 d' (bar_offset 1) = 0"
      "rd_bar_size d' ! 0 = 0x4000"
    using net_rf_facts by (auto simp: rf_present_def split: option.splits)
  have "\<exists>pbi s'. GetPciBarInfo (0, 1, 0) (word_of_nat 0) pool = Inr (pbi, s') \<and> g_pci_bus s' = g_pci_bus pool
      \<and> GetPciBarInfo_rf (0, 1, 0) (word_of_nat 0) rf_pool = Inr (pbi, rf_pool)"
    by (rule sizing_protocols_agree [OF d(1) d'(1), where k = 14 and low = 4 and high = 0 and wide = True])
      (use d d' in \<open>auto simp: same_bar_def bar_aligned_def bar_type_def\<close>)
  then show ?thesis by auto
qed

text \<open>
  A 32-bit BAR at an odd register is sized too, unless the register before it is that of a 64-bit
  BAR; \<^verbatim>\<open>B_Kernel\<close> reports none there (\<open>odd_bar_not_sized\<close>).
\<close>

theorem odd_bar_sized_rf:
  assumes "rf_present a d s" "b < 6" "odd b" "bar_type (rf32 d (bar_offset (b - 1))) \<noteq> 2"
    and "rd_bar_size d ! b = 2 ^ k" "4 \<le> k" "k < 32" "rf32 d (bar_offset b) = 0"
  shows "GetPciBarInfo_rf a (word_of_nat b) s
    = Inr (\<lparr>bi_base_address = 0, bi_size = 2 ^ k, bi_is_io = False, bi_is_64bit = False\<rparr>, s)"
  using sizing_rf_32 [OF assms(1,2,5-7), of 0 0] assms(4,8) by (simp add: bar_type_def bar_address_def narrow_def)

section \<open>The scan and the main program\<close>

text \<open>
  C16: When no allocation fails and at most \<^verbatim>\<open>MAX_REAL_DEVICE\<close> contexts are in use, the enumeration of \<^verbatim>\<open>PCI_ReFresh.c\<close> ends on every bus of well-formed
  devices, also when bridges name each other's bus: it returns, or stops with the check of the
  number of contexts. When it returns, the contexts that were there are still there and in the same
  order, the ones added after them are of slots that hold a device, at most \<^verbatim>\<open>MAX_REAL_DEVICE\<close> are in
  use, and the same slots hold well-formed devices.
\<close>

theorem PciEnumerate_rf_ends:
  assumes "rf_bus_ok s" "\<forall>n. r_alloc_ok s n" "length (r_ctx s) \<le> MAX_REAL_DEVICE_rf"
  shows "(\<exists>s' cs. PciEnumerate_rf s = Some (Inr s') \<and> r_ctx s' = r_ctx s @ cs
      \<and> (\<forall>c \<in> set cs. rc_addr c \<in> dom (map_of (r_bus s))) \<and> length (r_ctx s') \<le> MAX_REAL_DEVICE_rf
      \<and> dom (map_of (r_bus s')) = dom (map_of (r_bus s)) \<and> rf_bus_ok s')
    \<or> PciEnumerate_rf s = Some (Inl (Bugcheck ''INVALID count of device''))"
proof -
  have "rf_ready s" using assms by (simp add: rf_ready_def)
  then have "scan_ends s (PciEnumerate_rf s)"
    unfolding PciEnumerate_rf_def by (rule scan_bus_ends) (simp add: MAX_BUS_def)
  then show ?thesis by (auto simp: rf_ready_def rf_grown_def scan_ends_def image_subset_iff split: option.splits sum.splits)
qed

text \<open>The bridge of the pool and a second bridge, on bus 1, that names bus 0.\<close>

definition rf_bridge_loop :: rf_pci where
  "rf_bridge_loop = (initial_rf (\<lambda>_. True))\<lparr>r_bus :=
     (case map_of (r_bus rf_pool) (0, 2, 0) of None \<Rightarrow> []
      | Some d \<Rightarrow> [((1, 1, 0), set_rf32 0x18 0 d), ((0, 2, 0), d)])\<rparr>"

lemma rf_bridge_loop_ok: "list_all (\<lambda>(a, d). rf_wf d) (r_bus rf_bridge_loop)" "r_ctx rf_bridge_loop = []"
  by code_simp+

theorem PciEnumerate_rf_ends_witness:
  "PciEnumerate_rf rf_bridge_loop \<noteq> None"
proof -
  have "rf_bus_ok rf_bridge_loop"
    using rf_bridge_loop_ok(1) by (auto simp: rf_bus_ok_def list_all_iff dest!: map_of_SomeD)
  moreover have "\<forall>n. r_alloc_ok rf_bridge_loop n" by (simp add: rf_bridge_loop_def initial_rf_def)
  ultimately show ?thesis using PciEnumerate_rf_ends [of rf_bridge_loop] rf_bridge_loop_ok(2) by auto
qed

text \<open>The main program finds the four devices, sizes their BARs and leaves the registers as they were.\<close>

theorem main_rf_outcome:
  "case main_rf (initial_rf (\<lambda>_. True)) of Some (Inr s) \<Rightarrow>
      map (\<lambda>c. (rc_addr c, map (map_option bi_size) (take 3 (rc_bar_info c)))) (r_ctx s)
        = [((0, 0, 0), [Some 0x2000, Some 0, Some 0]), ((0, 1, 0), [Some 0x4000, None, Some 0]),
           ((0, 2, 0), [Some 0x4000, Some 0, None]), ((1, 0, 0), [Some 0x100000, None, Some 0x1000])]
      \<and> r_bus s = r_bus rf_pool
   | _ \<Rightarrow> False"
  by code_simp

end
