(* ===== verification/L1_Kernel.thy ===== *)
theory L1_Kernel
  imports BK_State
begin

text \<open>
  The first version of the kernel simulator, \<^verbatim>\<open>BLUE_KERNEL/BlueKernel_Lvl1.c\<close>: interrupt levels, the
  DPC queue, a scheduler that scans the thread table, wait queues, one mutex with priority
  inheritance of one step, one event, and its main program. The enums and the sets of routines
  are those of the third version and are shared with \<open>BK_State\<close>; the scheduler of this version
  serves as the specification of the ready queues of the third one.
\<close>

section \<open>State\<close>

definition MAX_THREADS_v1 :: nat where "MAX_THREADS_v1 = 8"

lemmas L1_limits [simp] = MAX_THREADS_v1_def

record THREAD_v1 =
  v_id :: int
  v_pc :: int
  v_priority :: int
  v_base_priority :: int
  v_quantum :: int
  v_state :: THREAD_STATE
  v_routine :: "ThreadRoutine option"

record WAIT_QUEUE_v1 =
  vq_threads :: "nat option list"
  vq_count :: nat

record MUTEX_v1 =
  vm_locked :: bool
  vm_owner :: "nat option"
  vm_waiters :: WAIT_QUEUE_v1

record EVENT_v1 =
  ve_signaled :: bool
  ve_waiters :: WAIT_QUEUE_v1

text \<open>The global variables; \<open>k_mutex\<close> is \<^verbatim>\<open>test_mutex\<close>, \<open>k_event\<close> is \<^verbatim>\<open>io_event\<close>.\<close>

record kernel_v1 =
  k_irql_stack :: "IRQL list"
  k_irql_top :: int
  k_irql :: IRQL
  k_dpc_queue :: "DPC_ROUTINE option list"
  k_dpc_head :: nat
  k_dpc_tail :: nat
  k_dpc_count :: nat
  k_threads :: "THREAD_v1 list"
  k_thread_count :: nat
  k_current :: "nat option"
  k_resched :: bool
  k_mutex :: MUTEX_v1
  k_event :: EVENT_v1

definition zero_wait_queue_v1 :: WAIT_QUEUE_v1 where
  "zero_wait_queue_v1 = \<lparr>vq_threads = replicate MAX_THREADS_v1 None, vq_count = 0\<rparr>"

definition zero_thread_v1 :: THREAD_v1 where
  "zero_thread_v1 = \<lparr>v_id = 0, v_pc = 0, v_priority = 0, v_base_priority = 0, v_quantum = 0,
     v_state = THREAD_READY, v_routine = None\<rparr>"

definition initial_v1 :: kernel_v1 where
  "initial_v1 = \<lparr>k_irql_stack = replicate MAX_NESTING PASSIVE_LEVEL, k_irql_top = -1,
     k_irql = PASSIVE_LEVEL, k_dpc_queue = replicate MAX_QUEUE None, k_dpc_head = 0,
     k_dpc_tail = 0, k_dpc_count = 0, k_threads = replicate MAX_THREADS_v1 zero_thread_v1,
     k_thread_count = 0, k_current = None, k_resched = False,
     k_mutex = \<lparr>vm_locked = False, vm_owner = None, vm_waiters = zero_wait_queue_v1\<rparr>,
     k_event = \<lparr>ve_signaled = False, ve_waiters = zero_wait_queue_v1\<rparr>\<rparr>"

definition get_v1 :: "nat \<Rightarrow> kernel_v1 \<Rightarrow> THREAD_v1 res" where
  "get_v1 t s = aread (k_threads s) t"

definition upd_v1 :: "nat \<Rightarrow> (THREAD_v1 \<Rightarrow> THREAD_v1) \<Rightarrow> kernel_v1 \<Rightarrow> kernel_v1" where
  "upd_v1 t f = k_threads_update (\<lambda>xs. xs[t := f (xs ! t)])"

definition request_reschedule :: "kernel_v1 \<Rightarrow> kernel_v1" where
  "request_reschedule = k_resched_update (\<lambda>_. True)"

lemma get_v1_eq_Inr [res_simps]:
  "get_v1 t s = Inr th \<longleftrightarrow> t < length (k_threads s) \<and> k_threads s ! t = th"
  by (simp add: get_v1_def res_simps)

section \<open>Levels and deferred calls\<close>

definition kernel_wait :: "kernel_v1 \<Rightarrow> kernel_v1 res" where
  "kernel_wait s =
     (if k_irql s > PASSIVE_LEVEL then Inl (Bugcheck ''Wait attempted above PASSIVE_LEVEL'')
      else Inr s)"

definition isPageable :: "nat \<Rightarrow> bool" where
  "isPageable address = (address mod 2 \<noteq> 0)"

definition access_memory :: "nat \<Rightarrow> kernel_v1 \<Rightarrow> kernel_v1 res" where
  "access_memory address s =
     (if isPageable address \<and> k_irql s > APC_LEVEL then Inl (Bugcheck ''Page fault at elevated IRQL'')
      else Inr s)"

definition queue_dpc :: "DPC_ROUTINE \<Rightarrow> kernel_v1 \<Rightarrow> kernel_v1 res" where
  "queue_dpc routine s =
     (if k_dpc_count s \<ge> MAX_QUEUE then Inl (Bugcheck ''DPC queue overflow'')
      else Inr (s\<lparr>k_dpc_queue := (k_dpc_queue s)[k_dpc_tail s := Some routine],
                  k_dpc_tail := (k_dpc_tail s + 1) mod MAX_QUEUE,
                  k_dpc_count := k_dpc_count s + 1\<rparr>))"

definition push_irql :: "IRQL \<Rightarrow> kernel_v1 \<Rightarrow> kernel_v1 res" where
  "push_irql new_level s =
     (if k_irql_top s \<ge> int MAX_NESTING - 1 then Inl (Bugcheck ''IRQL stack overflow'')
      else if k_irql_top s \<ge> 0 \<and> new_level \<le> k_irql_stack s ! nat (k_irql_top s)
      then Inl (Bugcheck ''Invalid IRQL raise (not higher)'')
      else Inr (s\<lparr>k_irql_stack := (k_irql_stack s)[nat (k_irql_top s + 1) := new_level],
                  k_irql_top := k_irql_top s + 1, k_irql := new_level\<rparr>))"

section \<open>Threads and scheduling\<close>

definition CheckPreemption_v1 :: "nat \<Rightarrow> kernel_v1 \<Rightarrow> kernel_v1 res" where
  "CheckPreemption_v1 newThread s =
     (case k_current s of None \<Rightarrow> Inr s
      | Some c \<Rightarrow> bnd (get_v1 newThread s) (\<lambda>nt. bnd (get_v1 c s) (\<lambda>ct.
          Inr (if v_priority nt > v_priority ct then request_reschedule s else s))))"

definition CreateThread_v1 :: "ThreadRoutine \<Rightarrow> int \<Rightarrow> kernel_v1 \<Rightarrow> kernel_v1 res" where
  "CreateThread_v1 tdR priority s =
     (let t = k_thread_count s; s1 = k_thread_count_update (\<lambda>n. n + 1) s
      in bnd (get_v1 t s1) (\<lambda>_.
         CheckPreemption_v1 t (upd_v1 t (\<lambda>th. th\<lparr>v_id := int t + 1, v_priority := priority,
           v_base_priority := priority, v_quantum := 3, v_state := THREAD_READY,
           v_routine := Some tdR\<rparr>) s1)))"

text \<open>The first of the ready threads of the highest priority.\<close>

fun pick_scan :: "THREAD_v1 list \<Rightarrow> nat list \<Rightarrow> nat option \<Rightarrow> nat option" where
  "pick_scan ths [] best = best"
| "pick_scan ths (i # is) best =
     pick_scan ths is
       (if v_state (ths ! i) = THREAD_READY
          \<and> (case best of None \<Rightarrow> True | Some b \<Rightarrow> v_priority (ths ! i) > v_priority (ths ! b))
        then Some i else best)"

definition PickNextThread_v1 :: "kernel_v1 \<Rightarrow> nat option" where
  "PickNextThread_v1 s = pick_scan (k_threads s) [0..<k_thread_count s] None"

definition set_state_v1 :: "nat \<Rightarrow> THREAD_STATE \<Rightarrow> kernel_v1 \<Rightarrow> kernel_v1" where
  "set_state_v1 t st = upd_v1 t (v_state_update (\<lambda>_. st))"

definition Schedule_v1 :: "kernel_v1 \<Rightarrow> kernel_v1 res" where
  "Schedule_v1 s =
     (if k_irql s \<ge> DISPATCH_LEVEL then Inr s
      else case PickNextThread_v1 s of None \<Rightarrow> Inr s
      | Some next \<Rightarrow>
          if k_current s = Some next then Inr s
          else bnd (case k_current s of None \<Rightarrow> Inr s
                    | Some c \<Rightarrow> bnd (get_v1 c s) (\<lambda>ct.
                        Inr (if v_state ct = THREAD_RUNNING then set_state_v1 c THREAD_READY s else s)))
                 (\<lambda>s1. Inr (k_current_update (\<lambda>_. Some next) (set_state_v1 next THREAD_RUNNING s1))))"

definition TimerDPC_v1 :: "kernel_v1 \<Rightarrow> kernel_v1 res" where
  "TimerDPC_v1 s =
     (case k_current s of None \<Rightarrow> Inr s
      | Some c \<Rightarrow> bnd (get_v1 c s) (\<lambda>ct.
          if v_quantum ct - 1 \<le> 0
          then Inr (request_reschedule (upd_v1 c (v_quantum_update (\<lambda>_. 3)) s))
          else Inr (upd_v1 c (v_quantum_update (\<lambda>q. q - 1)) s)))"

section \<open>Wait queues\<close>

datatype WAIT_PTR_v1 = MutexWaiters_v1 | EventWaiters_v1

fun get_wq_v1 :: "WAIT_PTR_v1 \<Rightarrow> kernel_v1 \<Rightarrow> WAIT_QUEUE_v1" where
  "get_wq_v1 MutexWaiters_v1 s = vm_waiters (k_mutex s)"
| "get_wq_v1 EventWaiters_v1 s = ve_waiters (k_event s)"

fun upd_wq_v1 :: "WAIT_PTR_v1 \<Rightarrow> (WAIT_QUEUE_v1 \<Rightarrow> WAIT_QUEUE_v1) \<Rightarrow> kernel_v1 \<Rightarrow> kernel_v1" where
  "upd_wq_v1 MutexWaiters_v1 f s = k_mutex_update (vm_waiters_update f) s"
| "upd_wq_v1 EventWaiters_v1 f s = k_event_update (ve_waiters_update f) s"

definition InitWaitQueue_v1 :: "WAIT_PTR_v1 \<Rightarrow> kernel_v1 \<Rightarrow> kernel_v1" where
  "InitWaitQueue_v1 q = upd_wq_v1 q (vq_count_update (\<lambda>_. 0))"

definition EnqueueWaiter_v1 :: "WAIT_PTR_v1 \<Rightarrow> nat \<Rightarrow> kernel_v1 \<Rightarrow> kernel_v1 res" where
  "EnqueueWaiter_v1 q t s =
     (if vq_count (get_wq_v1 q s) \<ge> MAX_THREADS_v1 then Inl (Bugcheck ''Wait queue overflow'')
      else Inr (upd_wq_v1 q (\<lambda>w. w\<lparr>vq_threads := (vq_threads w)[vq_count w := Some t],
                                     vq_count := vq_count w + 1\<rparr>) s))"

definition waiter_priority :: "WAIT_QUEUE_v1 \<Rightarrow> nat \<Rightarrow> kernel_v1 \<Rightarrow> int res" where
  "waiter_priority w i s = bnd (deref (vq_threads w ! i)) (\<lambda>t. bnd (get_v1 t s) (\<lambda>th. Inr (v_priority th)))"

fun best_waiter :: "WAIT_QUEUE_v1 \<Rightarrow> nat list \<Rightarrow> nat \<Rightarrow> kernel_v1 \<Rightarrow> nat res" where
  "best_waiter w [] best s = Inr best"
| "best_waiter w (i # is) best s = bnd (waiter_priority w i s) (\<lambda>pi.
     bnd (waiter_priority w best s) (\<lambda>pb. best_waiter w is (if pi > pb then i else best) s))"

definition DequeueHighestPriority_v1 :: "WAIT_PTR_v1 \<Rightarrow> kernel_v1 \<Rightarrow> (nat option \<times> kernel_v1) res" where
  "DequeueHighestPriority_v1 q s =
     (let w = get_wq_v1 q s
      in if vq_count w = 0 then Inr (None, s)
         else bnd (best_waiter w [1..<vq_count w] 0 s) (\<lambda>b.
           Inr (vq_threads w ! b, upd_wq_v1 q (\<lambda>w. w\<lparr>vq_threads :=
                 foldl (\<lambda>xs i. xs[i := xs ! (i + 1)]) (vq_threads w) [b..<vq_count w - 1],
                 vq_count := vq_count w - 1\<rparr>) s)))"

definition BlockCurrentThread_v1 :: "WAIT_PTR_v1 \<Rightarrow> kernel_v1 \<Rightarrow> kernel_v1 res" where
  "BlockCurrentThread_v1 queue s =
     (if k_irql s \<noteq> PASSIVE_LEVEL then Inl (Bugcheck ''Blocking above PASSIVE_LEVEL'')
      else case k_current s of None \<Rightarrow> Inr s
      | Some c \<Rightarrow> bnd (get_v1 c s) (\<lambda>_.
          bnd (EnqueueWaiter_v1 queue c (set_state_v1 c THREAD_BLOCKED s)) (\<lambda>s1.
          Inr (request_reschedule s1))))"

definition WakeOne_v1 :: "WAIT_PTR_v1 \<Rightarrow> kernel_v1 \<Rightarrow> kernel_v1 res" where
  "WakeOne_v1 queue s =
     (if k_irql s \<noteq> DISPATCH_LEVEL then Inl (Bugcheck ''Wake must occur at DISPATCH_LEVEL'')
      else if vq_count (get_wq_v1 queue s) = 0 then Inr s
      else bnd (DequeueHighestPriority_v1 queue s) (\<lambda>(t, s1). bnd (deref t) (\<lambda>t.
           bnd (get_v1 t s1) (\<lambda>_. CheckPreemption_v1 t (set_state_v1 t THREAD_READY s1)))))"

end
