(* ===== verification/L1_Main.thy ===== *)
theory L1_Main
  imports L1_Kernel
begin

text \<open>
  The mutex, the event, the DPC routines, interrupts, the test threads and the main program of
  \<^verbatim>\<open>BLUE_KERNEL/BlueKernel_Lvl1.c\<close>.
\<close>

section \<open>Mutex and event\<close>

definition AcquireMutex_v1 :: "kernel_v1 \<Rightarrow> kernel_v1 res" where
  "AcquireMutex_v1 s =
     (if k_irql s \<noteq> PASSIVE_LEVEL then Inl (Bugcheck ''AcquireMutex must occur at PASSIVE_LEVEL'')
      else if \<not> vm_locked (k_mutex s)
      then Inr (k_mutex_update (\<lambda>m. m\<lparr>vm_locked := True, vm_owner := k_current s\<rparr>) s)
      else bnd (deref (k_current s)) (\<lambda>c. bnd (get_v1 c s) (\<lambda>ct.
           bnd (case vm_owner (k_mutex s) of None \<Rightarrow> Inr s
                | Some ow \<Rightarrow> bnd (get_v1 ow s) (\<lambda>ot.
                    Inr (if v_priority ot < v_priority ct
                         then upd_v1 ow (v_priority_update (\<lambda>_. v_priority ct)) s else s)))
             (BlockCurrentThread_v1 MutexWaiters_v1))))"

definition ReleaseMutex_v1 :: "kernel_v1 \<Rightarrow> kernel_v1 res" where
  "ReleaseMutex_v1 s =
     (if vm_owner (k_mutex s) \<noteq> k_current s then Inl (Bugcheck ''Mutex released by non-owner'')
      else bnd (deref (k_current s)) (\<lambda>c. bnd (get_v1 c s) (\<lambda>ct.
        let s1 = upd_v1 c (v_priority_update (\<lambda>_. v_base_priority ct)) s
        in if vq_count (vm_waiters (k_mutex s)) = 0
           then Inr (k_mutex_update (\<lambda>m. m\<lparr>vm_locked := False, vm_owner := None\<rparr>) s1)
           else bnd (DequeueHighestPriority_v1 MutexWaiters_v1 s1) (\<lambda>(next, s2).
                bnd (deref next) (\<lambda>n. bnd (get_v1 n s2) (\<lambda>_.
                CheckPreemption_v1 n (set_state_v1 n THREAD_READY
                  (k_mutex_update (vm_owner_update (\<lambda>_. Some n)) s2))))))))"

definition InitEvent_v1 :: "kernel_v1 \<Rightarrow> kernel_v1" where
  "InitEvent_v1 s = InitWaitQueue_v1 EventWaiters_v1 (k_event_update (ve_signaled_update (\<lambda>_. False)) s)"

definition WaitEvent_v1 :: "kernel_v1 \<Rightarrow> kernel_v1 res" where
  "WaitEvent_v1 s =
     (if k_irql s \<noteq> PASSIVE_LEVEL then Inl (Bugcheck ''Wait above PASSIVE'')
      else if ve_signaled (k_event s) then Inr (k_event_update (ve_signaled_update (\<lambda>_. False)) s)
      else BlockCurrentThread_v1 EventWaiters_v1 s)"

definition SignalEvent_v1 :: "kernel_v1 \<Rightarrow> kernel_v1 res" where
  "SignalEvent_v1 s =
     (if k_irql s \<noteq> DISPATCH_LEVEL then Inl (Bugcheck ''Signal must occur at DISPATCH_LEVEL'')
      else let s1 = k_event_update (ve_signaled_update (\<lambda>_. True)) s
           in if vq_count (ve_waiters (k_event s1)) > 0
              then bnd (WakeOne_v1 EventWaiters_v1 s1) (\<lambda>s2.
                   Inr (k_event_update (ve_signaled_update (\<lambda>_. False)) s2))
              else Inr s1)"

text \<open>
  The detector prints the blocked thread, the owner of the mutex and the first other thread that
  may run and has a higher priority than the owner; the answer is what it prints.
\<close>

definition DetectPriorityInversion_v1 :: "kernel_v1 \<Rightarrow> (nat \<times> nat \<times> nat) option" where
  "DetectPriorityInversion_v1 s =
     (case vm_owner (k_mutex s) of None \<Rightarrow> None
      | Some ow \<Rightarrow>
          let ths = k_threads s; is = [0..<k_thread_count s];
              medium = (\<lambda>i. find (\<lambda>j. v_state (ths ! j) \<in> {THREAD_READY, THREAD_RUNNING}
                          \<and> v_priority (ths ! j) > v_priority (ths ! ow) \<and> j \<noteq> i) is)
          in (case find (\<lambda>i. v_state (ths ! i) = THREAD_BLOCKED
                     \<and> v_priority (ths ! i) > v_priority (ths ! ow) \<and> medium i \<noteq> None) is of
                None \<Rightarrow> None | Some i \<Rightarrow> Some (i, ow, the (medium i))))"

section \<open>DPC routines and the drain loop\<close>

definition device_dpc :: "kernel_v1 \<Rightarrow> kernel_v1 res" where
  "device_dpc s = access_memory 2 s"

definition high_dpc :: "kernel_v1 \<Rightarrow> kernel_v1 res" where
  "high_dpc s = Inr s"

definition IoCompletionDpc_v1 :: "kernel_v1 \<Rightarrow> kernel_v1 res" where
  "IoCompletionDpc_v1 s = SignalEvent_v1 s"

fun run_dpc_v1 :: "DPC_ROUTINE \<Rightarrow> kernel_v1 \<Rightarrow> kernel_v1 res" where
  "run_dpc_v1 DeviceDpc_fn s = device_dpc s"
| "run_dpc_v1 HighDpc_fn s = high_dpc s"
| "run_dpc_v1 TimerDPC_fn s = TimerDPC_v1 s"
| "run_dpc_v1 IoCompletionDpc_fn s = IoCompletionDpc_v1 s"

text \<open>What no routine touches: levels and the DPC ring, and the number of threads.\<close>

definition frame_v1 :: "kernel_v1 \<Rightarrow> IRQL list \<times> int \<times> IRQL \<times> DPC_ROUTINE option list \<times> nat \<times> nat \<times> nat \<times> nat" where
  "frame_v1 s = (k_irql_stack s, k_irql_top s, k_irql s, k_dpc_queue s, k_dpc_head s, k_dpc_tail s,
     k_dpc_count s, k_thread_count s)"

lemma frame_v1_upd [simp]:
  "frame_v1 (upd_v1 t f s) = frame_v1 s" "frame_v1 (set_state_v1 t st s) = frame_v1 s"
  "frame_v1 (request_reschedule s) = frame_v1 s" "frame_v1 (upd_wq_v1 q g s) = frame_v1 s"
  "frame_v1 (k_event_update h s) = frame_v1 s" "frame_v1 (k_mutex_update j s) = frame_v1 s"
  by (cases q; simp add: frame_v1_def upd_v1_def set_state_v1_def request_reschedule_def)+

lemma CheckPreemption_v1_frame: "CheckPreemption_v1 t s = Inr s' \<Longrightarrow> frame_v1 s' = frame_v1 s"
  by (auto simp: CheckPreemption_v1_def res_simps split: option.splits)

lemma WakeOne_v1_frame: "WakeOne_v1 q s = Inr s' \<Longrightarrow> frame_v1 s' = frame_v1 s"
  by (auto simp: WakeOne_v1_def DequeueHighestPriority_v1_def Let_def res_simps
      dest!: CheckPreemption_v1_frame split: if_splits)

lemma run_dpc_v1_frame: "run_dpc_v1 r s = Inr s' \<Longrightarrow> frame_v1 s' = frame_v1 s"
  by (cases r) (auto simp: device_dpc_def high_dpc_def access_memory_def TimerDPC_v1_def
      IoCompletionDpc_v1_def SignalEvent_v1_def Let_def res_simps dest!: WakeOne_v1_frame
      split: option.splits if_splits)

function drain_v1 :: "kernel_v1 \<Rightarrow> kernel_v1 res" where
  "drain_v1 s =
     (if k_dpc_count s > 0
      then bnd (deref (k_dpc_queue s ! k_dpc_head s)) (\<lambda>r.
           bnd (run_dpc_v1 r (s\<lparr>k_dpc_head := (k_dpc_head s + 1) mod MAX_QUEUE,
                               k_dpc_count := k_dpc_count s - 1\<rparr>)) (\<lambda>s'. drain_v1 s'))
      else Inr s)"
  by pat_completeness auto
termination
proof (relation "measure k_dpc_count")
  fix s r s'
  assume "0 < k_dpc_count s"
    "run_dpc_v1 r (s\<lparr>k_dpc_head := (k_dpc_head s + 1) mod MAX_QUEUE, k_dpc_count := k_dpc_count s - 1\<rparr>) = Inr s'"
  then show "(s', s) \<in> measure k_dpc_count"
    using run_dpc_v1_frame by (fastforce simp: frame_v1_def)
qed simp

declare drain_v1.simps [simp del]

definition drain_dpc_queue :: "kernel_v1 \<Rightarrow> kernel_v1 res" where
  "drain_dpc_queue s = (if k_irql s \<noteq> DISPATCH_LEVEL then Inr s else drain_v1 s)"

text \<open>After a drain the level is \<^verbatim>\<open>PASSIVE_LEVEL\<close>, whatever the stack holds.\<close>

definition pop_irql :: "kernel_v1 \<Rightarrow> kernel_v1 res" where
  "pop_irql s =
     (if k_irql_top s < 0 then Inl (Bugcheck ''IRQL stack underflow'')
      else let old_level = k_irql s;
               new_level = (if k_irql_top s - 1 \<ge> 0 then k_irql_stack s ! nat (k_irql_top s - 1)
                            else PASSIVE_LEVEL);
               s1 = s\<lparr>k_irql_top := k_irql_top s - 1, k_irql := new_level\<rparr>
           in if old_level > DISPATCH_LEVEL \<and> new_level < DISPATCH_LEVEL
              then bnd (drain_dpc_queue (s1\<lparr>k_irql := DISPATCH_LEVEL\<rparr>))
                     (\<lambda>s2. Inr (s2\<lparr>k_irql := PASSIVE_LEVEL\<rparr>))
              else Inr s1)"

section \<open>Interrupts\<close>

definition device_isr :: "kernel_v1 \<Rightarrow> kernel_v1 res" where
  "device_isr s = queue_dpc DeviceDpc_fn s"

definition high_isr :: "kernel_v1 \<Rightarrow> kernel_v1 res" where
  "high_isr s = queue_dpc HighDpc_fn s"

definition TimerIsr_v1 :: "kernel_v1 \<Rightarrow> kernel_v1 res" where
  "TimerIsr_v1 s = queue_dpc TimerDPC_fn s"

lemma push_irql_top:
  "push_irql l s = Inr s' \<Longrightarrow> k_irql_top s < 7 \<and> k_irql_top s' = k_irql_top s + 1"
  by (auto simp: push_irql_def split: if_splits)

function (sequential) trigger_interrupt :: "INTERRUPT \<Rightarrow> kernel_v1 \<Rightarrow> kernel_v1 res"
  and run_isr_v1 :: "ISR_ROUTINE \<Rightarrow> kernel_v1 \<Rightarrow> kernel_v1 res"
  and low_isr :: "kernel_v1 \<Rightarrow> kernel_v1 res" where
  "trigger_interrupt i s =
     (if k_irql_top s \<ge> 0 \<and> irql i \<le> k_irql s then Inr s
      else bnd (push_irql (irql i) s) (\<lambda>s1. bnd (run_isr_v1 (isr i) s1) (\<lambda>s2. pop_irql s2)))"
| "run_isr_v1 DeviceIsr_fn s = device_isr s"
| "run_isr_v1 HighIsr_fn s = high_isr s"
| "run_isr_v1 TimerIsr_fn s = TimerIsr_v1 s"
| "run_isr_v1 LowIsr_fn s = low_isr s"
| "low_isr s = bnd (trigger_interrupt \<lparr>irql = MACHINE_CHECK, isr = HighIsr_fn\<rparr> s)
     (\<lambda>s1. queue_dpc DeviceDpc_fn s1)"
  by pat_completeness auto
termination
  by (relation "measure (\<lambda>x. case x of
    Inl (i, s) \<Rightarrow> nat (3 * (8 - k_irql_top s))
  | Inr (Inl (r, s)) \<Rightarrow> nat (3 * (8 - k_irql_top s)) + 2
  | Inr (Inr s) \<Rightarrow> nat (3 * (8 - k_irql_top s)) + 1)")
    (auto dest!: push_irql_top)

declare trigger_interrupt.simps [simp del]

definition StartIoOperation_v1 :: "kernel_v1 \<Rightarrow> kernel_v1 res" where
  "StartIoOperation_v1 s =
     bnd (push_irql DIRQL s) (\<lambda>s1. bnd (queue_dpc IoCompletionDpc_fn s1) pop_irql)"

section \<open>The test threads and the main program\<close>

definition set_pc_v1 :: "nat \<Rightarrow> int \<Rightarrow> kernel_v1 \<Rightarrow> kernel_v1" where
  "set_pc_v1 t pc = upd_v1 t (v_pc_update (\<lambda>_. pc))"

definition terminate_v1 :: "nat \<Rightarrow> kernel_v1 \<Rightarrow> kernel_v1" where
  "terminate_v1 t s = request_reschedule (set_state_v1 t THREAD_TERMINATED s)"

definition IdleThread_v1 :: "nat \<Rightarrow> kernel_v1 \<Rightarrow> kernel_v1 res" where
  "IdleThread_v1 t s = Inr s"

definition Thread_A_v1 :: "nat \<Rightarrow> kernel_v1 \<Rightarrow> kernel_v1 res" where
  "Thread_A_v1 t s = bnd (get_v1 t s) (\<lambda>th.
     if v_pc th = 0 then Inr (set_pc_v1 t 1 s)
     else if v_pc th = 1 then Inr (set_pc_v1 t 2 s)
     else if v_pc th = 2 then Inr (terminate_v1 t s) else Inr s)"

definition Thread_B_v1 :: "nat \<Rightarrow> kernel_v1 \<Rightarrow> kernel_v1 res" where
  "Thread_B_v1 t s = bnd (get_v1 t s) (\<lambda>th.
     if v_pc th = 0 then Inr (set_pc_v1 t 1 s)
     else if v_pc th = 1 then bnd (StartIoOperation_v1 (set_pc_v1 t 2 s)) WaitEvent_v1
     else if v_pc th = 2 then Inr (terminate_v1 t s) else Inr s)"

definition Thread_L_v1 :: "nat \<Rightarrow> kernel_v1 \<Rightarrow> kernel_v1 res" where
  "Thread_L_v1 t s = bnd (get_v1 t s) (\<lambda>th.
     if v_pc th = 0 then bnd (AcquireMutex_v1 s) (\<lambda>s1. Inr (set_pc_v1 t 1 s1))
     else if v_pc th = 1 then Inr (set_pc_v1 t 2 s)
     else if v_pc th = 2 then bnd (ReleaseMutex_v1 s) (\<lambda>s1. Inr (terminate_v1 t s1)) else Inr s)"

definition Thread_H_v1 :: "nat \<Rightarrow> kernel_v1 \<Rightarrow> kernel_v1 res" where
  "Thread_H_v1 t s = bnd (get_v1 t s) (\<lambda>th.
     if v_pc th = 0 then bnd (AcquireMutex_v1 s) (\<lambda>s1. Inr (set_pc_v1 t 1 s1))
     else if v_pc th = 1
     then bnd (ReleaseMutex_v1 s) (\<lambda>s1. Inr (set_pc_v1 t 2 (terminate_v1 t s1))) else Inr s)"

definition Thread_M_v1 :: "nat \<Rightarrow> kernel_v1 \<Rightarrow> kernel_v1 res" where
  "Thread_M_v1 t s = bnd (get_v1 t s) (\<lambda>th.
     if v_pc th = 0 then Inr (set_pc_v1 t 1 s)
     else if v_pc th = 1 then Inr (set_state_v1 t THREAD_TERMINATED s) else Inr s)"

fun run_routine_v1 :: "ThreadRoutine \<Rightarrow> nat \<Rightarrow> kernel_v1 \<Rightarrow> kernel_v1 res" where
  "run_routine_v1 IdleThread_fn t s = IdleThread_v1 t s"
| "run_routine_v1 Thread_A_fn t s = Thread_A_v1 t s"
| "run_routine_v1 Thread_B_fn t s = Thread_B_v1 t s"
| "run_routine_v1 Thread_L_fn t s = Thread_L_v1 t s"
| "run_routine_v1 Thread_M_fn t s = Thread_M_v1 t s"
| "run_routine_v1 Thread_H_fn t s = Thread_H_v1 t s"

definition run_current_v1 :: "kernel_v1 \<Rightarrow> kernel_v1 res" where
  "run_current_v1 s = bnd (deref (k_current s)) (\<lambda>c. bnd (get_v1 c s) (\<lambda>ct.
     bnd (deref (v_routine ct)) (\<lambda>r. run_routine_v1 r c s)))"

definition tick_v1 :: "kernel_v1 \<Rightarrow> ((nat \<times> nat \<times> nat) option \<times> kernel_v1) res" where
  "tick_v1 s =
     bnd (trigger_interrupt \<lparr>irql = DIRQL, isr = TimerIsr_fn\<rparr> s) (\<lambda>s.
     bnd (case k_current s of None \<Rightarrow> Inr s
          | Some c \<Rightarrow> bnd (get_v1 c s) (\<lambda>ct. if v_state ct = THREAD_RUNNING then run_current_v1 s else Inr s)) (\<lambda>s.
     if k_resched s \<and> k_irql s < DISPATCH_LEVEL
     then bnd (Schedule_v1 s) (\<lambda>s. let s = k_resched_update (\<lambda>_. False) s
            in Inr (DetectPriorityInversion_v1 s, s))
     else Inr (None, s)))"

fun ticks_v1 :: "nat \<Rightarrow> kernel_v1 \<Rightarrow> ((nat \<times> nat \<times> nat) option list \<times> kernel_v1) res" where
  "ticks_v1 0 s = Inr ([], s)"
| "ticks_v1 (Suc n) s = bnd (tick_v1 s) (\<lambda>(r, s). bnd (ticks_v1 n s) (\<lambda>(rs, s). Inr (r # rs, s)))"

definition main_v1 :: "kernel_v1 \<Rightarrow> ((nat \<times> nat \<times> nat) option list \<times> kernel_v1) res" where
  "main_v1 s =
     bnd (kernel_wait s) (\<lambda>s.
     bnd (trigger_interrupt \<lparr>irql = DIRQL, isr = LowIsr_fn\<rparr> s) (\<lambda>s.
     bnd (CreateThread_v1 Thread_L_fn 1 s) (\<lambda>s.
     bnd (CreateThread_v1 IdleThread_fn 0 s) (\<lambda>s.
     bnd (Schedule_v1 s) (\<lambda>s.
     bnd (run_current_v1 s) (\<lambda>s.
     bnd (CreateThread_v1 Thread_M_fn 3 s) (\<lambda>s.
     bnd (CreateThread_v1 Thread_H_fn 5 s) (\<lambda>s.
     ticks_v1 10 (InitEvent_v1 s)))))))))"

end
