(* ===== verification/L1_Props.thy ===== *)
theory L1_Props
  imports L1_Main BK_Props
begin

text \<open>
  Properties of the first version of the kernel simulator, \<^verbatim>\<open>BLUE_KERNEL/BlueKernel_Lvl1.c\<close>, and its
  scan of the thread table as the specification of the ready queues of the third version.
\<close>

section \<open>The scan\<close>

lemma pick_scan_None:
  "pick_scan ths is best = None \<longleftrightarrow> best = None \<and> (\<forall>i \<in> set is. v_state (ths ! i) \<noteq> THREAD_READY)"
  by (induction ths "is" best rule: pick_scan.induct) auto

lemma pick_scan_Some:
  assumes "pick_scan ths is best = Some t"
  shows "best = Some t \<or> t \<in> set is \<and> v_state (ths ! t) = THREAD_READY"
    and "\<forall>i \<in> set is. v_state (ths ! i) = THREAD_READY \<longrightarrow> v_priority (ths ! i) \<le> v_priority (ths ! t)"
    and "\<forall>b. best = Some b \<longrightarrow> v_priority (ths ! b) \<le> v_priority (ths ! t)"
  using assms
  by (induction ths "is" best rule: pick_scan.induct)
    (auto split: if_splits option.splits)

section \<open>The ready queues implement the scan\<close>

text \<open>
  The table the scan would see: a thread of the third version is ready when it is in a queue and
  not terminated.
\<close>

definition scan_view :: "kernel \<Rightarrow> kernel_v1" where
  "scan_view s = initial_v1\<lparr>k_threads := map (\<lambda>i. zero_thread_v1\<lparr>v_priority := t_priority (g_thread_table s ! i),
       v_state := (if i \<in> set (ready_flat s) \<and> \<not> terminated i s then THREAD_READY else THREAD_BLOCKED)\<rparr>)
       [0..<length (g_thread_table s)],
     k_thread_count := length (g_thread_table s)\<rparr>"

text \<open>Every queued thread is in the queue of its priority.\<close>

definition queued_by_priority :: "kernel \<Rightarrow> bool" where
  "queued_by_priority s \<longleftrightarrow> (\<forall>p < MAX_PRIORITY. \<forall>t \<in> set (ready_list s p).
     t_priority (g_thread_table s ! t) = int p)"

lemma scan_view_thread:
  assumes "i < length (g_thread_table s)"
  shows "v_priority (k_threads (scan_view s) ! i) = t_priority (g_thread_table s ! i)"
    "v_state (k_threads (scan_view s) ! i) = THREAD_READY \<longleftrightarrow> i \<in> set (ready_flat s) \<and> \<not> terminated i s"
  using assms by (simp_all add: scan_view_def)

lemma ready_flat_sorted:
  assumes "queued_by_priority s"
  shows "sorted_wrt (\<lambda>t u. t_priority (g_thread_table s ! u) \<le> t_priority (g_thread_table s ! t)) (ready_flat s)"
proof -
  let ?R = "\<lambda>t u. t_priority (g_thread_table s ! u) \<le> t_priority (g_thread_table s ! t)"
  have "sorted_wrt ?R (concat (map (ready_list s) (rev [0..<n])))" if "n \<le> MAX_PRIORITY" for n
    using that
  proof (induction n)
    case (Suc n)
    have here: "t_priority (g_thread_table s ! t) = int n" if "t \<in> set (ready_list s n)" for t
      using assms Suc.prems that by (simp add: queued_by_priority_def)
    have below: "t_priority (g_thread_table s ! u) < int n" if "m < n" "u \<in> set (ready_list s m)" for m u
    proof -
      have "t_priority (g_thread_table s ! u) = int m" using assms Suc.prems that by (simp add: queued_by_priority_def)
      then show ?thesis using that(1) by simp
    qed
    have "sorted_wrt ?R (ready_list s n)"
      by (rule sorted_wrt_mono_rel [of _ "\<lambda>_ _. True"]) (simp_all add: here)
    moreover have "sorted_wrt ?R (concat (map (ready_list s) (rev [0..<n])))" using Suc by simp
    moreover have "?R t u" if "t \<in> set (ready_list s n)" "u \<in> set (concat (map (ready_list s) (rev [0..<n])))" for t u
      using here [OF that(1)] below that(2) by fastforce
    ultimately show ?case by (simp add: sorted_wrt_append)
  qed simp
  then show ?thesis by (simp add: ready_flat_def)
qed

lemma ready_flat_bound: "ready_wf s \<Longrightarrow> t \<in> set (ready_flat s) \<Longrightarrow> t < length (g_thread_table s)"
  by (auto simp: ready_flat_def ready_wf_def)

lemma dropWhile_first:
  "dropWhile P xs = x # ys \<Longrightarrow> \<not> P x \<and> x \<in> set xs \<and> (\<forall>y \<in> set xs. \<not> P y \<longrightarrow> y = x \<or> y \<in> set ys)"
  by (induction xs) (auto split: if_splits)

lemma sorted_wrt_dropWhile: "sorted_wrt R xs \<Longrightarrow> sorted_wrt R (dropWhile P xs)"
  by (induction xs) auto

lemma scan_agrees:
  assumes "sched_wf s" "queued_by_priority s"
  shows "case dropWhile (\<lambda>t. terminated t s) (ready_flat s) of
      [] \<Rightarrow> PickNextThread_v1 (scan_view s) = None
    | t # ts \<Rightarrow> \<exists>u. PickNextThread_v1 (scan_view s) = Some u
        \<and> t_priority (g_thread_table s ! t) = t_priority (g_thread_table s ! u)"
proof (cases "dropWhile (\<lambda>t. terminated t s) (ready_flat s)")
  case Nil
  then have "\<forall>t \<in> set (ready_flat s). terminated t s" by simp
  then have "PickNextThread_v1 (scan_view s) = None"
    by (simp add: PickNextThread_v1_def pick_scan_None scan_view_def)
  then show ?thesis unfolding Nil by simp
next
  case (Cons t ts)
  note first = dropWhile_first [OF Cons]
  have wf: "ready_wf s" using assms(1) by (simp add: sched_wf_def)
  have t: "t < length (g_thread_table s)" using ready_flat_bound [OF wf] first by blast
  let ?n = "length (g_thread_table s)"
  have n: "k_thread_count (scan_view s) = ?n" by (simp add: scan_view_def)
  have "PickNextThread_v1 (scan_view s) \<noteq> None"
    using first t scan_view_thread [OF t] by (auto simp: PickNextThread_v1_def pick_scan_None n)
  then obtain u where u: "pick_scan (k_threads (scan_view s)) [0..<?n] None = Some u"
    by (auto simp: PickNextThread_v1_def n)
  note su = pick_scan_Some [OF u]
  then have ul: "u < ?n" and ur: "u \<in> set (ready_flat s)" "\<not> terminated u s" using scan_view_thread by auto
  have "t_priority (g_thread_table s ! t) \<le> t_priority (g_thread_table s ! u)"
    using su(2) t first scan_view_thread [OF t] scan_view_thread(1) [OF ul] by fastforce
  moreover have "u = t \<or> u \<in> set ts" using first ur by blast
  then have "t_priority (g_thread_table s ! u) \<le> t_priority (g_thread_table s ! t)"
    using sorted_wrt_dropWhile [OF ready_flat_sorted [OF assms(2)], of "\<lambda>t. terminated t s"] Cons by auto
  ultimately show ?thesis using Cons u by (simp add: PickNextThread_v1_def n)
qed

section \<open>Ticks\<close>

definition single_runner :: "kernel_v1 \<Rightarrow> bool" where
  "single_runner s \<longleftrightarrow> (\<forall>i < length (k_threads s). v_state (k_threads s ! i) = THREAD_RUNNING \<longrightarrow> k_current s = Some i)"

lemma nth_upd: "i < length xs \<Longrightarrow> xs[t := y] ! i = (if t = i then y else xs ! i)"
  by (cases "t < length xs") auto

named_theorems v1_keeps \<open>operations that keep \<open>single_runner\<close>\<close>

lemma single_runner_upd [simp]:
  "(\<And>th. v_state (f th) = v_state th) \<Longrightarrow> single_runner (upd_v1 t f s) = single_runner s"
  by (simp add: single_runner_def upd_v1_def nth_upd)

lemma single_runner_other [simp]:
  "single_runner (request_reschedule s) = single_runner s" "single_runner (upd_wq_v1 q g s) = single_runner s"
  "single_runner (k_event_update h s) = single_runner s" "single_runner (k_mutex_update j s) = single_runner s"
  "single_runner (k_resched_update r s) = single_runner s" "single_runner (set_pc_v1 t pc s) = single_runner s"
  "single_runner (s\<lparr>k_irql := l\<rparr>) = single_runner s" "single_runner (s\<lparr>k_irql_top := n\<rparr>) = single_runner s"
  "single_runner (s\<lparr>k_irql_top := n, k_irql := l\<rparr>) = single_runner s"
  "single_runner (s\<lparr>k_dpc_head := h0, k_dpc_count := c\<rparr>) = single_runner s"
  by (cases q; simp add: single_runner_def request_reschedule_def set_pc_v1_def upd_v1_def nth_upd)+

lemma single_runner_set_state: "single_runner s \<Longrightarrow> st \<noteq> THREAD_RUNNING \<Longrightarrow> single_runner (set_state_v1 t st s)"
  by (auto simp: single_runner_def set_state_v1_def upd_v1_def nth_upd)

lemma CheckPreemption_v1_running [v1_keeps]: "CheckPreemption_v1 t s = Inr s' \<Longrightarrow> single_runner s' = single_runner s"
  by (auto simp: CheckPreemption_v1_def res_simps split: option.splits if_splits)

lemma Dequeue_v1_running [v1_keeps]: "DequeueHighestPriority_v1 q s = Inr (t, s') \<Longrightarrow> single_runner s' = single_runner s"
  by (auto simp: DequeueHighestPriority_v1_def Let_def res_simps split: if_splits)

lemma Block_v1_running: "BlockCurrentThread_v1 q s = Inr s' \<Longrightarrow> single_runner s \<Longrightarrow> single_runner s'"
  by (auto simp: BlockCurrentThread_v1_def EnqueueWaiter_v1_def res_simps single_runner_set_state
      split: option.splits if_splits)

lemma WakeOne_v1_running: "WakeOne_v1 q s = Inr s' \<Longrightarrow> single_runner s \<Longrightarrow> single_runner s'"
  by (auto simp: WakeOne_v1_def res_simps single_runner_set_state dest!: v1_keeps split: if_splits)

lemma run_dpc_v1_running: "run_dpc_v1 r s = Inr s' \<Longrightarrow> single_runner s \<Longrightarrow> single_runner s'"
  by (cases r) (auto simp: device_dpc_def high_dpc_def access_memory_def TimerDPC_v1_def IoCompletionDpc_v1_def
      SignalEvent_v1_def Let_def res_simps dest!: WakeOne_v1_running split: option.splits if_splits)

lemma Schedule_v1_running:
  assumes "Schedule_v1 s = Inr s'" "single_runner s"
  shows "single_runner s'"
proof -
  have step: "single_runner (k_current_update (\<lambda>_. Some n) (set_state_v1 n THREAD_RUNNING t))"
    if "\<forall>i < length (k_threads t). v_state (k_threads t ! i) \<noteq> THREAD_RUNNING" for n t
    using that by (auto simp: single_runner_def set_state_v1_def upd_v1_def nth_upd)
  have none: "\<forall>i < length (k_threads t). v_state (k_threads t ! i) \<noteq> THREAD_RUNNING"
    if "t = (case k_current s of None \<Rightarrow> s
        | Some c \<Rightarrow> if v_state (k_threads s ! c) = THREAD_RUNNING then set_state_v1 c THREAD_READY s else s)" for t
    using assms(2) that
    by (auto simp: single_runner_def set_state_v1_def upd_v1_def nth_upd split: option.splits if_splits)
  show ?thesis
  proof (cases "k_irql s \<ge> DISPATCH_LEVEL \<or> PickNextThread_v1 s = None \<or> k_current s = PickNextThread_v1 s")
    case True
    then show ?thesis using assms by (auto simp: Schedule_v1_def split: if_splits option.splits)
  next
    case False
    then obtain n where n: "PickNextThread_v1 s = Some n" by auto
    show ?thesis
      using assms(1) False n step [OF none [OF refl], of n]
      by (auto simp: Schedule_v1_def res_simps split: option.splits if_splits)
  qed
qed

section \<open>Between two ticks\<close>

text \<open>No level is held and no deferred call waits.\<close>

definition calm :: "kernel_v1 \<Rightarrow> bool" where
  "calm s \<longleftrightarrow> k_irql_top s = -1 \<and> k_irql s = PASSIVE_LEVEL \<and> k_dpc_count s = 0"

lemma calm_frame: "frame_v1 s' = frame_v1 s \<Longrightarrow> calm s' = calm s"
  by (simp add: calm_def frame_v1_def)

lemma drain_v1_result:
  "drain_v1 s = Inr s' \<Longrightarrow> k_dpc_count s' = 0 \<and> k_irql_top s' = k_irql_top s \<and> (single_runner s \<longrightarrow> single_runner s')"
proof (induction s arbitrary: s' rule: drain_v1.induct)
  case (1 s)
  show ?case
  proof (cases "0 < k_dpc_count s")
    case True
    let ?s = "s\<lparr>k_dpc_head := (k_dpc_head s + 1) mod MAX_QUEUE, k_dpc_count := k_dpc_count s - 1\<rparr>"
    from True "1.prems" obtain r s1 where
      r: "deref (k_dpc_queue s ! k_dpc_head s) = Inr r" "run_dpc_v1 r ?s = Inr s1" "drain_v1 s1 = Inr s'"
      by (subst (asm) drain_v1.simps) (auto simp: res_simps)
    from "1.IH" [OF True r] run_dpc_v1_frame [OF r(2)] run_dpc_v1_running [OF r(2)] show ?thesis
      by (auto simp: frame_v1_def)
  next
    case False
    with "1.prems" show ?thesis by (simp add: drain_v1.simps)
  qed
qed

text \<open>An interrupt that only queues a call and returns runs it at once.\<close>

lemma push_queue_pop:
  assumes "push_irql DIRQL s = Inr s1" "queue_dpc r s1 = Inr s2" "pop_irql s2 = Inr s3" "calm s"
  shows "calm s3" "single_runner s \<Longrightarrow> single_runner s3"
proof -
  have s2: "k_irql_top s2 = 0" "k_irql s2 = DIRQL" "single_runner s2 = single_runner s"
    using assms by (auto simp: push_irql_def queue_dpc_def calm_def single_runner_def split: if_splits)
  obtain s4 where s4: "drain_v1 (s2\<lparr>k_irql_top := -1, k_irql := DISPATCH_LEVEL\<rparr>) = Inr s4"
      "s3 = s4\<lparr>k_irql := PASSIVE_LEVEL\<rparr>"
    using assms(3) s2 by (auto simp: pop_irql_def drain_dpc_queue_def IRQL_order res_simps Let_def)
  from drain_v1_result [OF s4(1)] s4(2) s2 show "calm s3" "single_runner s \<Longrightarrow> single_runner s3"
    by (simp_all add: calm_def)
qed

definition steady_v1 :: "kernel_v1 \<Rightarrow> bool" where
  "steady_v1 s \<longleftrightarrow> calm s \<and> single_runner s"

lemma timer_steady:
  "trigger_interrupt \<lparr>irql = DIRQL, isr = TimerIsr_fn\<rparr> s = Inr s' \<Longrightarrow> steady_v1 s \<Longrightarrow> steady_v1 s'"
  using push_queue_pop
  by (auto simp: trigger_interrupt.simps TimerIsr_v1_def steady_v1_def calm_def [of s] res_simps split: if_splits)

lemma steady_v1_upd [simp]:
  "(\<And>th. v_state (f th) = v_state th) \<Longrightarrow> steady_v1 (upd_v1 t f s) = steady_v1 s"
  "steady_v1 (request_reschedule s) = steady_v1 s" "steady_v1 (upd_wq_v1 q g s) = steady_v1 s"
  "steady_v1 (k_event_update h s) = steady_v1 s" "steady_v1 (k_mutex_update j s) = steady_v1 s"
  "steady_v1 (k_resched_update r s) = steady_v1 s" "steady_v1 (set_pc_v1 t pc s) = steady_v1 s"
  using calm_frame [of "upd_v1 t f s" s] calm_frame [of "request_reschedule s" s] calm_frame [of "upd_wq_v1 q g s" s]
    calm_frame [of "k_event_update h s" s] calm_frame [of "k_mutex_update j s" s]
  by (simp_all add: steady_v1_def) (simp_all add: calm_def set_pc_v1_def upd_v1_def)

lemma steady_set_state: "steady_v1 s \<Longrightarrow> st \<noteq> THREAD_RUNNING \<Longrightarrow> steady_v1 (set_state_v1 t st s)"
  using calm_frame [of "set_state_v1 t st s" s] by (simp add: steady_v1_def single_runner_set_state)

lemma steady_terminate: "steady_v1 s \<Longrightarrow> steady_v1 (terminate_v1 t s)"
  by (simp add: terminate_v1_def steady_set_state)

lemma Block_v1_steady: "BlockCurrentThread_v1 q s = Inr s' \<Longrightarrow> steady_v1 s \<Longrightarrow> steady_v1 s'"
  by (auto simp: BlockCurrentThread_v1_def EnqueueWaiter_v1_def res_simps steady_set_state
      split: option.splits if_splits)

lemma CheckPreemption_v1_steady: "CheckPreemption_v1 t s = Inr s' \<Longrightarrow> steady_v1 s' = steady_v1 s"
  using CheckPreemption_v1_running CheckPreemption_v1_frame calm_frame by (metis steady_v1_def)

lemma Dequeue_v1_steady: "DequeueHighestPriority_v1 q s = Inr (t, s') \<Longrightarrow> steady_v1 s' = steady_v1 s"
  by (auto simp: DequeueHighestPriority_v1_def Let_def res_simps split: if_splits)

lemma AcquireMutex_v1_steady: "AcquireMutex_v1 s = Inr s' \<Longrightarrow> steady_v1 s \<Longrightarrow> steady_v1 s'"
  by (auto simp: AcquireMutex_v1_def res_simps dest!: Block_v1_steady split: option.splits if_splits)

lemma ReleaseMutex_v1_steady: "ReleaseMutex_v1 s = Inr s' \<Longrightarrow> steady_v1 s \<Longrightarrow> steady_v1 s'"
  by (auto simp: ReleaseMutex_v1_def Let_def res_simps steady_set_state
      dest!: CheckPreemption_v1_steady Dequeue_v1_steady split: if_splits)

lemma WaitEvent_v1_steady: "WaitEvent_v1 s = Inr s' \<Longrightarrow> steady_v1 s \<Longrightarrow> steady_v1 s'"
  by (auto simp: WaitEvent_v1_def dest!: Block_v1_steady split: if_splits)

lemma StartIo_v1_steady: "StartIoOperation_v1 s = Inr s' \<Longrightarrow> steady_v1 s \<Longrightarrow> steady_v1 s'"
  using push_queue_pop by (auto simp: StartIoOperation_v1_def steady_v1_def res_simps)

lemma run_routine_v1_steady: "run_routine_v1 r t s = Inr s' \<Longrightarrow> steady_v1 s \<Longrightarrow> steady_v1 s'"
  by (cases r) (auto simp: IdleThread_v1_def Thread_A_v1_def Thread_B_v1_def Thread_L_v1_def Thread_H_v1_def
      Thread_M_v1_def res_simps steady_terminate steady_set_state
      dest!: StartIo_v1_steady WaitEvent_v1_steady AcquireMutex_v1_steady ReleaseMutex_v1_steady split: if_splits)

lemma Schedule_v1_steady: "Schedule_v1 s = Inr s' \<Longrightarrow> steady_v1 s \<Longrightarrow> steady_v1 s'"
proof -
  assume s: "Schedule_v1 s = Inr s'" "steady_v1 s"
  then have "frame_v1 s' = frame_v1 s"
    by (auto simp: Schedule_v1_def res_simps split: option.splits if_splits) (simp_all add: frame_v1_def set_state_v1_def upd_v1_def)
  then show ?thesis using s Schedule_v1_running calm_frame by (metis steady_v1_def)
qed

lemma tick_v1_steady: "tick_v1 s = Inr (r, s') \<Longrightarrow> steady_v1 s \<Longrightarrow> steady_v1 s'"
  by (auto simp: tick_v1_def run_current_v1_def res_simps Let_def
      dest!: timer_steady run_routine_v1_steady Schedule_v1_steady split: option.splits if_splits)

lemma ticks_v1_steady: "ticks_v1 n s = Inr (rs, s') \<Longrightarrow> steady_v1 s \<Longrightarrow> steady_v1 s'"
  by (induction n arbitrary: s rs) (auto simp: res_simps dest!: tick_v1_steady)

text \<open>The state of the main program before its first tick: thread L runs and owns the mutex.\<close>

definition low_owns_mutex :: kernel_v1 where
  "low_owns_mutex = the_res initial_v1
     (bnd (CreateThread_v1 Thread_L_fn 1 initial_v1) (\<lambda>s. bnd (CreateThread_v1 IdleThread_fn 0 s) (\<lambda>s.
      bnd (Schedule_v1 s) (\<lambda>s. bnd (run_current_v1 s) (\<lambda>s. bnd (CreateThread_v1 Thread_M_fn 3 s) (\<lambda>s.
      CreateThread_v1 Thread_H_fn 5 s))))))"

section \<open>Properties\<close>

text \<open>
  C6: The ready queues of the third version choose a thread of the same priority as the scan of the
  first version does over the ready threads, and choose the idle thread when the scan finds none,
  as long as every queued thread is in the queue of its priority and priority 31 is not used.
\<close>

theorem ready_queues_refine_scan:
  assumes "sched_wf s" "queued_by_priority s"
  shows "\<exists>s'. case PickNextThread_v1 (scan_view s) of
      None \<Rightarrow> PickNextThread s = Some (Inr (idle_thread s, s'))
    | Some u \<Rightarrow> \<exists>t. PickNextThread s = Some (Inr (Some t, s'))
        \<and> t_priority (g_thread_table s ! t) = t_priority (g_thread_table s ! u)"
proof -
  obtain s' where "PickNextThread s = Some (Inr (case dropWhile (\<lambda>t. terminated t s) (ready_flat s) of
      [] \<Rightarrow> idle_thread s | t # ts \<Rightarrow> Some t, s'))"
    using ready.pick_first [OF assms(1) refl] by blast
  with scan_agrees [OF assms] show ?thesis by (auto split: list.splits)
qed

theorem ready_queues_refine_scan_witness:
  "PickNextThread_v1 (scan_view two_threads) = Some 1
   \<and> (\<exists>t s'. PickNextThread two_threads = Some (Inr (Some t, s')) \<and> t_priority (g_thread_table two_threads ! t) = 5)"
proof -
  have scan: "PickNextThread_v1 (scan_view two_threads) = Some 1" by code_simp
  have "\<forall>p \<in> set [0..<MAX_PRIORITY]. \<forall>t \<in> set (ready_list two_threads p). t_priority (g_thread_table two_threads ! t) = int p"
    by code_simp
  then have "queued_by_priority two_threads" by (simp add: queued_by_priority_def)
  moreover have "t_priority (g_thread_table two_threads ! 1) = 5" by code_simp
  ultimately show ?thesis using ready_queues_refine_scan [OF two_threads_wf] scan by auto
qed

text \<open>
  C26: A timer tick of the first version keeps the rule of one running thread: afterwards a running
  thread is the current one, no interrupt level is held and no deferred call waits, whatever the
  current thread does in its step, a blocking wait or an input/output operation included.
\<close>

theorem tick_v1_invariant:
  assumes "tick_v1 s = Inr (r, s')" "single_runner s" "calm s"
  shows "single_runner s' \<and> calm s'"
  using tick_v1_steady [OF assms(1)] assms(2,3) by (simp add: steady_v1_def)

theorem tick_v1_invariant_witness:
  "\<exists>r s. tick_v1 low_owns_mutex = Inr (r, s) \<and> single_runner s \<and> calm s"
proof -
  have "case tick_v1 low_owns_mutex of Inl e \<Rightarrow> False | Inr x \<Rightarrow> True" by code_simp
  then obtain r s where "tick_v1 low_owns_mutex = Inr (r, s)" by (auto split: sum.splits)
  moreover have "single_runner low_owns_mutex" "calm low_owns_mutex" by code_simp+
  ultimately show ?thesis using tick_v1_invariant by blast
qed

text \<open>
  The main program of the first version returns, every test thread terminated, the idle thread
  running and the mutex free, and in none of its ten ticks does the detector report a priority
  inversion: the boost of the owner prevents it.
\<close>

theorem main_v1_outcome:
  "case main_v1 initial_v1 of Inr (reports, s) \<Rightarrow>
      reports = replicate 10 None
      \<and> map v_state (take 4 (k_threads s)) = [THREAD_TERMINATED, THREAD_RUNNING, THREAD_TERMINATED, THREAD_TERMINATED]
      \<and> k_current s = Some 1 \<and> \<not> vm_locked (k_mutex s) \<and> k_irql s = PASSIVE_LEVEL \<and> k_dpc_count s = 0
   | _ \<Rightarrow> False"
  by code_simp

end
