(* ===== verification/L2_Kernel.thy ===== *)
theory L2_Kernel
  imports BK_Main
begin

text \<open>
  The second version of the kernel simulator, \<^verbatim>\<open>BLUE_KERNEL/BlueKernel_lvl2.c\<close>, on the state of the
  third one, whose ready queues, bit table and \<^verbatim>\<open>waiting_mutex\<close> fields it does not have and leaves
  alone. Interrupt levels, queueing, objects and handles, wait queues and the event are the same
  text in both versions and shared; the definitions here are the functions that differ, and those
  that call them. Its one mutex handle \<^verbatim>\<open>g_hMutex\<close> is \<open>g_hMutex1\<close>.
\<close>

section \<open>Processes, threads and scheduling\<close>

text \<open>No table is checked for overflow; a write past its end is undefined.\<close>

definition CreateProcess_v2 :: "kernel \<Rightarrow> (nat \<times> kernel) res" where
  "CreateProcess_v2 s = bnd (get_process (process_count s) s) (\<lambda>_.
     Inr (process_count s, upd_process (process_count s) (\<lambda>pr. pr\<lparr>p_pid := int (process_count s + 1),
       p_exist := True, p_thread_count := 0, p_handle_table := replicate MAX_HANDLES None\<rparr>)
       (process_count_update (\<lambda>n. n + 1) s)))"

definition CreateThread_v2 :: "nat \<Rightarrow> ThreadRoutine \<Rightarrow> int \<Rightarrow> kernel \<Rightarrow> kernel res" where
  "CreateThread_v2 process tdR priority s =
     (let t = g_thread_count s
      in bnd (get_thread t s) (\<lambda>_. bnd (get_process process s) (\<lambda>pr.
         bnd (aread (p_threads pr) (p_thread_count pr)) (\<lambda>_.
         CheckPreemption t (upd_process process (\<lambda>pr. pr\<lparr>p_threads := (p_threads pr)[p_thread_count pr := Some t],
             p_thread_count := p_thread_count pr + 1\<rparr>)
           (upd_thread t (\<lambda>th. th\<lparr>t_id := int t + 1, t_priority := priority, t_base_priority := priority,
             t_quantum := 3, t_state := THREAD_READY, t_tRoutine := Some tdR, t_owner := Some process\<rparr>)
           (g_thread_count_update (\<lambda>n. n + 1) s)))))))"

text \<open>The first ready thread of the highest priority, the idle thread left out.\<close>

fun pick_scan_v2 :: "kernel \<Rightarrow> nat list \<Rightarrow> nat option \<Rightarrow> nat option" where
  "pick_scan_v2 s [] best = best"
| "pick_scan_v2 s (i # is) best =
     pick_scan_v2 s is
       (if idle_thread s \<noteq> Some i \<and> t_state (g_thread_table s ! i) = THREAD_READY
          \<and> (case best of None \<Rightarrow> True
             | Some b \<Rightarrow> t_priority (g_thread_table s ! i) > t_priority (g_thread_table s ! b))
        then Some i else best)"

definition PickNextThread_v2 :: "kernel \<Rightarrow> nat option" where
  "PickNextThread_v2 s = pick_scan_v2 s [0..<g_thread_count s] None"

definition Schedule_v2 :: "kernel \<Rightarrow> kernel res" where
  "Schedule_v2 s =
     (if current_irql s \<ge> DISPATCH_LEVEL then Inr s
      else let next = (case PickNextThread_v2 s of None \<Rightarrow> idle_thread s | Some t \<Rightarrow> Some t)
           in if current_thread s = next then Inr s
              else bnd (case current_thread s of None \<Rightarrow> Inr s
                        | Some c \<Rightarrow> bnd (get_thread c s) (\<lambda>ct.
                            Inr (if t_state ct = THREAD_RUNNING then set_state c THREAD_READY s else s))) (\<lambda>s1.
                   bnd (deref next) (\<lambda>n. bnd (get_thread n s1) (\<lambda>_.
                   Inr (current_thread_update (\<lambda>_. Some n) (set_state n THREAD_RUNNING s1))))))"

definition TimerDPC_v2 :: "kernel \<Rightarrow> kernel res" where
  "TimerDPC_v2 s =
     (case current_thread s of None \<Rightarrow> Inr s
      | Some c \<Rightarrow> bnd (get_thread c s) (\<lambda>ct.
          if t_state ct \<noteq> THREAD_RUNNING then Inr s
          else if t_quantum ct - 1 \<le> 0
          then Inr ((upd_thread c (t_quantum_update (\<lambda>_. 3)) s)\<lparr>reschedule_requested := True\<rparr>)
          else Inr (upd_thread c (t_quantum_update (\<lambda>q. q - 1)) s)))"

section \<open>Mutexes and waking\<close>

definition AcquireMutex_v2 :: "nat \<Rightarrow> kernel \<Rightarrow> kernel res" where
  "AcquireMutex_v2 m s =
     (if current_irql s \<noteq> PASSIVE_LEVEL
      then Inl (Bugcheck ''AcquireMutex must occur at PASSIVE_LEVEL'')
      else bnd (get_mutex m s) (\<lambda>mx. bnd (deref (current_thread s)) (\<lambda>c. bnd (get_thread c s) (\<lambda>ct.
        if \<not> m_locked mx
        then Inr (upd_thread c (\<lambda>th. th\<lparr>t_owned_mutex := Some m\<rparr>)
                   (upd_mutex m (\<lambda>mx. mx\<lparr>m_locked := True, m_owner := Some c\<rparr>) s))
        else bnd (case m_owner mx of None \<Rightarrow> Inr s
                  | Some ow \<Rightarrow> bnd (get_thread ow s) (\<lambda>ot.
                      Inr (if t_priority ot < t_priority ct then set_priority ow (t_priority ct) s else s))) (\<lambda>s1.
             bnd (ObReferenceObject (MutexObj m) s1) (\<lambda>s2.
             BlockCurrentThread (MutexWaiters m) s2))))))"

definition ReleaseMutex_v2 :: "nat \<Rightarrow> kernel \<Rightarrow> kernel res" where
  "ReleaseMutex_v2 m s =
     (case current_thread s of None \<Rightarrow> Inl (Bugcheck ''No current thread'')
      | Some c \<Rightarrow> bnd (get_mutex m s) (\<lambda>mx.
          if m_owner mx \<noteq> Some c then Inl (Bugcheck ''Mutex released by non-owner'')
          else bnd (get_thread c s) (\<lambda>ct.
            let s1 = upd_thread c (\<lambda>th. th\<lparr>t_priority := t_base_priority th, t_owned_mutex := None\<rparr>) s
            in if wq_count (m_waiters mx) = 0
               then Inr (upd_mutex m (\<lambda>mx. mx\<lparr>m_locked := False, m_owner := None\<rparr>) s1)
               else bnd (DequeueHighestPriority (MutexWaiters m) s1) (\<lambda>(next, s2).
                    bnd (ObDereferenceObject (MutexObj m) s2) (\<lambda>s3.
                    bnd (get_mutex m s3) (\<lambda>_. bnd (deref next) (\<lambda>n. bnd (get_thread n s3) (\<lambda>_.
                    CheckPreemption n
                      (upd_thread n (\<lambda>th. th\<lparr>t_owned_mutex := Some m, t_state := THREAD_READY\<rparr>)
                        (upd_mutex m (\<lambda>mx. mx\<lparr>m_owner := Some n\<rparr>) s3))))))))))"

definition TerminateThread_v2 :: "nat \<Rightarrow> kernel \<Rightarrow> kernel res" where
  "TerminateThread_v2 t s = bnd (get_thread t s) (\<lambda>th.
     bnd (case t_owned_mutex th of None \<Rightarrow> Inr s
          | Some m \<Rightarrow> bnd (ReleaseMutex_v2 m s) (\<lambda>s1.
              Inr (upd_thread t (\<lambda>th. th\<lparr>t_owned_mutex := None\<rparr>) s1))) (\<lambda>s2.
     let s3 = set_state t THREAD_TERMINATED s2
     in Inr (if current_thread s3 = Some t then s3\<lparr>reschedule_requested := True\<rparr> else s3)))"

definition WakeOne_v2 :: "WAIT_PTR \<Rightarrow> kernel \<Rightarrow> kernel res" where
  "WakeOne_v2 queue s =
     (if current_irql s \<noteq> DISPATCH_LEVEL then Inl (Bugcheck ''Wake must occur at DISPATCH_LEVEL'')
      else bnd (DequeueHighestPriority queue s) (\<lambda>(t, s1).
        case t of None \<Rightarrow> Inr s1
        | Some t \<Rightarrow> bnd (get_thread t s1) (\<lambda>_. CheckPreemption t (set_state t THREAD_READY s1))))"

end
