(* ===== verification/L2_Main.thy ===== *)
theory L2_Main
  imports L2_Kernel
begin

text \<open>
  The event, the drain loop, interrupts, the test threads and the main program of
  \<^verbatim>\<open>BLUE_KERNEL/BlueKernel_lvl2.c\<close>, and what its deferred routines leave alone.
\<close>

section \<open>The event and the DPC routines\<close>

definition SignalEvent_v2 :: "nat \<Rightarrow> kernel \<Rightarrow> kernel res" where
  "SignalEvent_v2 e s =
     (if current_irql s > DISPATCH_LEVEL
      then Inl (Bugcheck ''Signal must occur at DISPATCH_LEVEL'')
      else bnd (get_event e s) (\<lambda>ev.
        let s1 = upd_event e (\<lambda>ev. ev\<lparr>e_signaled := True\<rparr>) s
        in if wq_count (e_waiters ev) > 0
           then bnd (WakeOne_v2 (EventWaiters e) s1) (\<lambda>s2.
                Inr (upd_event e (\<lambda>ev. ev\<lparr>e_signaled := False\<rparr>) s2))
           else Inr s1))"

definition IoCompletionDpc_v2 :: "kernel \<Rightarrow> kernel res" where
  "IoCompletionDpc_v2 s = SignalEvent_v2 io_event s"

fun run_dpc_v2 :: "DPC_ROUTINE \<Rightarrow> kernel \<Rightarrow> kernel res" where
  "run_dpc_v2 DeviceDpc_fn s = DeviceDpc s"
| "run_dpc_v2 HighDpc_fn s = HighDpc s"
| "run_dpc_v2 TimerDPC_fn s = TimerDPC_v2 s"
| "run_dpc_v2 IoCompletionDpc_fn s = IoCompletionDpc_v2 s"

lemma WakeOne_v2_io [io_frames]: "WakeOne_v2 q s = Inr s' \<Longrightarrow> io_frame s' = io_frame s"
  by (auto simp: WakeOne_v2_def res_simps dest!: Dequeue_io CheckPreemption_io
      split: if_splits option.splits)

lemma run_dpc_v2_io: "run_dpc_v2 r s = Inr s' \<Longrightarrow> io_frame s' = io_frame s"
  by (cases r) (auto simp: DeviceDpc_def HighDpc_def AccessMemory_def TimerDPC_v2_def
      IoCompletionDpc_v2_def SignalEvent_v2_def Let_def res_simps dest!: WakeOne_v2_io
      split: option.splits if_splits)

section \<open>Draining and lowering the level\<close>

function drain_v2 :: "kernel \<Rightarrow> kernel res" where
  "drain_v2 s =
     (if dpc_count s > 0
      then bnd (deref (fst (TakeDpc s))) (\<lambda>r.
           bnd (run_dpc_v2 r (snd (TakeDpc s))) (\<lambda>s'. drain_v2 s'))
      else Inr s)"
  by pat_completeness auto
termination
proof (relation "measure dpc_count")
  fix s r s'
  assume "0 < dpc_count s" "run_dpc_v2 r (snd (TakeDpc s)) = Inr s'"
  then show "(s', s) \<in> measure dpc_count"
    using io_frame_dpc [OF run_dpc_v2_io, of r "snd (TakeDpc s)" s'] by (simp add: TakeDpc_def)
qed simp

declare drain_v2.simps [simp del]

definition DrainDpcQueue_v2 :: "kernel \<Rightarrow> kernel res" where
  "DrainDpcQueue_v2 s = (if current_irql s \<noteq> DISPATCH_LEVEL then Inr s else drain_v2 s)"

interpretation dpcs2: work_queue dpc_wf dpc_pending MAX_QUEUE QueueDpc TakeDpc run_dpc_v2 drain_v2
proof
  show "dpc_wf s' \<and> dpc_pending s' = dpc_pending s" if "dpc_wf s" "run_dpc_v2 r s = Inr s'" for s r s'
    using that io_frame_dpc [OF run_dpc_v2_io [OF that(2)]] by simp
  show "drain_v2 s = (case TakeDpc s of (None, s') \<Rightarrow> Inr s'
      | (Some r, s') \<Rightarrow> bnd (run_dpc_v2 r s') drain_v2)" if "dpc_wf s" for s
  proof (cases "dpc_pending s")
    case Nil
    then have "dpc_count s = 0" by (metis dpc_pending_length list.size(3))
    with dpcq.pop_Nil [OF that Nil] show ?thesis by (simp add: drain_v2.simps)
  next
    case (Cons r rs)
    then have "0 < dpc_count s" by (metis dpc_pending_length length_greater_0_conv list.distinct(1))
    with TakeDpc_pending [OF that Cons] show ?thesis by (subst drain_v2.simps) auto
  qed
qed

text \<open>The level the drain raised is restored from the stack.\<close>

definition PopIrql_v2 :: "kernel \<Rightarrow> kernel res" where
  "PopIrql_v2 s =
     (if irql_top s < 0 then Inl (Bugcheck ''IRQL stack underflow'')
      else let old_level = current_irql s;
               new_level = (if irql_top s - 1 \<ge> 0 then irql_stack s ! nat (irql_top s - 1)
                            else PASSIVE_LEVEL);
               s1 = s\<lparr>irql_top := irql_top s - 1, current_irql := new_level\<rparr>
           in if old_level > DISPATCH_LEVEL \<and> new_level < DISPATCH_LEVEL
              then bnd (DrainDpcQueue_v2 (s1\<lparr>current_irql := DISPATCH_LEVEL\<rparr>)) (\<lambda>s2.
                   Inr (s2\<lparr>current_irql := new_level\<rparr>))
              else Inr s1)"

section \<open>Interrupts\<close>

lemma PushIrql_raises:
  "PushIrql l s = Inr s1 \<Longrightarrow> \<not> l \<le> current_irql s \<Longrightarrow>
   irql_num (current_irql s) < irql_num (current_irql s1) \<and> irql_num (current_irql s1) \<le> 5"
  using irql_num_le [of l] by (auto simp: PushIrql_def IRQL_order split: if_splits)

function (sequential) TriggerInterrupt_v2 :: "INTERRUPT \<Rightarrow> kernel \<Rightarrow> kernel res"
  and run_isr_v2 :: "ISR_ROUTINE \<Rightarrow> kernel \<Rightarrow> kernel res"
  and LowIsr_v2 :: "kernel \<Rightarrow> kernel res" where
  "TriggerInterrupt_v2 i s =
     (if irql i \<le> current_irql s then Inr s
      else bnd (PushIrql (irql i) s) (\<lambda>s1. bnd (run_isr_v2 (isr i) s1) (\<lambda>s2. PopIrql_v2 s2)))"
| "run_isr_v2 DeviceIsr_fn s = DeviceIsr s"
| "run_isr_v2 HighIsr_fn s = HighIsr s"
| "run_isr_v2 TimerIsr_fn s = TimerIsr s"
| "run_isr_v2 LowIsr_fn s = LowIsr_v2 s"
| "LowIsr_v2 s = bnd (TriggerInterrupt_v2 \<lparr>irql = MACHINE_CHECK, isr = HighIsr_fn\<rparr> s)
     (\<lambda>s1. QueueDpc DeviceDpc_fn s1)"
  by pat_completeness auto
termination
  by (relation "measure (\<lambda>x. case x of
    Inl (i, s) \<Rightarrow> 3 * (5 - irql_num (current_irql s))
  | Inr (Inl (r, s)) \<Rightarrow> 3 * (5 - irql_num (current_irql s)) + 2
  | Inr (Inr s) \<Rightarrow> 3 * (5 - irql_num (current_irql s)) + 1)")
    (auto dest!: PushIrql_raises)

declare TriggerInterrupt_v2.simps [simp del]

definition StartIoOperation_v2 :: "kernel \<Rightarrow> kernel res" where
  "StartIoOperation_v2 s =
     bnd (PushIrql DIRQL s) (\<lambda>s1. bnd (QueueDpc IoCompletionDpc_fn s1) PopIrql_v2)"

section \<open>The test threads\<close>

definition finish_v2 :: "nat \<Rightarrow> kernel \<Rightarrow> kernel res" where
  "finish_v2 t s = bnd (TerminateThread_v2 t s) (\<lambda>s1. Inr (s1\<lparr>reschedule_requested := True\<rparr>))"

definition Thread_A_v2 :: "nat \<Rightarrow> kernel \<Rightarrow> kernel res" where
  "Thread_A_v2 t s = bnd (get_thread t s) (\<lambda>th.
     if t_pc th = 0 then Inr (set_pc t 1 s)
     else if t_pc th = 1 then Inr (set_pc t 2 s)
     else if t_pc th = 2 then finish_v2 t s
     else Inr s)"

definition Thread_B_v2 :: "nat \<Rightarrow> kernel \<Rightarrow> kernel res" where
  "Thread_B_v2 t s = bnd (get_thread t s) (\<lambda>th.
     if t_pc th = 0 then Inr (set_pc t 1 s)
     else if t_pc th = 1 then bnd (StartIoOperation_v2 (set_pc t 2 s)) (WaitEvent io_event)
     else if t_pc th = 2 then finish_v2 t s
     else Inr s)"

definition Thread_L_v2 :: "nat \<Rightarrow> kernel \<Rightarrow> kernel res" where
  "Thread_L_v2 t s = bnd (handle_object t (g_hMutex1 s) s) (\<lambda>(obj, s).
     case obj of None \<Rightarrow> Inl (Bugcheck ''Invalid handle'')
     | Some obj \<Rightarrow> bnd (as_mutex obj) (\<lambda>m. bnd (get_thread t s) (\<lambda>th.
         if t_pc th = 0
         then bnd (AcquireMutex_v2 m s) (\<lambda>s1. ObDereferenceObject obj (set_pc t 1 s1))
         else if t_pc th = 1 then ObDereferenceObject obj (set_pc t 2 s)
         else if t_pc th = 2
         then bnd (ReleaseMutex_v2 m s) (\<lambda>s1. bnd (finish_v2 t s1) (ObDereferenceObject obj))
         else Inr s)))"

definition Thread_H_v2 :: "nat \<Rightarrow> kernel \<Rightarrow> kernel res" where
  "Thread_H_v2 t s = bnd (handle_object t (g_hMutex1 s) s) (\<lambda>(obj, s).
     case obj of None \<Rightarrow> Inl (Bugcheck ''Invalid handle'')
     | Some obj \<Rightarrow> bnd (as_mutex obj) (\<lambda>m. bnd (get_thread t s) (\<lambda>th.
         if t_pc th = 0
         then bnd (AcquireMutex_v2 m s) (\<lambda>s1. ObDereferenceObject obj (set_pc t 1 s1))
         else if t_pc th = 1
         then bnd (ReleaseMutex_v2 m s) (\<lambda>s1. bnd (TerminateThread_v2 t s1) (\<lambda>s2.
              ObDereferenceObject obj ((set_pc t 2 s2)\<lparr>reschedule_requested := True\<rparr>)))
         else Inr s)))"

definition Thread_M_v2 :: "nat \<Rightarrow> kernel \<Rightarrow> kernel res" where
  "Thread_M_v2 t s = bnd (get_thread t s) (\<lambda>th.
     if t_pc th = 0 then Inr (set_pc t 1 s)
     else if t_pc th = 1 then TerminateThread_v2 t s
     else Inr s)"

fun run_routine_v2 :: "ThreadRoutine \<Rightarrow> nat \<Rightarrow> kernel \<Rightarrow> kernel res" where
  "run_routine_v2 IdleThread_fn t s = IdleThread t s"
| "run_routine_v2 Thread_A_fn t s = Thread_A_v2 t s"
| "run_routine_v2 Thread_B_fn t s = Thread_B_v2 t s"
| "run_routine_v2 Thread_L_fn t s = Thread_L_v2 t s"
| "run_routine_v2 Thread_M_fn t s = Thread_M_v2 t s"
| "run_routine_v2 Thread_H_fn t s = Thread_H_v2 t s"

definition run_current_v2 :: "kernel \<Rightarrow> kernel res" where
  "run_current_v2 s = bnd (deref (current_thread s)) (\<lambda>c. bnd (get_thread c s) (\<lambda>ct.
     bnd (deref (t_tRoutine ct)) (\<lambda>r. run_routine_v2 r c s)))"

section \<open>The main program\<close>

definition running_current :: "kernel \<Rightarrow> bool res" where
  "running_current s = (case current_thread s of None \<Rightarrow> Inr False
     | Some c \<Rightarrow> bnd (get_thread c s) (\<lambda>ct. Inr (t_state ct = THREAD_RUNNING)))"

text \<open>
  One turn of the loop; \<open>m\<close> and \<open>user\<close> are local variables of \<^verbatim>\<open>main\<close>. The turn answers what the
  detector prints.
\<close>

definition tick_v2 :: "nat \<Rightarrow> nat \<Rightarrow> kernel \<Rightarrow> ((nat \<times> nat \<times> nat) option \<times> kernel) res" where
  "tick_v2 m user s =
     bnd (TriggerInterrupt_v2 \<lparr>irql = DIRQL, isr = TimerIsr_fn\<rparr> s) (\<lambda>s.
     bnd (if current_irql s < DISPATCH_LEVEL
          then bnd (if reschedule_requested s then Inr True
                    else bnd (running_current s) (\<lambda>r. Inr (\<not> r))) (\<lambda>switch.
               if switch
               then bnd (Schedule_v2 s) (\<lambda>s. let s = s\<lparr>reschedule_requested := False\<rparr>
                    in bnd (DetectPriorityInversion m s) (\<lambda>report. Inr (report, s)))
               else Inr (None, s))
          else Inr (None, s)) (\<lambda>(report, s).
     bnd (bnd (running_current s) (\<lambda>r. if r then run_current_v2 s else Inr s)) (\<lambda>s.
     bnd (get_process user s) (\<lambda>pr.
     bnd (if p_exist pr
          then bnd (ProcessHasLiveThreads user s) (\<lambda>live.
               if \<not> live then DestroyProcess user s else Inr s)
          else Inr s) (\<lambda>s. Inr (report, s))))))"

fun ticks_v2 :: "nat \<Rightarrow> nat \<Rightarrow> nat \<Rightarrow> kernel \<Rightarrow> ((nat \<times> nat \<times> nat) option list \<times> kernel) res" where
  "ticks_v2 m user 0 s = Inr ([], s)"
| "ticks_v2 m user (Suc n) s = bnd (tick_v2 m user s) (\<lambda>(r, s).
     bnd (ticks_v2 m user n s) (\<lambda>(rs, s). Inr (r # rs, s)))"

definition main_v2 :: "bool \<Rightarrow> kernel \<Rightarrow> ((nat \<times> nat \<times> nat) option list \<times> kernel) res" where
  "main_v2 malloc_ok s =
     bnd (KernelWait s) (\<lambda>s.
     bnd (TriggerInterrupt_v2 \<lparr>irql = DIRQL, isr = LowIsr_fn\<rparr> s) (\<lambda>s.
     bnd (CreateProcess_v2 s) (\<lambda>(user, s).
     bnd (CreateProcess_v2 s) (\<lambda>(sys, s).
     bnd (CreateMutexObject malloc_ok s) (\<lambda>(m, s).
     bnd (ObInsertHandle user (MutexObj m) s) (\<lambda>(h, s).
     bnd (CreateThread_v2 sys IdleThread_fn 1 (s\<lparr>g_hMutex1 := h\<rparr>)) (\<lambda>s.
     bnd (CreateThread_v2 user Thread_L_fn 1 (s\<lparr>idle_thread := Some (g_thread_count s - 1)\<rparr>)) (\<lambda>s.
     bnd (Schedule_v2 s) (\<lambda>s.
     bnd (run_current_v2 s) (\<lambda>s.
     bnd (CreateThread_v2 user Thread_M_fn 3 s) (\<lambda>s.
     bnd (CreateThread_v2 user Thread_H_fn 5 s) (\<lambda>s.
     bnd (InitEvent io_event s) (\<lambda>s.
     ticks_v2 m user 10 s)))))))))))))"

end
