(* ===== verification/L2_Props.thy ===== *)
theory L2_Props
  imports L2_Main BK_Mutex Samples
begin

text \<open>
  The references of a mutex in the second version of the kernel simulator: every waiting thread
  holds one, every handle holds one, and a step of a test thread gives back the one it takes.
\<close>

section \<open>References beyond those of the waiters\<close>

definition spare_refs :: "nat \<Rightarrow> kernel \<Rightarrow> int option" where
  "spare_refs m s = (case get_mutex m s of Inl _ \<Rightarrow> None
     | Inr mx \<Rightarrow> Some (ref_count (m_header mx) - int (wq_count (m_waiters mx))))"

text \<open>Every mutex has a reference that no waiter holds.\<close>

definition refs_alive :: "kernel \<Rightarrow> bool" where
  "refs_alive s \<longleftrightarrow> (\<forall>m. case spare_refs m s of None \<Rightarrow> True | Some c \<Rightarrow> 0 < c)"

lemma refs_alive_cong: "(\<And>k. spare_refs k s' = spare_refs k s) \<Longrightarrow> refs_alive s' = refs_alive s"
  by (simp add: refs_alive_def)

lemma spare_refs_cong: "g_mutexes s' = g_mutexes s \<Longrightarrow> spare_refs m s' = spare_refs m s"
  by (simp add: spare_refs_def get_mutex_def)

lemma g_mutexes_upd [simp]:
  "g_mutexes (upd_thread t f s) = g_mutexes s" "g_mutexes (set_state t st s) = g_mutexes s"
  "g_mutexes (set_priority t p s) = g_mutexes s" "g_mutexes (upd_event e h s) = g_mutexes s"
  "g_mutexes (set_pc t pc s) = g_mutexes s"
  by (simp_all add: upd_thread_def set_state_def set_priority_def upd_event_def set_pc_def)

lemma spare_refs_upd [simp]:
  "spare_refs m (upd_thread t f s) = spare_refs m s" "spare_refs m (set_state t st s) = spare_refs m s"
  "spare_refs m (set_priority t p s) = spare_refs m s" "spare_refs m (set_pc t pc s) = spare_refs m s"
  "spare_refs m (s\<lparr>reschedule_requested := b\<rparr>) = spare_refs m s"
  by (rule spare_refs_cong, simp)+

text \<open>The effect of taking and giving back a reference, and of joining and leaving the queue.\<close>

definition add_refs :: "nat \<Rightarrow> int \<Rightarrow> nat \<Rightarrow> int option \<Rightarrow> int option" where
  "add_refs m d k = map_option (\<lambda>c. if k = m then c + d else c)"

lemma add_refs_simps [simp]:
  "add_refs m d k (add_refs m d' k c) = add_refs m (d + d') k c" "add_refs m 0 k c = c"
  by (cases c; simp add: add_refs_def)+

lemma upd_mutex_spare:
  assumes "get_mutex m s = Inr mx"
    and "ref_count (m_header (f mx)) - int (wq_count (m_waiters (f mx)))
      = ref_count (m_header mx) - int (wq_count (m_waiters mx)) + d"
  shows "spare_refs k (upd_mutex m f s) = add_refs m d k (spare_refs k s)"
proof (cases "k = m")
  case True
  with assms show ?thesis by (simp add: spare_refs_def add_refs_def)
next
  case False
  then show ?thesis by (simp add: spare_refs_def add_refs_def split: sum.split)
qed

lemma upd_mutex_spare_same [simp]:
  assumes "\<And>mx. m_header (f mx) = m_header mx" "\<And>mx. m_waiters (f mx) = m_waiters mx"
  shows "spare_refs k (upd_mutex m f s) = spare_refs k s"
  using assms by (cases "get_mutex m s") (auto simp: spare_refs_def)

lemma reference_spare:
  "ObReferenceObject (MutexObj m) s = Inr s' \<Longrightarrow> spare_refs k s' = add_refs m 1 k (spare_refs k s)"
  unfolding ObReferenceObject_def ob_header.simps ob_set_count.simps
  by (elim bnd_InrE) (auto intro!: upd_mutex_spare)

lemma dereference_spare:
  assumes "ObDereferenceObject (MutexObj m) s = Inr s'" "spare_refs m s = Some c" "1 < c"
  shows "spare_refs k s' = add_refs m (- 1) k (spare_refs k s)"
proof -
  from assms(1) obtain mx where mx: "get_mutex m s = Inr mx"
    unfolding ObDereferenceObject_def ob_header.simps by (elim bnd_InrE) blast
  with assms(2,3) have "ref_count (m_header mx) \<noteq> 1" by (auto simp: spare_refs_def)
  with assms(1) mx have "s' = ob_set_count (MutexObj m) (ref_count (m_header mx) - 1) s"
    by (simp add: ObDereferenceObject_def Let_def)
  then show ?thesis using mx by (auto intro!: upd_mutex_spare)
qed

lemma enqueue_spare:
  "EnqueueWaiter (MutexWaiters m) t s = Inr s' \<Longrightarrow> spare_refs k s' = add_refs m (- 1) k (spare_refs k s)"
  unfolding EnqueueWaiter_def get_wq.simps set_wq.simps
  by (elim bnd_InrE) (auto intro!: upd_mutex_spare split: if_splits)

lemma dequeue_spare:
  "DequeueHighestPriority (MutexWaiters m) s = Inr (t, s') \<Longrightarrow> get_mutex m s = Inr mx \<Longrightarrow>
   wq_count (m_waiters mx) \<noteq> 0 \<Longrightarrow> spare_refs k s' = add_refs m 1 k (spare_refs k s)"
  unfolding DequeueHighestPriority_def get_wq.simps set_wq.simps
  by (auto elim!: bnd_InrE intro!: upd_mutex_spare)

lemma CheckPreemption_mutexes: "CheckPreemption t s = Inr s' \<Longrightarrow> g_mutexes s' = g_mutexes s"
  by (auto simp: CheckPreemption_def res_simps split: option.splits if_splits)

section \<open>The mutex operations\<close>

lemma acquire_spare:
  assumes "AcquireMutex_v2 m s = Inr s'"
  shows "spare_refs k s' = spare_refs k s"
proof (cases "\<exists>mx. get_mutex m s = Inr mx \<and> m_locked mx")
  case False
  with assms show ?thesis
    unfolding AcquireMutex_v2_def
    by (auto elim!: bnd_InrE split: if_splits)
next
  case True
  with assms obtain c s1 s2 where s: "ObReferenceObject (MutexObj m) s1 = Inr s2" "g_mutexes s1 = g_mutexes s"
      "BlockCurrentThread (MutexWaiters m) s2 = Inr s'" "current_thread s = Some c" "current_thread s1 = Some c"
    unfolding AcquireMutex_v2_def
    by (auto elim!: bnd_InrE split: if_splits option.splits simp: deref_def set_priority_def upd_thread_def)
  have "current_thread s2 = Some c"
    using s(1,5) unfolding ObReferenceObject_def by (auto elim!: bnd_InrE)
  with s(3) obtain s3 where "EnqueueWaiter (MutexWaiters m) c (set_state c THREAD_BLOCKED s2) = Inr s3"
      "s' = s3\<lparr>reschedule_requested := True\<rparr>"
    unfolding BlockCurrentThread_def by (auto elim!: bnd_InrE split: if_splits)
  then show ?thesis
    using enqueue_spare [of m c "set_state c THREAD_BLOCKED s2" s3 k] reference_spare [OF s(1), of k]
      spare_refs_cong [OF s(2), of k] by simp
qed

lemma release_spare:
  assumes "ReleaseMutex_v2 m s = Inr s'" "refs_alive s"
  shows "spare_refs k s' = spare_refs k s"
proof -
  obtain mx where mx: "get_mutex m s = Inr mx"
    using assms(1) unfolding ReleaseMutex_v2_def by (auto elim!: bnd_InrE split: option.splits)
  define c where "c = ref_count (m_header mx) - int (wq_count (m_waiters mx))"
  have c: "spare_refs m s = Some c" "0 < c"
    using mx assms(2) by (auto simp: c_def spare_refs_def refs_alive_def dest!: spec [of _ m])
  obtain i where i: "current_thread s = Some i" using assms(1) by (auto simp: ReleaseMutex_v2_def split: option.splits)
  let ?s1 = "upd_thread i (\<lambda>th. th\<lparr>t_priority := t_base_priority th, t_owned_mutex := None\<rparr>) s"
  show ?thesis
  proof (cases "wq_count (m_waiters mx) = 0")
    case True
    with assms(1) mx i show ?thesis
      unfolding ReleaseMutex_v2_def Let_def
      by (auto elim!: bnd_InrE split: if_splits)
  next
    case False
    with assms(1) mx i obtain t s2 s3 n where
      s: "DequeueHighestPriority (MutexWaiters m) ?s1 = Inr (t, s2)" "ObDereferenceObject (MutexObj m) s2 = Inr s3"
        "CheckPreemption n (upd_thread n (\<lambda>th. th\<lparr>t_owned_mutex := Some m, t_state := THREAD_READY\<rparr>)
           (upd_mutex m (\<lambda>mx. mx\<lparr>m_owner := Some n\<rparr>) s3)) = Inr s'"
      unfolding ReleaseMutex_v2_def Let_def by (auto elim!: bnd_InrE split: if_splits)
    have s2: "spare_refs k s2 = add_refs m 1 k (spare_refs k s)" for k
      using dequeue_spare [OF s(1) _ False] mx by simp
    have "spare_refs m s2 = Some (c + 1)" using s2 [of m] c(1) by (simp add: add_refs_def)
    then have s3: "spare_refs k s3 = spare_refs k s"
      using dereference_spare [OF s(2), of "c + 1"] s2 c(2) by simp
    show ?thesis using spare_refs_cong [OF CheckPreemption_mutexes [OF s(3)]] s3 by simp
  qed
qed

lemma terminate_spare:
  assumes "TerminateThread_v2 t s = Inr s'" "refs_alive s"
  shows "spare_refs k s' = spare_refs k s"
  using assms unfolding TerminateThread_v2_def
  by (auto elim!: bnd_InrE simp: Let_def split: option.splits) (rule release_spare; assumption)

lemma finish_spare:
  assumes "finish_v2 t s = Inr s'" "refs_alive s"
  shows "spare_refs k s' = spare_refs k s"
  using assms unfolding finish_v2_def by (auto elim!: bnd_InrE intro: terminate_spare)

section \<open>Deferred routines do not touch the mutexes\<close>

lemma run_dpc_v2_mutexes: "run_dpc_v2 r s = Inr s' \<Longrightarrow> g_mutexes s' = g_mutexes s"
proof -
  have "g_mutexes s' = g_mutexes s" if "WakeOne_v2 (EventWaiters e) s = Inr s'" for e s s'
    using that unfolding WakeOne_v2_def DequeueHighestPriority_def
    by (auto elim!: bnd_InrE dest!: CheckPreemption_mutexes split: if_splits option.splits)
  then show "run_dpc_v2 r s = Inr s' \<Longrightarrow> g_mutexes s' = g_mutexes s"
    by (cases r) (auto simp: DeviceDpc_def HighDpc_def AccessMemory_def TimerDPC_v2_def
      IoCompletionDpc_v2_def SignalEvent_v2_def Let_def elim!: bnd_InrE
      split: option.splits if_splits)
qed

lemma drain_v2_mutexes: "drain_v2 s = Inr s' \<Longrightarrow> g_mutexes s' = g_mutexes s"
proof (induction s arbitrary: s' rule: drain_v2.induct)
  case (1 s)
  show ?case
  proof (cases "0 < dpc_count s")
    case True
    with "1.prems" obtain r s1 where r: "deref (fst (TakeDpc s)) = Inr r"
        "run_dpc_v2 r (snd (TakeDpc s)) = Inr s1" "drain_v2 s1 = Inr s'"
      by (subst (asm) drain_v2.simps) (auto elim!: bnd_InrE)
    from "1.IH" [OF True r] run_dpc_v2_mutexes [OF r(2)] show ?thesis
      by (simp add: TakeDpc_def split: if_splits)
  qed (use "1.prems" in \<open>simp add: drain_v2.simps\<close>)
qed

lemma StartIo_v2_mutexes: "StartIoOperation_v2 s = Inr s' \<Longrightarrow> g_mutexes s' = g_mutexes s"
  by (auto simp: StartIoOperation_v2_def PushIrql_def QueueDpc_def PopIrql_v2_def DrainDpcQueue_v2_def Let_def
      elim!: bnd_InrE dest!: drain_v2_mutexes split: if_splits)

lemma WaitEvent_mutexes: "WaitEvent e s = Inr s' \<Longrightarrow> g_mutexes s' = g_mutexes s"
  by (auto simp: WaitEvent_def BlockCurrentThread_def EnqueueWaiter_def
      elim!: bnd_InrE split: if_splits option.splits)

section \<open>Steps of the test threads\<close>

text \<open>Where a step of the threads L and H begins: with a reference to the mutex of the handle.\<close>

lemma handle_object_spare:
  assumes "handle_object t h s = Inr (Some obj, s1)" "as_mutex obj = Inr m"
  shows "obj = MutexObj m" "spare_refs k s1 = add_refs m 1 k (spare_refs k s)"
proof -
  show m: "obj = MutexObj m" using assms(2) by (cases obj) simp_all
  from assms(1) have "ObReferenceObject (MutexObj m) s = Inr s1"
    unfolding handle_object_def ObReferenceObjectByHandle_def m
    by (auto elim!: bnd_InrE split: if_splits option.splits)
  then show "spare_refs k s1 = add_refs m 1 k (spare_refs k s)" by (rule reference_spare)
qed

lemma with_reference:
  assumes "\<And>k. spare_refs k s1 = add_refs m 1 k (spare_refs k s)" "refs_alive s"
    and "\<And>k. spare_refs k s2 = spare_refs k s1" "ObDereferenceObject (MutexObj m) s2 = Inr s'"
  shows "spare_refs k s' = spare_refs k s"
proof -
  obtain mx where "get_mutex m s2 = Inr mx"
    using assms(4) unfolding ObDereferenceObject_def ob_header.simps by (auto elim!: bnd_InrE)
  then obtain c where c: "spare_refs m s2 = Some c" by (simp add: spare_refs_def)
  then have "add_refs m 1 m (spare_refs m s) = Some c" using assms(1,3) by simp
  moreover from this have "1 < c"
    using assms(2) by (auto simp: add_refs_def refs_alive_def dest!: spec [of _ m])
  ultimately show ?thesis using dereference_spare [OF assms(4) c] assms(1,3) by simp
qed

lemma alive_add:
  assumes "\<And>k. spare_refs k s1 = add_refs m 1 k (spare_refs k s)" "refs_alive s"
  shows "refs_alive s1"
  unfolding refs_alive_def
proof
  fix k
  show "case spare_refs k s1 of None \<Rightarrow> True | Some c \<Rightarrow> 0 < c"
    using assms(2) unfolding refs_alive_def assms(1) [of k]
    by (auto simp: add_refs_def split: option.splits dest!: spec [of _ k])
qed

lemma Thread_L_v2_spare:
  assumes "Thread_L_v2 t s = Inr s'" "refs_alive s" "get_thread t s = Inr th" "t_pc th \<in> {0, 1, 2}"
  shows "spare_refs k s' = spare_refs k s"
proof -
  from assms(1) obtain obj m s1 where s1: "handle_object t (g_hMutex1 s) s = Inr (Some obj, s1)"
      "as_mutex obj = Inr m"
    unfolding Thread_L_v2_def by (auto elim!: bnd_InrE split: option.splits)
  note o = handle_object_spare [OF s1]
  note alive = alive_add [OF o(2) assms(2)]
  have th: "get_thread t s1 = Inr th"
    using s1(1) assms(3) unfolding handle_object_def ObReferenceObjectByHandle_def ObReferenceObject_def o(1)
    by (auto elim!: bnd_InrE split: if_splits option.splits simp: get_thread_def upd_mutex_def)
  obtain s2 where "\<And>k. spare_refs k s2 = spare_refs k s1" "ObDereferenceObject (MutexObj m) s2 = Inr s'"
  proof -
    consider "t_pc th = 0" | "t_pc th = 1" | "t_pc th = 2" using assms(4) by blast
    then show thesis
    proof cases
      case 1
      with assms(1) s1 th o(1) obtain s2 where "AcquireMutex_v2 m s1 = Inr s2"
          "ObDereferenceObject (MutexObj m) (set_pc t 1 s2) = Inr s'"
        unfolding Thread_L_v2_def by (auto elim!: bnd_InrE)
      with acquire_spare show thesis by (intro that [of "set_pc t 1 s2"]) auto
    next
      case 2
      with assms(1) s1 th o(1) have "ObDereferenceObject (MutexObj m) (set_pc t 2 s1) = Inr s'"
        unfolding Thread_L_v2_def by auto
      then show thesis by (intro that [of "set_pc t 2 s1"]) auto
    next
      case 3
      with assms(1) s1 th o(1) obtain s2 s3 where s: "ReleaseMutex_v2 m s1 = Inr s2"
          "finish_v2 t s2 = Inr s3" "ObDereferenceObject (MutexObj m) s3 = Inr s'"
        unfolding Thread_L_v2_def by (auto elim!: bnd_InrE)
      note r = release_spare [OF s(1) alive]
      show thesis using finish_spare [OF s(2)] r refs_alive_cong [OF r] alive s(3)
        by (intro that [of s3]) auto
    qed
  qed
  with with_reference [OF o(2) assms(2)] show ?thesis by blast
qed

lemma Thread_H_v2_spare:
  assumes "Thread_H_v2 t s = Inr s'" "refs_alive s" "get_thread t s = Inr th" "t_pc th \<in> {0, 1}"
  shows "spare_refs k s' = spare_refs k s"
proof -
  from assms(1) obtain obj m s1 where s1: "handle_object t (g_hMutex1 s) s = Inr (Some obj, s1)"
      "as_mutex obj = Inr m"
    unfolding Thread_H_v2_def by (auto elim!: bnd_InrE split: option.splits)
  note o = handle_object_spare [OF s1]
  note alive = alive_add [OF o(2) assms(2)]
  have th: "get_thread t s1 = Inr th"
    using s1(1) assms(3) unfolding handle_object_def ObReferenceObjectByHandle_def ObReferenceObject_def o(1)
    by (auto elim!: bnd_InrE split: if_splits option.splits simp: get_thread_def upd_mutex_def)
  obtain s2 where "\<And>k. spare_refs k s2 = spare_refs k s1" "ObDereferenceObject (MutexObj m) s2 = Inr s'"
  proof (cases "t_pc th = 0")
    case True
    with assms(1) s1 th o(1) obtain s2 where "AcquireMutex_v2 m s1 = Inr s2"
        "ObDereferenceObject (MutexObj m) (set_pc t 1 s2) = Inr s'"
      unfolding Thread_H_v2_def by (auto elim!: bnd_InrE)
    with acquire_spare show thesis by (intro that [of "set_pc t 1 s2"]) auto
  next
    case False
    with assms(1,4) s1 th o(1) obtain s2 s3 where s: "ReleaseMutex_v2 m s1 = Inr s2"
        "TerminateThread_v2 t s2 = Inr s3"
        "ObDereferenceObject (MutexObj m) ((set_pc t 2 s3)\<lparr>reschedule_requested := True\<rparr>) = Inr s'"
      unfolding Thread_H_v2_def by (auto elim!: bnd_InrE)
    note r = release_spare [OF s(1) alive]
    show thesis using terminate_spare [OF s(2)] r refs_alive_cong [OF r] alive s(3)
      by (intro that [of "(set_pc t 2 s3)\<lparr>reschedule_requested := True\<rparr>"]) auto
  qed
  with with_reference [OF o(2) assms(2)] show ?thesis by blast
qed

text \<open>The steps a thread of the program can be at: those of its \<^verbatim>\<open>switch\<close>.\<close>

fun step_of :: "ThreadRoutine \<Rightarrow> int \<Rightarrow> bool" where
  "step_of Thread_L_fn pc \<longleftrightarrow> pc \<in> {0, 1, 2}"
| "step_of Thread_H_fn pc \<longleftrightarrow> pc \<in> {0, 1}"
| "step_of r pc \<longleftrightarrow> True"

text \<open>
  C27: When every mutex that is not freed has more references than waiting threads, and a test
  thread of the second version is at a step of its \<^verbatim>\<open>switch\<close> (threads L and H at one of its cases,
  the others anywhere), a step of the thread that returns gives back every reference it takes: the
  count of each mutex, less one for each thread that waits for it, is the same before and after,
  no mutex is freed by the step, and each still has more references than waiting threads.
\<close>

theorem thread_steps_balance_references:
  assumes "run_routine_v2 r t s = Inr s'" "refs_alive s"
    and "get_thread t s = Inr th" "step_of r (t_pc th)"
  shows "spare_refs k s' = spare_refs k s \<and> refs_alive s'"
proof -
  have *: "spare_refs k s' = spare_refs k s" for k
  proof (cases r)
    case Thread_B_fn
    with assms(1) consider "Thread_B_v2 t s = Inr s'" "t_pc th = 1" | "t_pc th \<noteq> 1" "Thread_B_v2 t s = Inr s'" by fastforce
    then show ?thesis
    proof cases
      case 1
      with assms(3) have "g_mutexes s' = g_mutexes s"
        by (auto simp: Thread_B_v2_def elim!: bnd_InrE dest!: StartIo_v2_mutexes WaitEvent_mutexes)
      then show ?thesis by (rule spare_refs_cong)
    next
      case 2
      with assms(2,3) show ?thesis
        by (auto simp: Thread_B_v2_def split: if_splits intro: finish_spare)
    qed
  qed (use assms in \<open>auto simp: IdleThread_def Thread_A_v2_def Thread_M_v2_def elim!: bnd_InrE split: if_splits
      intro: finish_spare terminate_spare Thread_L_v2_spare Thread_H_v2_spare\<close>)
  with assms(2) show ?thesis by (simp add: refs_alive_def)
qed

text \<open>Thread H steps into the mutex of the thread L, which runs at step 1: it blocks.\<close>

definition before_block :: kernel where
  "before_block = the_res initial_kernel
     (bnd (CreateProcess_v2 initial_kernel) (\<lambda>(p, s). bnd (CreateMutexObject True s) (\<lambda>(m, s).
      bnd (ObInsertHandle p (MutexObj m) s) (\<lambda>(h, s).
      bnd (CreateThread_v2 p Thread_L_fn 1 (s\<lparr>g_hMutex1 := h\<rparr>)) (\<lambda>s. bnd (CreateThread_v2 p Thread_H_fn 5 s) (\<lambda>s.
      bnd (run_routine_v2 Thread_L_fn 0 (s\<lparr>current_thread := Some 0\<rparr>)) (\<lambda>s.
        Inr (s\<lparr>current_thread := Some 1\<rparr>))))))))"

lemma refs_alive_code [code]:
  "refs_alive s \<longleftrightarrow> (\<forall>m \<in> set [0..<length (g_mutexes s)]. case spare_refs m s of None \<Rightarrow> True | Some c \<Rightarrow> 0 < c)"
  unfolding refs_alive_def
  by (auto simp: spare_refs_def get_mutex_def aread_def split: option.splits sum.splits)

theorem thread_steps_balance_references_witness:
  "\<exists>s'. run_routine_v2 Thread_H_fn 1 before_block = Inr s' \<and> spare_refs 0 s' = Some 2 \<and> refs_alive s'"
proof -
  have "case run_routine_v2 Thread_H_fn 1 before_block of Inl e \<Rightarrow> False | Inr s \<Rightarrow> True" by code_simp
  then obtain s' where s': "run_routine_v2 Thread_H_fn 1 before_block = Inr s'" by (auto split: sum.splits)
  have "case get_thread 1 before_block of Inl e \<Rightarrow> False | Inr th \<Rightarrow> step_of Thread_H_fn (t_pc th)" by code_simp
  then obtain th where th: "get_thread 1 before_block = Inr th" "step_of Thread_H_fn (t_pc th)"
    by (auto split: sum.splits)
  have "refs_alive before_block" by code_simp
  moreover have "spare_refs 0 before_block = Some 2" by code_simp
  ultimately show ?thesis using thread_steps_balance_references [OF s' _ th, of 0] s' by simp
qed

text \<open>
  The main program of the second version returns; all test threads are terminated, the mutex is
  free and only the reference of its creation is left, the user process is gone, the idle thread
  runs, and the detector never reports a priority inversion.
\<close>

theorem main_v2_outcome:
  "case main_v2 True initial_kernel of Inr (reports, s) \<Rightarrow>
      reports = replicate 10 None
      \<and> map t_state (take 4 (g_thread_table s)) = [THREAD_RUNNING, THREAD_TERMINATED, THREAD_TERMINATED, THREAD_TERMINATED]
      \<and> current_thread s = Some 0 \<and> spare_refs 0 s = Some 1 \<and> map p_exist (take 2 (process_table s)) = [False, True]
      \<and> current_irql s = PASSIVE_LEVEL \<and> dpc_count s = 0
   | _ \<Rightarrow> False"
  by code_simp

end
