(* ===== verification/Spec2Isabelle.thy ===== *)
theory Spec2Isabelle
  imports BK_Props BK_Run IK_Props ISA_Props PCI_Props PF_Props RF_Props L1_Props L2_Props
begin

text \<open>
  A model of the programs of this repository and the theorems that make them correct. The
  repository holds four independent C programs and earlier stages of some of them:

  \<^item> \<^verbatim>\<open>BLUE_KERNEL/BlueKernel_lvl3.c\<close>, a simulator of a small kernel: interrupt levels, deferred
    procedure calls, a priority scheduler with ready queues, objects and handles, mutexes with
    priority inheritance, events, processes. Its first version \<^verbatim>\<open>BlueKernel_Lvl1.c\<close> and second
    version \<^verbatim>\<open>BlueKernel_lvl2.c\<close>, which adds objects and handles, scan the thread table instead.
  \<^item> \<^verbatim>\<open>BLUE_KERNEL/IRQ_KernelDeal.c\<close>, a simulator of the interrupt path: devices, IO-APIC, MSI, LAPIC,
    CPUs, interrupt service routines and deferred calls in a linked list.
  \<^item> \<^verbatim>\<open>firmwareLearning/cpu_isa.c\<close>, a two-core CPU with micro-operations, MESI caches, store buffers
    and a locked bus.
  \<^item> \<^verbatim>\<open>B_Kernel\<close>, a PCI kernel in layers: simulated hardware (\<^verbatim>\<open>hw/pci_sim.c\<close>), bus logic
    (\<^verbatim>\<open>bus/pci_logic.c\<close>), device contexts and address assignment (\<^verbatim>\<open>device/OS_device.c\<close>), drivers
    (\<^verbatim>\<open>drivers/basic_driver.c\<close>), routing of memory accesses (\<^verbatim>\<open>mmio/mmio_router.c\<close>). The bus logic
    calls the device layer through a callback for each function it finds and for each BAR that
    changes; the device layer calls the driver manager through a third one. It has two precursors
    of one file each: \<^verbatim>\<open>firmwareLearning/PCI_foundation.c\<close> (devices, I/O space, BAR sizing by a probe
    flag, device registers) and \<^verbatim>\<open>firmwareLearning/PCI_ReFresh.c\<close> (256-byte configuration spaces, sizing by
    a mask stored in the register, the recursive scan).

  How the code is modelled. Every program has one record with its global variables and heap; a
  pointer is an index into a list of that record, an option where it may be null. An operation
  is a HOL function on the record with the name of the C function (a suffix \<^verbatim>\<open>_irq\<close>, \<^verbatim>\<open>_v1\<close>, \<^verbatim>\<open>_v2\<close>,
  \<^verbatim>\<open>_pf\<close> or \<^verbatim>\<open>_rf\<close> where two programs use one name). An operation that can stop answers \<open>Inl (Bugcheck r)\<close> when the program
  stops itself and \<open>Inl (Undefined r)\<close> at a step C gives no meaning to (a null or freed pointer, an
  index outside its array, a shift too far); all results are sequenced by \<open>bnd\<close> of \<open>Prelude\<close>. A
  loop that may run for ever is a \<open>partial_function\<close> whose answer \<open>None\<close> is not returning. Function
  pointers are datatypes with one constructor for each function whose address is taken.
  \<^verbatim>\<open>malloc\<close> fails as a function of the number of the call says, which is part of the state, so
  every theorem holds for every pattern of failures its hypotheses allow. Machine integers are
  words of their width where the code computes modulo it or on bits; counters, priorities and the
  simulated program counters are unbounded, since no run of fewer than \<open>2^31\<close> steps overflows them.

  Theories, in the order they build on each other.

  \<^item> \<open>Prelude\<close>: results, checked reads, ring buffers as lists, and three interfaces as locales:
    \<open>bounded_fifo\<close> (a queue refines a bounded list for every script of operations), \<open>work_queue\<close> (a
    drain loop runs the queued work oldest first) and \<open>pick_loop\<close> (a search that skips dead entries).
    The DPC ring, the device buffers and the store buffer interpret the first, the DPC drain the
    second, the scheduler the third.
  \<^item> \<open>BK_State\<close>, \<open>BK_Irql\<close>, \<open>BK_Ready\<close>, \<open>BK_ReadyList\<close>, \<open>BK_Sched\<close>, \<open>BK_Objects\<close>, \<open>BK_Sync\<close>, \<open>BK_Inherit\<close>,
    \<open>BK_Mutex\<close>, \<open>BK_Interrupt\<close>, \<open>BK_Main\<close>: the kernel simulator, third version; \<open>Samples\<close>: states its own
    operations reach, for the instances; \<open>BK_Props\<close>: its properties; \<open>BK_Run\<close>: what every operation
    keeps, carried through the set-up of \<^verbatim>\<open>main\<close> and through any number of timer ticks. They show the ready queues,
    bitmap and bit search to be a priority queue with arrival order, the mutexes to keep their
    invariants and to lend and return priorities along chains of owners, the DPC queue to be a
    FIFO, interrupts to leave the levels as they were, handles and references to be balanced.
  \<^item> \<open>L1_Kernel\<close>, \<open>L1_Main\<close>, \<open>L1_Props\<close>: the first version, whole; its scan of the thread table is the
    abstract specification that the ready queues of the third version refine.
  \<^item> \<open>L2_Kernel\<close>, \<open>L2_Main\<close>, \<open>L2_Props\<close>: the second version, on the record of the third, whose
    functions it shares where the text is the same. Its deferred calls interpret \<open>work_queue\<close> again;
    its threads give back every reference they take.
  \<^item> \<open>IK_State\<close>, \<open>IK_Ops\<close>, \<open>IK_Main\<close>, \<open>IK_Buffers\<close>, \<open>IK_Dpc\<close>, \<open>IK_Vectors\<close>, \<open>IK_Props\<close>: the interrupt
    simulator, from the event of a device to the output of its deferred call.
  \<^item> \<open>ISA_State\<close>, \<open>ISA_Cache\<close>, \<open>ISA_Step\<close>, \<open>ISA_Mesi\<close>, \<open>ISA_Facts\<close>, \<open>ISA_Micro\<close>, \<open>ISA_Props\<close>: the CPU: the
    encoding, coherence of the caches, the store buffer, the bus lock, and the agreement of the
    micro-operations with the one-shot handlers.
  \<^item> \<open>PCI_State\<close>, \<open>PCI_Sim\<close>, \<open>PCI_Logic\<close>, \<open>OS_Device\<close>, \<open>MMIO_Router\<close>: the PCI kernel, one theory for each
    layer (the drivers and the enumeration, which runs the callback, are in \<open>OS_Device\<close>).
    \<open>PCI_Facts\<close> and \<open>PCI_Bars\<close> work in the locale \<open>idle_slot\<close>, a function none of whose BARs is being
    sized, and in the locale \<open>sizing_protocol\<close>, what the sizing relies on, which both \<^verbatim>\<open>B_Kernel\<close> and
    \<^verbatim>\<open>PCI_ReFresh.c\<close> interpret, and derive what the sizing answers; \<open>PCI_Access\<close> has typing of configuration
    access, the command register, BAR memory and decoded addresses; \<open>PCI_Enum\<close> says when the
    enumeration returns; \<open>MMIO_Facts\<close> shows the search to depend only on contexts and registers;
    \<open>PCI_Props\<close> has the properties.
  \<^item> \<open>PF_Model\<close>, \<open>PF_Props\<close>: \<^verbatim>\<open>PCI_foundation.c\<close>, whole: what sizing answers, and that a device register
    holds what was written in I/O space and in mapped memory, both of which interpret the locale
    \<open>register_bank\<close>.
  \<^item> \<open>RF_Model\<close>, \<open>RF_Facts\<close>, \<open>RF_Enum\<close>, \<open>RF_Props\<close>: \<^verbatim>\<open>PCI_ReFresh.c\<close>, whole, on the types and pure functions
    it has in common with \<^verbatim>\<open>B_Kernel\<close>: its sizing protocol leaves the device as it was and agrees with
    that of \<^verbatim>\<open>B_Kernel\<close>, and its scan ends on every bus.
  \<^item> This theory: what holds after every run of the main program of the kernel simulator, across its
    components, and that from the initial state it returns for every number of timer ticks.

  Loops and bounds. Structural recursion or a measure proves termination of every loop that ends:
  the drain loops by the number of queued calls, nested interrupts by the level (second and third version) or
  the depth of the level stack (first version), the boost along a chain of owners by the threads
  still below the new priority, the loops over BARs by the slots left. \<open>PickNextThread\<close>, the DPC
  list of a CPU, \<open>scan_bus\<close>, \<open>scan_bus_rf\<close>, \<open>route\<close> and the run of the two cores may not end and are partial; where
  a property says they return, that is proved (for \<open>scan_bus_rf\<close> by the contexts still free and the
  functions still ahead on the bus), and two properties say exactly when they do not. No
  fuel is used except in runs of the two cores by number of steps.

  Not modelled, and why. The messages on the console, \<^verbatim>\<open>PrintCache\<close>, \<^verbatim>\<open>MmioPrintMatch\<close> and the
  display functions only print. In \<^verbatim>\<open>IRQ_KernelDeal.c\<close> the array \<^verbatim>\<open>MMIO\<close> and \<^verbatim>\<open>DMA_Write\<close> are never
  used. \<^verbatim>\<open>DecodeBar\<close>, \<^verbatim>\<open>DumpPciConfig\<close> and \<^verbatim>\<open>DumpPciDevice\<close> of the PCI precursors only print. The byte order is
  little-endian, as on the processors the code is built for.
\<close>

text \<open>
  The demonstration program of \<^verbatim>\<open>main\<close>, both \<^verbatim>\<open>malloc\<close> calls succeeding: it returns after any number
  of timer ticks, without a bugcheck and without the scheduler's search running forever.
  After the eleven ticks of \<^verbatim>\<open>main\<close> the idle thread runs, the three user threads are terminated, the
  user process is destroyed and the ready queues are empty; more ticks change nothing of it.
\<close>

lemma main_rests:
  "case main_setup True True initial_kernel of
     Some (Inr ((m1, m2, user), s)) \<Rightarrow> (case timer_ticks m1 m2 user 11 s of
       Some (Inr s') \<Rightarrow> resting m1 m2 user s' \<and> map t_state (take 4 (g_thread_table s'))
           = [THREAD_RUNNING, THREAD_TERMINATED, THREAD_TERMINATED, THREAD_TERMINATED]
         \<and> current_thread s' = Some 0 \<and> list_all (\<lambda>p. ready_list s' p = []) [0..<MAX_PRIORITY]
         \<and> map p_exist (take 2 (process_table s')) = [False, True]
     | _ \<Rightarrow> False)
   | _ \<Rightarrow> False"
  by code_simp

theorem kernel_main_outcome:
  "\<exists>m1 m2 user s. main_setup True True initial_kernel = Some (Inr ((m1, m2, user), s))
    \<and> (\<forall>n. \<exists>s'. timer_ticks m1 m2 user n s = Some (Inr s'))
    \<and> (\<forall>k. \<exists>s'. timer_ticks m1 m2 user (11 + k) s = Some (Inr s') \<and> resting m1 m2 user s'
        \<and> map t_state (take 4 (g_thread_table s'))
           = [THREAD_RUNNING, THREAD_TERMINATED, THREAD_TERMINATED, THREAD_TERMINATED]
        \<and> current_thread s' = Some 0 \<and> (\<forall>p < MAX_PRIORITY. ready_list s' p = [])
        \<and> map p_exist (take 2 (process_table s')) = [False, True])"
proof -
  obtain m1 m2 user s s1 where s: "main_setup True True initial_kernel = Some (Inr ((m1, m2, user), s))"
      and s1: "timer_ticks m1 m2 user 11 s = Some (Inr s1)" "resting m1 m2 user s1"
      "map t_state (take 4 (g_thread_table s1)) = [THREAD_RUNNING, THREAD_TERMINATED, THREAD_TERMINATED, THREAD_TERMINATED]"
      "current_thread s1 = Some 0" "\<forall>p < MAX_PRIORITY. ready_list s1 p = []"
      "map p_exist (take 2 (process_table s1)) = [False, True]"
    using main_rests by (auto simp: case_returns list_all_iff)
  have "\<exists>s'. timer_ticks m1 m2 user (11 + k) s = Some (Inr s') \<and> resting m1 m2 user s'
      \<and> map t_state (take 4 (g_thread_table s')) = [THREAD_RUNNING, THREAD_TERMINATED, THREAD_TERMINATED, THREAD_TERMINATED]
      \<and> current_thread s' = Some 0 \<and> (\<forall>p < MAX_PRIORITY. ready_list s' p = [])
      \<and> map p_exist (take 2 (process_table s')) = [False, True]" for k
  proof -
    obtain s' where s': "timer_ticks m1 m2 user k s1 = Some (Inr s')" "resting m1 m2 user s'"
        "g_thread_table s' = g_thread_table s1" "g_ready_queues s' = g_ready_queues s1"
        "process_table s' = process_table s1" "current_thread s' = current_thread s1"
      using resting_ticks [OF s1(2)] by metis
    have "ready_list s' = ready_list s1" using s'(4) by (simp add: ready_list_def fun_eq_iff)
    with s' s1 show ?thesis by (simp add: timer_ticks_add)
  qed
  with s rests_for_ever [OF s1(1,2)] show ?thesis by blast
qed

text \<open>
  C1: When the program of \<^verbatim>\<open>main\<close> starts with well-formed level stack and DPC queue, no thread
  running but the current one and ready queues of their sizes, as static initialisation leaves
  them, then after every run of its set-up and of any number of timer ticks that returns, whichever
  \<^verbatim>\<open>malloc\<close> calls succeed, no thread but the current one is running, the ready queues and their bitmap
  are well formed, the stack of interrupt levels holds what it held at the start with the level back
  at \<open>PASSIVE_LEVEL\<close>, and the DPC queue is well formed and empty.
\<close>

theorem kernel_run_invariant:
  assumes "irql_wf s" "dpc_wf s" "only_current_runs s" "queues_sized s"
    and "main_setup ok1 ok2 s = Some (Inr ((m1, m2, user), s1))" "timer_ticks m1 m2 user n s1 = Some (Inr s')"
  shows "(\<forall>i < length (g_thread_table s'). t_state (g_thread_table s' ! i) = THREAD_RUNNING \<longrightarrow> current_thread s' = Some i)
    \<and> ready_wf s' \<and> irql_wf s' \<and> irql_held s' = irql_held s \<and> current_irql s' = PASSIVE_LEVEL
    \<and> dpc_wf s' \<and> dpc_pending s' = []"
proof -
  note k1 = main_setup_kept [OF assms(5,4,3,1,2)]
  have k: "sched_ok s'" "irql_wf s'" "dpc_wf s'" "irql_held s' = irql_held s1" "drained s'"
    using timer_ticks_kept [OF assms(6)] k1 by (auto simp: settled_def kept_def irq_kept_def)
  have "current_irql s' = PASSIVE_LEVEL" using irql_held_current [OF k1(2) k(2,4)] k1(5) by simp
  with k k1(4) show ?thesis by (simp add: sched_ok_def only_current_runs_def drained_def IRQL_order)
qed

lemma initial_kernel_ok: "irql_wf initial_kernel" "dpc_wf initial_kernel" "queues_sized initial_kernel" "only_current_runs initial_kernel"
  by (code_simp, code_simp, simp_all add: queues_sized_def only_current_runs_def initial_kernel_def zero_thread_def zero_ready_queue_def)

theorem kernel_run_invariant_witness:
  "\<exists>m1 m2 user s1. main_setup True True initial_kernel = Some (Inr ((m1, m2, user), s1))
    \<and> (\<forall>n. \<exists>s'. timer_ticks m1 m2 user n s1 = Some (Inr s') \<and> ready_wf s' \<and> current_irql s' = PASSIVE_LEVEL
        \<and> dpc_pending s' = [])"
proof -
  obtain m1 m2 user s1 where s1: "main_setup True True initial_kernel = Some (Inr ((m1, m2, user), s1))"
      "\<forall>n. \<exists>s'. timer_ticks m1 m2 user n s1 = Some (Inr s')"
    using kernel_main_outcome by blast
  with kernel_run_invariant [OF initial_kernel_ok(1,2,4,3) s1(1)] show ?thesis by blast
qed

end
